(* ===== verification/Prelude.thy ===== *)
theory Prelude
  imports Complex_Main "HOL-Library.Log_Nat"
begin

text \<open>
  Shared vocabulary of the CrushBot development (src/src/App.jsx).
  JavaScript strings that carry free text (the prompt, the explanation, the response
  body) are sequences of Unicode code points, \<open>ustring\<close>; the identifiers of the
  program (question ids, KPI keys, category names) are ASCII and kept as HOL
  \<open>string\<close>s, converted with \<open>U\<close> where they are spliced into text.
  The collection \<open>model_eval\<close> gathers the program definitions that concrete runs
  unfold; \<open>num_eval\<close> the definitions of the number model, kept apart so that a run
  leaves number literals such as \<open>fl (3/10)\<close> unevaluated.
\<close>

named_theorems model_eval "definitions of the program unfolded when a run is evaluated on a concrete input"
named_theorems num_eval "definitions of the number model, unfolded only to compute a rounding"

type_synonym ustring = "nat list"

definition U :: "string \<Rightarrow> ustring" where
  "U s = map of_char s"

declare U_def [model_eval]

lemma U_append [simp]: "U (xs @ ys) = U xs @ U ys"
  by (simp add: U_def)

lemma U_inj [simp]: "U xs = U ys \<longleftrightarrow> xs = ys"
  unfolding U_def by (rule inj_map_eq_map) (meson inj_on_def of_char_eq_iff)

lemma U_ascii_bound: "c \<in> set (U s) \<Longrightarrow> c < 256"
  by (auto simp: U_def)

text \<open>A JavaScript value read from a missing object key is \<open>undefined\<close>:
  maps return \<open>None\<close> there, and lookups that default are written out.\<close>

definition or_zero :: "rat option \<Rightarrow> rat" where
  "or_zero v = (case v of None \<Rightarrow> 0 | Some x \<Rightarrow> x)"

lemma or_zero_simps [simp]: "or_zero None = 0" "or_zero (Some x) = x"
  by (simp_all add: or_zero_def)

lemma or_zero_range:
  "(\<forall>x. v = Some x \<longrightarrow> 0 \<le> x \<and> x \<le> 1) \<Longrightarrow> 0 \<le> or_zero v \<and> or_zero v \<le> 1"
  by (cases v) simp_all

end
