(* ===== verification/Js_Number.thy ===== *)
theory Js_Number
  imports Prelude
begin

text \<open>
  JavaScript numbers (IEEE-754 binary64) as the rationals they denote.  \<open>fl x\<close> is the
  double nearest to \<open>x\<close> with ties to even (normal and subnormal range; overflow to
  infinity is not modelled: every value of the program lies in \<open>[0, 100]\<close>).
  A decimal literal such as \<open>0.15\<close> denotes \<open>fl (15/100)\<close>; \<open>a + b\<close> and
  \<open>a * b\<close> on numbers are \<open>js_add\<close> and \<open>js_mul\<close>; \<open>Math.round\<close> is
  \<open>math_round\<close>.  The lemmas bound the rounding error of \<open>fl\<close>.
\<close>

definition ilog2 :: "rat \<Rightarrow> int" where
  "ilog2 x = (if 1 \<le> x then bitlen \<lfloor>x\<rfloor> - 1 else - bitlen (\<lceil>inverse x\<rceil> - 1))"

definition round_half_even :: "rat \<Rightarrow> int" where
  "round_half_even y = (let f = \<lfloor>y\<rfloor>; d = y - of_int f in
     if d < 1/2 then f else if 1/2 < d then f + 1 else if even f then f else f + 1)"

definition fl_exp :: "rat \<Rightarrow> int" where
  "fl_exp x = max (ilog2 x - 52) (-1074)"

definition fl_pos :: "rat \<Rightarrow> rat" where
  "fl_pos x = of_int (round_half_even (x * 2 powi (- fl_exp x))) * 2 powi fl_exp x"

definition fl :: "rat \<Rightarrow> rat" where
  "fl x = (if x = 0 then 0 else if 0 < x then fl_pos x else - fl_pos (- x))"

definition js_add :: "rat \<Rightarrow> rat \<Rightarrow> rat" where
  "js_add a b = fl (a + b)"

definition js_mul :: "rat \<Rightarrow> rat \<Rightarrow> rat" where
  "js_mul a b = fl (a * b)"

text \<open>\<open>Math.round(x)\<close>: the integer closest to \<open>x\<close>, ties towards \<open>+\<infinity>\<close>
  (ECMA-262, 21.3.2.28).\<close>

definition math_round :: "rat \<Rightarrow> int" where
  "math_round x = \<lfloor>x + 1/2\<rfloor>"

declare ilog2_def [num_eval] round_half_even_def [num_eval] fl_exp_def [num_eval]
  fl_pos_def [num_eval] fl_def [num_eval] js_add_def [num_eval] js_mul_def [num_eval]
  math_round_def [num_eval]

lemma two_powi_pos: "0 < (2::rat) powi k"
  by simp

lemma pow2_le_of_int: "2 ^ n \<le> f \<Longrightarrow> (2::rat) ^ n \<le> of_int f"
proof -
  assume "2 ^ n \<le> f"
  then have "(of_int (2 ^ n) :: rat) \<le> of_int f" by (simp only: of_int_le_iff)
  then show ?thesis by simp
qed

lemma of_int_succ_le_pow2: "f < 2 ^ n \<Longrightarrow> of_int f + 1 \<le> (2::rat) ^ n"
proof -
  assume "f < 2 ^ n"
  then have "f + 1 \<le> 2 ^ n" by simp
  then have "(of_int (f + 1) :: rat) \<le> of_int (2 ^ n)" by (simp only: of_int_le_iff)
  then show ?thesis by simp
qed

lemma ilog2_bounds:
  assumes "0 < x"
  shows "2 powi ilog2 x \<le> x \<and> x < 2 powi (ilog2 x + 1)"
proof (cases "1 \<le> x")
  case True
  define f where "f = \<lfloor>x\<rfloor>"
  have f1: "1 \<le> f" using True by (simp add: f_def)
  then have b: "2 ^ nat (bitlen f - 1) \<le> f \<and> f < 2 ^ nat (bitlen f)"
    by (intro bitlen_bounds) simp
  have bl: "1 \<le> bitlen f" using f1 by (simp add: bitlen_alt_def)
  have p1: "(2::rat) powi ilog2 x = 2 ^ nat (bitlen f - 1)"
    using bl True by (simp add: power_int_def ilog2_def f_def)
  have p2: "(2::rat) powi (ilog2 x + 1) = 2 ^ nat (bitlen f)"
    using bl True by (simp add: power_int_def ilog2_def f_def)
  have fx: "of_int f \<le> x" "x < of_int f + 1"
    unfolding f_def by linarith+
  have "(2::rat) ^ nat (bitlen f - 1) \<le> of_int f"
    using b by (intro pow2_le_of_int) simp
  moreover have "of_int f + 1 \<le> (2::rat) ^ nat (bitlen f)"
    using b by (intro of_int_succ_le_pow2) simp
  ultimately show ?thesis
    unfolding p1 p2 using fx by linarith
next
  case False
  define y where "y = inverse x"
  define c where "c = \<lceil>y\<rceil>"
  have y1: "1 < y" using False assms by (simp add: y_def one_less_inverse)
  have cy: "of_int c - 1 < y" "y \<le> of_int c"
    unfolding c_def by linarith+
  have c2: "2 \<le> c" using y1 cy by linarith
  then have b: "2 ^ nat (bitlen (c - 1) - 1) \<le> c - 1 \<and> c - 1 < 2 ^ nat (bitlen (c - 1))"
    by (intro bitlen_bounds) simp
  have bl: "1 \<le> bitlen (c - 1)" using c2 by (simp add: bitlen_alt_def)
  have lo: "y \<le> 2 ^ nat (bitlen (c - 1))"
  proof -
    have "of_int (c - 1) + 1 \<le> (2::rat) ^ nat (bitlen (c - 1))"
      using b by (intro of_int_succ_le_pow2) simp
    then have "of_int c \<le> (2::rat) ^ nat (bitlen (c - 1))"
      by (simp only: of_int_diff of_int_1 diff_add_cancel)
    with cy show ?thesis by linarith
  qed
  have hi: "2 ^ nat (bitlen (c - 1) - 1) < y"
  proof -
    have "(2::rat) ^ nat (bitlen (c - 1) - 1) \<le> of_int (c - 1)"
      using b by (intro pow2_le_of_int) simp
    then have "(2::rat) ^ nat (bitlen (c - 1) - 1) \<le> of_int c - 1"
      by (simp only: of_int_diff of_int_1)
    with cy show ?thesis by linarith
  qed
  have il: "ilog2 x = - bitlen (c - 1)"
    using False by (simp add: ilog2_def c_def y_def)
  have e1: "(2::rat) powi (- bitlen (c - 1)) = inverse (2 ^ nat (bitlen (c - 1)))"
    using bl by (simp add: power_int_def power_one_over inverse_eq_divide)
  have e2: "(2::rat) powi (- bitlen (c - 1) + 1) = inverse (2 ^ nat (bitlen (c - 1) - 1))"
    using bl by (simp add: power_int_def nat_diff_distrib power_one_over inverse_eq_divide)
  have x: "x = inverse y" by (simp add: y_def)
  have "inverse (2 ^ nat (bitlen (c - 1))) \<le> inverse y"
    using lo y1 by (intro le_imp_inverse_le) simp_all
  moreover have "inverse y < inverse ((2::rat) ^ nat (bitlen (c - 1) - 1))"
    using hi by (intro less_imp_inverse_less) simp_all
  ultimately show ?thesis
    unfolding il e1 e2 by (simp add: x)
qed

lemma round_half_even_close: "\<bar>of_int (round_half_even y) - y\<bar> \<le> 1/2"
proof -
  define f where "f = \<lfloor>y\<rfloor>"
  have f: "of_int f \<le> y" "y < of_int f + 1"
    unfolding f_def by linarith+
  consider "y - of_int f < 1/2" | "1/2 < y - of_int f" | "y - of_int f = 1/2"
    by linarith
  then show ?thesis
  proof cases
    case 1
    with f show ?thesis by (simp add: round_half_even_def Let_def flip: f_def)
  next
    case 2
    with f show ?thesis by (simp add: round_half_even_def Let_def abs_le_iff flip: f_def)
  next
    case 3
    then show ?thesis by (simp add: round_half_even_def Let_def abs_le_iff flip: f_def)
  qed
qed

lemma round_half_even_nonneg: "0 \<le> y \<Longrightarrow> 0 \<le> round_half_even y"
  unfolding round_half_even_def Let_def by (simp split: if_splits)

lemma fl_exp_scale: "(2::rat) powi fl_exp x \<le> 2 powi ilog2 x / 2 ^ 52 + 1 / 2 ^ 1074"
proof (cases "ilog2 x - 52 \<le> -1074")
  case True
  then have "fl_exp x = -1074" by (simp add: fl_exp_def)
  moreover have "0 \<le> (2::rat) powi ilog2 x / 2 ^ 52" by simp
  ultimately show ?thesis by (simp add: power_int_minus_divide)
next
  case False
  then have "fl_exp x = ilog2 x - 52" by (simp add: fl_exp_def)
  then have "(2::rat) powi fl_exp x = 2 powi ilog2 x / 2 ^ 52"
    by (simp add: power_int_diff)
  then show ?thesis by simp
qed

lemma fl_pos_error:
  assumes "0 < x"
  shows "\<bar>fl_pos x - x\<bar> \<le> x / 2 ^ 53 + 1 / 2 ^ 1075"
proof -
  define s where "s = fl_exp x"
  define y where "y = x * 2 powi (- s)"
  have xy: "x = y * 2 powi s"
    by (simp add: y_def power_int_minus mult.assoc)
  have "fl_pos x = of_int (round_half_even y) * 2 powi s"
    by (simp add: fl_pos_def s_def y_def)
  then have "fl_pos x - x = (of_int (round_half_even y) - y) * 2 powi s"
    by (simp add: left_diff_distrib flip: xy)
  then have "\<bar>fl_pos x - x\<bar> = \<bar>of_int (round_half_even y) - y\<bar> * 2 powi s"
    by (simp add: abs_mult)
  also have "\<dots> \<le> 1/2 * 2 powi s"
    by (rule mult_right_mono) (simp_all only: round_half_even_close two_powi_pos less_imp_le)
  also have "\<dots> \<le> 1/2 * (2 powi ilog2 x / 2 ^ 52 + 1 / 2 ^ 1074)"
    unfolding s_def by (rule mult_left_mono [OF fl_exp_scale]) simp
  also have "\<dots> \<le> 1/2 * (x / 2 ^ 52 + 1 / 2 ^ 1074)"
    using ilog2_bounds [OF assms] by (intro mult_left_mono add_right_mono divide_right_mono) simp_all
  finally show ?thesis by simp
qed

lemma fl_error: "\<bar>fl x - x\<bar> \<le> \<bar>x\<bar> / 2 ^ 53 + 1 / 2 ^ 1075"
proof -
  consider "x = 0" | "0 < x" | "x < 0" by linarith
  then show ?thesis
  proof cases
    case 2
    then show ?thesis using fl_pos_error [of x] by (simp add: fl_def)
  next
    case 3
    then have "\<bar>fl_pos (- x) - (- x)\<bar> \<le> (- x) / 2 ^ 53 + 1 / 2 ^ 1075"
      by (intro fl_pos_error) simp
    with 3 show ?thesis by (simp add: fl_def abs_minus_commute)
  qed (simp add: fl_def)
qed

lemma fl_nonneg: "0 \<le> x \<Longrightarrow> 0 \<le> fl x"
  unfolding fl_def fl_pos_def
  by (auto intro!: mult_nonneg_nonneg round_half_even_nonneg)

lemma fl_upper: "0 \<le> x \<Longrightarrow> fl x \<le> x + (x + 1) / 2 ^ 50"
proof -
  assume x: "0 \<le> x"
  have e: "fl x - x \<le> x / 2 ^ 53 + 1 / 2 ^ 1075"
    using fl_error [of x] x by (simp only: abs_le_iff abs_of_nonneg)
  have a: "x / 2 ^ 53 \<le> x / (2::rat) ^ 50"
    using x by (intro divide_left_mono) simp_all
  have b: "1 / 2 ^ 1075 \<le> 1 / (2::rat) ^ 50"
    by (intro divide_left_mono) simp_all
  have c: "(x + 1) / (2::rat) ^ 50 = x / 2 ^ 50 + 1 / 2 ^ 50"
    by (simp add: add_divide_distrib)
  from e a b c show ?thesis by linarith
qed

subsection \<open>An integer evaluator for \<open>fl\<close>\<close>

text \<open>
  The definition of \<open>fl\<close> above is the reference: it reads the binary64 rounding off
  the rationals.  Running it evaluates floors and ceilings of rationals, which is slow in
  the kernel; the routine below computes the same value from the numerator and
  denominator with integer division only, and is proved equal to the reference.  It is
  the code equation of \<open>fl\<close>, so \<open>code_simp\<close> evaluates concrete runs with it.
\<close>

definition rdiv_half_even :: "int \<Rightarrow> int \<Rightarrow> int" where
  "rdiv_half_even n d = (let f = n div d; r = n mod d in
     if 2 * r < d then f else if d < 2 * r then f + 1 else if even f then f else f + 1)"

definition ilog2_q :: "int \<Rightarrow> int \<Rightarrow> int" where
  "ilog2_q p q = (let k = bitlen p - bitlen q in
     if (if 0 \<le> k then q * 2 ^ nat k \<le> p else q \<le> p * 2 ^ nat (- k)) then k else k - 1)"

definition fl_pos_q :: "int \<Rightarrow> int \<Rightarrow> rat" where
  "fl_pos_q p q = (let s = max (ilog2_q p q - 52) (-1074) in
     if 0 \<le> s then of_int (rdiv_half_even p (q * 2 ^ nat s)) * 2 ^ nat s
     else of_int (rdiv_half_even (p * 2 ^ nat (- s)) q) / 2 ^ nat (- s))"

lemma rdiv_half_even_eq:
  assumes "0 < d"
  shows "rdiv_half_even n d = round_half_even (of_int n / of_int d)"
proof -
  define y :: rat where "y = of_int n / of_int d"
  have fl: "\<lfloor>y\<rfloor> = n div d" by (simp add: y_def floor_divide_of_int_eq)
  have "of_int n = of_int d * of_int (n div d) + (of_int (n mod d) :: rat)"
    by (metis div_mult_mod_eq of_int_add of_int_mult mult.commute)
  then have fr: "y - of_int (n div d) = of_int (n mod d) / of_int d"
    using assms by (simp add: y_def field_simps)
  have c1: "(2 * (n mod d) < d) = (of_int (2 * (n mod d)) < (of_int d :: rat))"
    by (simp only: of_int_less_iff)
  have c2: "(d < 2 * (n mod d)) = ((of_int d :: rat) < of_int (2 * (n mod d)))"
    by (simp only: of_int_less_iff)
  have lt: "of_int (n mod d) / of_int d < (1/2::rat) \<longleftrightarrow> 2 * (n mod d) < d"
    using assms by (simp add: divide_less_eq c1 mult.commute)
  have gt: "(1/2::rat) < of_int (n mod d) / of_int d \<longleftrightarrow> d < 2 * (n mod d)"
    using assms by (simp add: less_divide_eq c2 mult.commute)
  show ?thesis
    unfolding rdiv_half_even_def round_half_even_def Let_def fl fr lt gt y_def [symmetric] ..
qed

lemma ilog2_unique:
  assumes "0 < x" "2 powi j \<le> x" "x < 2 powi (j + 1)"
  shows "ilog2 x = j"
proof -
  have b: "2 powi ilog2 x \<le> x" "x < 2 powi (ilog2 x + 1)"
    using ilog2_bounds [OF assms(1)] by simp_all
  have "\<not> ilog2 x < j"
  proof
    assume "ilog2 x < j"
    then have "(2::rat) powi (ilog2 x + 1) \<le> 2 powi j" by (intro power_int_increasing) simp_all
    with b assms show False by simp
  qed
  moreover have "\<not> j < ilog2 x"
  proof
    assume "j < ilog2 x"
    then have "(2::rat) powi (j + 1) \<le> 2 powi ilog2 x" by (intro power_int_increasing) simp_all
    with b assms show False by simp
  qed
  ultimately show ?thesis by simp
qed

lemma of_int_pow2_powi: "0 \<le> k \<Longrightarrow> (of_int (2 ^ nat k) :: rat) = 2 powi k"
  by (simp add: power_int_def)

lemma pow2_nat_powi: "0 \<le> k \<Longrightarrow> (2::rat) ^ nat k = 2 powi k"
  by (simp add: power_int_def)

lemma bitlen_powi_bounds:
  assumes "0 < p"
  shows "(2::rat) powi (bitlen p - 1) \<le> of_int p \<and> of_int p < (2::rat) powi bitlen p"
proof -
  have b: "2 ^ nat (bitlen p - 1) \<le> p \<and> p < 2 ^ nat (bitlen p)"
    using assms by (rule bitlen_bounds)
  have bl: "1 \<le> bitlen p" using assms by (simp add: bitlen_alt_def)
  have e1: "(2::rat) powi (bitlen p - 1) = of_int (2 ^ nat (bitlen p - 1))"
    by (rule of_int_pow2_powi [symmetric]) (use bl in simp)
  have e2: "(2::rat) powi bitlen p = of_int (2 ^ nat (bitlen p))"
    by (rule of_int_pow2_powi [symmetric]) (use bl in simp)
  show ?thesis
    unfolding e1 e2 of_int_le_iff of_int_less_iff using b .
qed


lemma ilog2_q_eq:
  assumes p: "0 < p" and q: "0 < q"
  shows "ilog2 (of_int p / of_int q) = ilog2_q p q"
proof -
  define x :: rat where "x = of_int p / of_int q"
  define k where "k = bitlen p - bitlen q"
  have bp: "(2::rat) powi (bitlen p - 1) \<le> of_int p" "of_int p < (2::rat) powi bitlen p"
    using bitlen_powi_bounds [OF p] by simp_all
  have bq: "(2::rat) powi (bitlen q - 1) \<le> of_int q" "of_int q < (2::rat) powi bitlen q"
    using bitlen_powi_bounds [OF q] by simp_all
  have qpos: "0 < (of_int q :: rat)" using q by simp
  have x_pos: "0 < x" using p q by (simp add: x_def)
  have x_lt: "x < 2 powi (k + 1)"
  proof -
    have "x < 2 powi bitlen p / of_int q"
      using bp qpos by (simp add: x_def divide_strict_right_mono)
    also have "\<dots> \<le> 2 powi bitlen p / 2 powi (bitlen q - 1)"
      using bq qpos by (intro divide_left_mono mult_pos_pos) simp_all
    also have "\<dots> = 2 powi (bitlen p - (bitlen q - 1))"
      by (simp add: power_int_diff)
    also have "bitlen p - (bitlen q - 1) = k + 1" by (simp add: k_def)
    finally show ?thesis .
  qed
  have x_ge: "2 powi (k - 1) \<le> x"
  proof -
    have "(2::rat) powi (k - 1) = 2 powi (bitlen p - 1) / 2 powi bitlen q"
      by (simp add: k_def power_int_diff [symmetric] algebra_simps)
    also have "\<dots> \<le> 2 powi (bitlen p - 1) / of_int q"
      using bq qpos by (intro divide_left_mono mult_pos_pos) simp_all
    also have "\<dots> \<le> x"
      using bp qpos by (simp add: x_def divide_right_mono)
    finally show ?thesis .
  qed
  have cond: "(if 0 \<le> k then q * 2 ^ nat k \<le> p else q \<le> p * 2 ^ nat (- k)) \<longleftrightarrow> 2 powi k \<le> x"
  proof (cases "0 \<le> k")
    case True
    have "(q * 2 ^ nat k \<le> p) = (of_int (q * 2 ^ nat k) \<le> (of_int p :: rat))"
      by (simp only: of_int_le_iff)
    also have "of_int (q * 2 ^ nat k) = of_int q * (2::rat) powi k"
      using True by (simp add: pow2_nat_powi)
    also have "(of_int q * 2 powi k \<le> (of_int p :: rat)) = (2 powi k \<le> x)"
      using qpos by (simp add: x_def pos_le_divide_eq mult.commute)
    finally show ?thesis using True by simp
  next
    case False
    have "(q \<le> p * 2 ^ nat (- k)) = (of_int q \<le> (of_int (p * 2 ^ nat (- k)) :: rat))"
      by (simp only: of_int_le_iff)
    also have "of_int (p * 2 ^ nat (- k)) = of_int p * (2::rat) powi (- k)"
      using False by (simp add: pow2_nat_powi)
    also have "(of_int q \<le> of_int p * (2::rat) powi (- k)) = (2 powi k \<le> x)"
      using qpos by (simp add: x_def power_int_minus pos_le_divide_eq field_simps)
    finally show ?thesis using False by simp
  qed
  show ?thesis
  proof (cases "2 powi k \<le> x")
    case True
    then have "ilog2 x = k" using x_pos x_lt by (intro ilog2_unique)
    moreover have "ilog2_q p q = k"
      using True cond by (simp add: ilog2_q_def Let_def flip: k_def)
    ultimately show ?thesis by (simp add: x_def)
  next
    case False
    then have "ilog2 x = k - 1" using x_pos x_ge by (intro ilog2_unique) simp_all
    moreover have "ilog2_q p q = k - 1"
      using False cond by (simp add: ilog2_q_def Let_def flip: k_def)
    ultimately show ?thesis by (simp add: x_def)
  qed
qed

lemma fl_pos_q_eq:
  assumes p: "0 < p" and q: "0 < q"
  shows "fl_pos (of_int p / of_int q) = fl_pos_q p q"
proof -
  define s where "s = max (ilog2_q p q - 52) (-1074)"
  have s: "fl_exp (of_int p / of_int q) = s"
    by (simp add: fl_exp_def s_def ilog2_q_eq [OF p q])
  show ?thesis
  proof (cases "0 \<le> s")
    case True
    have d: "0 < q * 2 ^ nat s" using q by simp
    have pw: "(2::rat) powi s = 2 ^ nat s" using True by (simp add: power_int_def)
    have "of_int p / of_int q * 2 powi (- s) = (of_int p / of_int (q * 2 ^ nat s) :: rat)"
      by (simp add: power_int_minus pw field_simps)
    then show ?thesis
      using True by (simp add: fl_pos_def fl_pos_q_def s Let_def pw rdiv_half_even_eq [OF d] flip: s_def)
  next
    case False
    have pw2: "(2::rat) powi (- s) = 2 ^ nat (- s)" using False by (simp add: power_int_def)
    have "of_int p / of_int q * 2 powi (- s) = (of_int (p * 2 ^ nat (- s)) / of_int q :: rat)"
      by (simp add: pw2 field_simps)
    moreover have pw: "(2::rat) powi s = 1 / 2 ^ nat (- s)"
      using False by (simp add: power_int_def power_one_over)
    ultimately show ?thesis
      using False by (simp add: fl_pos_def fl_pos_q_def s Let_def pw pw2 rdiv_half_even_eq [OF q] flip: s_def)
  qed
qed

lemma fl_code [code]:
  "fl x = (let (p, q) = quotient_of x in
     if p = 0 then 0 else if 0 < p then fl_pos_q p q else - fl_pos_q (- p) q)"
proof -
  obtain p q where pq: "quotient_of x = (p, q)" by (cases "quotient_of x")
  have x: "x = of_int p / of_int q" by (rule quotient_of_div [OF pq])
  have q: "0 < q" by (rule quotient_of_denom_pos [OF pq])
  have "fl x = (if p = 0 then 0 else if 0 < p then fl_pos_q p q else - fl_pos_q (- p) q)"
  proof -
    consider "p = 0" | "0 < p" | "p < 0" by linarith
    then show ?thesis
    proof cases
      case 1
      then show ?thesis by (simp add: x fl_def)
    next
      case 2
      then have "0 < x" using q by (simp add: x)
      moreover have "fl_pos x = fl_pos_q p q" using fl_pos_q_eq [OF 2 q] by (simp add: x)
      ultimately show ?thesis using 2 by (simp add: fl_def)
    next
      case 3
      then have "x < 0" using q by (simp add: x divide_neg_pos)
      moreover have "fl_pos (- x) = fl_pos_q (- p) q"
        using fl_pos_q_eq [of "- p" q] 3 q by (simp add: x)
      ultimately show ?thesis using 3 by (simp add: fl_def)
    qed
  qed
  then show ?thesis by (simp add: pq)
qed


text \<open>The integer routine that evaluates the binary64 rounding computes the same
  number as the reference definition, for positive and negative quotients.\<close>

lemma fl_evaluator_correct:
  assumes "0 < p" "0 < q"
  shows "fl (of_int p / of_int q) = fl_pos_q p q \<and> fl (of_int (- p) / of_int q) = - fl_pos_q p q"
proof -
  define x :: rat where "x = of_int p / of_int q"
  have pos: "0 < x" using assms by (simp add: x_def)
  have e: "fl_pos x = fl_pos_q p q"
    unfolding x_def by (rule fl_pos_q_eq [OF assms])
  have "fl x = fl_pos_q p q"
    using pos e by (simp add: fl_def)
  moreover have "fl (- x) = - fl_pos_q p q"
    using pos e by (simp add: fl_def)
  moreover have "of_int (- p) / of_int q = - x" by (simp add: x_def)
  ultimately show ?thesis by (simp add: x_def)
qed

lemma fl_zero [simp]: "fl 0 = 0"
  by (simp add: fl_def)

lemma fl_one [simp]: "fl 1 = 1"
  by code_simp

lemma fl_half [simp]: "fl (1/2) = 1/2"
  by code_simp

lemma round_half_even_le: "y \<le> of_int N \<Longrightarrow> round_half_even y \<le> N"
proof -
  assume y: "y \<le> of_int N"
  define f where "f = \<lfloor>y\<rfloor>"
  have f: "of_int f \<le> y" "y < of_int f + 1" unfolding f_def by linarith+
  have "f \<le> N" unfolding f_def floor_le_iff using y by linarith
  show ?thesis
  proof (cases "f = N")
    case True
    then have "y - of_int f = 0" using f y by simp
    then show ?thesis using True by (simp add: round_half_even_def Let_def flip: f_def)
  next
    case False
    with \<open>f \<le> N\<close> show ?thesis by (simp add: round_half_even_def Let_def flip: f_def)
  qed
qed

lemma fl_le_one:
  assumes "x \<le> 1"
  shows "fl x \<le> 1"
proof (cases "0 < x")
  case True
  define s where "s = fl_exp x"
  have il: "ilog2 x \<le> 0"
  proof -
    have "(2::rat) powi ilog2 x \<le> 2 powi 0"
      using ilog2_bounds [OF True] assms by simp
    then show ?thesis using power_int_le_imp_le_exp [of "2::rat" "ilog2 x" 0] by simp
  qed
  then have s: "s < 0" by (simp add: s_def fl_exp_def)
  have p: "(2::rat) powi (- s) = of_int (2 ^ nat (- s))"
    using s by (simp add: power_int_def)
  have "x * 2 powi (- s) \<le> 1 * 2 powi (- s)"
    using assms by (intro mult_right_mono) simp_all
  then have "round_half_even (x * 2 powi (- s)) \<le> 2 ^ nat (- s)"
    by (intro round_half_even_le) (simp add: p)
  then have "(of_int (round_half_even (x * 2 powi (- s))) :: rat) \<le> of_int (2 ^ nat (- s))"
    by (simp only: of_int_le_iff)
  then have "of_int (round_half_even (x * 2 powi (- s))) * 2 powi s \<le> of_int (2 ^ nat (- s)) * (2::rat) powi s"
    by (intro mult_right_mono) simp_all
  also have "\<dots> = 1"
    using s by (simp add: power_int_def power_one_over flip: power_mult_distrib)
  finally show ?thesis
    using True by (simp add: fl_def fl_pos_def flip: s_def)
next
  case False
  have "0 \<le> fl_pos (- x)"
    using False unfolding fl_pos_def
    by (intro mult_nonneg_nonneg of_int_nonneg round_half_even_nonneg) (simp_all add: mult_nonpos_nonneg)
  then show ?thesis using False by (simp add: fl_def)
qed

lemma fl_unit: "0 \<le> x \<Longrightarrow> x \<le> 1 \<Longrightarrow> 0 \<le> fl x \<and> fl x \<le> 1"
  by (simp add: fl_nonneg fl_le_one)

lemma math_round_bounds:
  "0 \<le> x \<Longrightarrow> 0 \<le> math_round x"
  "x < 201/2 \<Longrightarrow> math_round x \<le> 100"
  unfolding math_round_def by linarith+


subsection \<open>Rounding is monotone\<close>

text \<open>Rounding to nearest never swaps two numbers: within one binade by the
  monotonicity of \<open>round_half_even\<close>, across binades because a binade's power of two
  is representable.\<close>

lemma round_half_even_floor: "\<lfloor>y\<rfloor> \<le> round_half_even y \<and> round_half_even y \<le> \<lfloor>y\<rfloor> + 1"
  by (simp add: round_half_even_def Let_def)

lemma round_half_even_ge: "of_int N \<le> y \<Longrightarrow> N \<le> round_half_even y"
  using round_half_even_floor[of y] le_floor_iff[of N y] by linarith

lemma round_half_even_mono:
  assumes "x \<le> y"
  shows "round_half_even x \<le> round_half_even y"
proof (cases "\<lfloor>x\<rfloor> = \<lfloor>y\<rfloor>")
  case True
  then have "x - of_int \<lfloor>x\<rfloor> \<le> y - of_int \<lfloor>y\<rfloor>" using assms by simp
  then show ?thesis using True by (auto simp: round_half_even_def Let_def)
next
  case False
  then have "\<lfloor>x\<rfloor> < \<lfloor>y\<rfloor>" using floor_mono[OF assms] by linarith
  then show ?thesis using round_half_even_floor[of x] round_half_even_floor[of y] by linarith
qed

lemma ilog2_mono:
  assumes "0 < x" "x \<le> y"
  shows "ilog2 x \<le> ilog2 y"
proof (rule ccontr)
  assume "\<not> ilog2 x \<le> ilog2 y"
  then have "(2::rat) powi (ilog2 y + 1) \<le> 2 powi ilog2 x"
    by (intro power_int_increasing) simp_all
  then show False using ilog2_bounds[OF assms(1)] ilog2_bounds[of y] assms by fastforce
qed

lemma fl_exp_mono: "0 < x \<Longrightarrow> x \<le> y \<Longrightarrow> fl_exp x \<le> fl_exp y"
  using ilog2_mono[of x y] by (simp add: fl_exp_def)

lemma fl_pos_le_pow:
  assumes "0 < x"
  shows "fl_pos x \<le> 2 powi max (ilog2 x + 1) (fl_exp x)"
proof -
  define e where "e = fl_exp x"
  define k where "k = ilog2 x + 1 - e"
  have z: "x * 2 powi (- e) < 2 powi k"
    using ilog2_bounds[OF assms] by (simp add: k_def power_int_diff power_int_minus divide_simps)
  have n: "2 powi k \<le> (of_int (2 ^ nat k) :: rat)"
    by (cases "0 \<le> k") (simp_all add: power_int_def power_one_over)
  have "round_half_even (x * 2 powi (- e)) \<le> 2 ^ nat k"
    using z n by (intro round_half_even_le) simp
  then have "(of_int (round_half_even (x * 2 powi (- e))) :: rat) \<le> of_int (2 ^ nat k)"
    by (simp only: of_int_le_iff)
  then have "fl_pos x \<le> of_int (2 ^ nat k) * 2 powi e"
    unfolding fl_pos_def e_def[symmetric] by (intro mult_right_mono) simp_all
  also have "\<dots> = 2 powi (int (nat k) + e)"
    by (simp add: power_int_add pow2_nat_powi)
  also have "int (nat k) + e = max (ilog2 x + 1) e"
    by (simp add: k_def)
  finally show ?thesis by (simp add: e_def)
qed

lemma fl_pos_ge_pow:
  assumes "0 < y" "fl_exp y = ilog2 y - 52"
  shows "2 powi ilog2 y \<le> fl_pos y"
proof -
  define e where "e = fl_exp y"
  have "(2::rat) powi 52 \<le> y * 2 powi (- e)"
    using ilog2_bounds[OF assms(1)] assms(2)
    by (simp add: e_def power_int_diff power_int_minus divide_simps)
  then have "2 ^ 52 \<le> round_half_even (y * 2 powi (- e))"
    by (intro round_half_even_ge) simp
  then have "(2::rat) ^ 52 \<le> of_int (round_half_even (y * 2 powi (- e)))"
    by (metis of_int_le_iff of_int_numeral of_int_power)
  then have "2 ^ 52 * 2 powi e \<le> fl_pos y"
    unfolding fl_pos_def e_def[symmetric] by (intro mult_right_mono) simp_all
  moreover have "(2::rat) powi (52 + e) = 2 ^ 52 * 2 powi e"
    by (simp add: power_int_add)
  moreover have "52 + e = ilog2 y"
    using assms(2) by (simp add: e_def)
  ultimately show ?thesis by simp
qed


lemma fl_pos_mono:
  assumes "0 < x" "x \<le> y"
  shows "fl_pos x \<le> fl_pos y"
proof -
  have y: "0 < y" using assms by simp
  have ee: "fl_exp x \<le> fl_exp y" by (rule fl_exp_mono[OF assms])
  show ?thesis
  proof (cases "fl_exp x = fl_exp y")
    case True
    have "x * 2 powi (- fl_exp x) \<le> y * 2 powi (- fl_exp x)"
      using assms(2) by (intro mult_right_mono) simp_all
    then have "round_half_even (x * 2 powi (- fl_exp x)) \<le> round_half_even (y * 2 powi (- fl_exp y))"
      using True by (simp add: round_half_even_mono)
    then have "(of_int (round_half_even (x * 2 powi (- fl_exp x))) :: rat) \<le>
        of_int (round_half_even (y * 2 powi (- fl_exp y)))"
      by (simp only: of_int_le_iff)
    then show ?thesis
      unfolding fl_pos_def True[symmetric] by (intro mult_right_mono) simp_all
  next
    case False
    then have lt: "fl_exp x < fl_exp y" using ee by simp
    then have ey: "fl_exp y = ilog2 y - 52" by (simp add: fl_exp_def max_def split: if_splits)
    have il: "ilog2 x + 1 \<le> ilog2 y" using lt ey by (simp add: fl_exp_def)
    have "max (ilog2 x + 1) (fl_exp x) \<le> ilog2 y" using il lt ey by simp
    then have "(2::rat) powi max (ilog2 x + 1) (fl_exp x) \<le> 2 powi ilog2 y"
      by (intro power_int_increasing) simp_all
    then show ?thesis using fl_pos_le_pow[OF assms(1)] fl_pos_ge_pow[OF y ey] by linarith
  qed
qed

lemma fl_nonpos: "x \<le> 0 \<Longrightarrow> fl x \<le> 0"
  using fl_nonneg[of "- x"] by (cases "x = 0") (simp_all add: fl_def)

lemma fl_mono:
  assumes "x \<le> y"
  shows "fl x \<le> fl y"
proof -
  consider "x \<le> 0" "0 \<le> y" | "0 < x" | "y < 0" by linarith
  then show ?thesis
  proof cases
    case 1
    then show ?thesis using fl_nonpos[of x] fl_nonneg[of y] by linarith
  next
    case 2
    then show ?thesis using fl_pos_mono[OF 2 assms] assms by (simp add: fl_def)
  next
    case 3
    then have "fl_pos (- y) \<le> fl_pos (- x)" using assms by (intro fl_pos_mono) simp_all
    then show ?thesis using 3 assms by (simp add: fl_def)
  qed
qed

lemma js_add_mono: "a \<le> a' \<Longrightarrow> b \<le> b' \<Longrightarrow> js_add a b \<le> js_add a' b'"
  unfolding js_add_def by (intro fl_mono add_mono)

lemma js_mul_mono: "a \<le> a' \<Longrightarrow> 0 \<le> w \<Longrightarrow> js_mul a w \<le> js_mul a' w"
  unfolding js_mul_def by (intro fl_mono mult_right_mono)

lemma math_round_mono: "x \<le> y \<Longrightarrow> math_round x \<le> math_round y"
  unfolding math_round_def by (intro floor_mono) simp

end
