(* ===== verification/Scoring.thy ===== *)
theory Scoring
  imports Js_Number
begin

text \<open>
  The scoring engine and the classifier of src/src/App.jsx (lines 8--30): the weight
  table \<open>WEIGHTS\<close>, \<open>calculateFinalScore\<close> and \<open>getCategoryFromScore\<close>, with the
  arithmetic of JavaScript numbers (theory Js_Number).  A KPI set is the JavaScript
  object \<open>kpis\<close>, a map from KPI keys to numbers.
\<close>

type_synonym kpis = "string \<rightharpoonup> rat"

definition WEIGHTS :: "(string \<times> rat) list" where
  "WEIGHTS =
    [(''story_like_rate'', fl (15/100)),
     (''conversation_initiation_ratio'', fl (20/100)),
     (''reply_speed_score'', fl (15/100)),
     (''date_count_score'', fl (20/100)),
     (''gift_score'', fl (10/100)),
     (''emotional_interest_score'', fl (15/100)),
     (''future_plans_score'', fl (5/100))]"

text \<open>One iteration of the \<open>forEach\<close>: \<open>total += (kpis[key] || 0) * WEIGHTS[key]\<close>.\<close>

definition score_step :: "kpis \<Rightarrow> rat \<Rightarrow> string \<times> rat \<Rightarrow> rat" where
  "score_step kpis tot kw = (case kw of (key, w) \<Rightarrow> js_add tot (js_mul (or_zero (kpis key)) w))"

definition weighted_total :: "kpis \<Rightarrow> rat" where
  "weighted_total kpis = foldl (score_step kpis) 0 WEIGHTS"

definition calculateFinalScore :: "kpis \<Rightarrow> int" where
  "calculateFinalScore kpis = math_round (js_mul (weighted_total kpis) 100)"

text \<open>The three category strings \<open>'low'\<close>, \<open>'mixed'\<close>, \<open>'high'\<close> that
  \<open>getCategoryFromScore\<close> returns; \<open>category_name\<close> gives the string.\<close>

datatype category = Low | Mixed | High

fun category_name :: "category \<Rightarrow> string" where
  "category_name Low = ''low''"
| "category_name Mixed = ''mixed''"
| "category_name High = ''high''"

definition getCategoryFromScore :: "int \<Rightarrow> category" where
  "getCategoryFromScore score = (if score < 30 then Low else if score < 65 then Mixed else High)"

declare WEIGHTS_def [model_eval] score_step_def [model_eval] weighted_total_def [model_eval]
  calculateFinalScore_def [model_eval] getCategoryFromScore_def [model_eval]

text \<open>The categories are ordered \<open>low < mixed < high\<close>, as the spec's
  ``three ordered buckets''.\<close>

fun category_rank :: "category \<Rightarrow> nat" where
  "category_rank Low = 0"
| "category_rank Mixed = 1"
| "category_rank High = 2"

instantiation category :: linorder
begin

definition less_eq_category :: "category \<Rightarrow> category \<Rightarrow> bool" where
  "less_eq_category a b \<longleftrightarrow> category_rank a \<le> category_rank b"

definition less_category :: "category \<Rightarrow> category \<Rightarrow> bool" where
  "less_category a b \<longleftrightarrow> category_rank a < category_rank b"

lemma category_rank_inj: "category_rank a = category_rank b \<Longrightarrow> a = b"
  by (cases a; cases b) simp_all

instance
  by standard (auto simp: less_eq_category_def less_category_def intro: category_rank_inj)

end

text \<open>A KPI set whose values for the weighted keys lie in \<open>[0, 1]\<close>, as every
  answer of the question catalog does.\<close>

definition kpis_in_unit :: "kpis \<Rightarrow> bool" where
  "kpis_in_unit kpis = list_all (\<lambda>(k, w). 0 \<le> or_zero (kpis k) \<and> or_zero (kpis k) \<le> 1) WEIGHTS"

text \<open>The KPI object with the given values under the weighted keys, in table order.\<close>

definition kpis_of :: "rat list \<Rightarrow> kpis" where
  "kpis_of vs = map_of (zip (map fst WEIGHTS) vs)"

declare kpis_in_unit_def [model_eval] kpis_of_def [model_eval]

subsection \<open>The specification the engine is meant to implement\<close>

text \<open>The spec's scoring contract with exact decimal weights and exact arithmetic,
  rounding half up (spec section 4.1).\<close>

definition spec_weights :: "(string \<times> rat) list" where
  "spec_weights =
    [(''story_like_rate'', 15/100), (''conversation_initiation_ratio'', 20/100),
     (''reply_speed_score'', 15/100), (''date_count_score'', 20/100), (''gift_score'', 10/100),
     (''emotional_interest_score'', 15/100), (''future_plans_score'', 5/100)]"

definition spec_score :: "kpis \<Rightarrow> int" where
  "spec_score kpis = \<lfloor>100 * (\<Sum>(k, w)\<leftarrow>spec_weights. or_zero (kpis k) * w) + 1/2\<rfloor>"

declare spec_weights_def [model_eval] spec_score_def [model_eval]

lemma WEIGHTS_spec: "WEIGHTS = map (\<lambda>(k, w). (k, fl w)) spec_weights"
  by (simp add: WEIGHTS_def spec_weights_def)

lemma spec_weights_sum: "(\<Sum>(k, w)\<leftarrow>spec_weights. w) = 1"
  by (simp add: spec_weights_def)


subsection \<open>Classification\<close>

text \<open>C2: getCategoryFromScore sends a score below 30 to low, a score in [30, 65) to mixed and a score of 65 or more to high: the three half-open ranges partition the integers, with no gap or overlap at 30 and 65.\<close>

lemma getCategoryFromScore_partition:
  "(getCategoryFromScore s = Low \<longleftrightarrow> s < 30) \<and>
   (getCategoryFromScore s = Mixed \<longleftrightarrow> 30 \<le> s \<and> s < 65) \<and>
   (getCategoryFromScore s = High \<longleftrightarrow> 65 \<le> s)"
  by (simp add: getCategoryFromScore_def)

text \<open>C17: The classification is monotone: a higher score never gets a lower category (low < mixed < high).\<close>

lemma getCategoryFromScore_mono:
  "s \<le> t \<Longrightarrow> getCategoryFromScore s \<le> getCategoryFromScore t"
  by (simp add: getCategoryFromScore_def less_eq_category_def)

theorem getCategoryFromScore_mono_witness:
  "(64::int) \<le> 65 \<and> getCategoryFromScore 64 \<le> getCategoryFromScore 65"
  using getCategoryFromScore_mono [of 64 65] by simp

subsection \<open>Only the weighted keys count, and a missing key counts as 0\<close>

lemma foldl_score_step_cong:
  "\<forall>(k, w) \<in> set ws. or_zero (kpis k) = or_zero (kpis' k) \<Longrightarrow>
   foldl (score_step kpis) t ws = foldl (score_step kpis') t ws"
  by (induction ws arbitrary: t) (auto simp: score_step_def)

lemma calculateFinalScore_cong:
  "\<forall>k \<in> set (map fst WEIGHTS). or_zero (kpis k) = or_zero (kpis' k) \<Longrightarrow>
   calculateFinalScore kpis = calculateFinalScore kpis'"
  unfolding calculateFinalScore_def weighted_total_def
  by (subst foldl_score_step_cong [where kpis' = kpis']) auto

lemma foldl_score_step_mono:
  "\<forall>(k, w) \<in> set ws. 0 \<le> w \<and> or_zero (a k) \<le> or_zero (b k) \<Longrightarrow> t \<le> t' \<Longrightarrow>
     foldl (score_step a) t ws \<le> foldl (score_step b) t' ws"
proof (induction ws arbitrary: t t')
  case Nil
  then show ?case by simp
next
  case (Cons x ws)
  obtain k w where x: "x = (k, w)" by (cases x)
  have "score_step a t x \<le> score_step b t' x"
    using Cons.prems x by (auto simp: score_step_def intro!: js_add_mono js_mul_mono)
  then show ?case using Cons by simp
qed

text \<open>C16: calculateFinalScore reads only the seven keys of WEIGHTS: keys of the KPI object outside the weight table do not change the score.\<close>

lemma calculateFinalScore_ignores_other_keys:
  "calculateFinalScore (kpis |` set (map fst WEIGHTS)) = calculateFinalScore kpis"
  by (rule calculateFinalScore_cong) (simp add: restrict_map_def)

text \<open>C15: A KPI key that is absent from the object counts as 0: filling every missing weighted key with 0 does not change the score.\<close>

lemma calculateFinalScore_missing_is_zero:
  "calculateFinalScore (map_of (map (\<lambda>(k, w). (k, 0)) WEIGHTS) ++ kpis) = calculateFinalScore kpis"
proof (rule calculateFinalScore_cong, intro ballI)
  fix k assume "k \<in> set (map fst WEIGHTS)"
  then show "or_zero ((map_of (map (\<lambda>(k, w). (k, 0)) WEIGHTS) ++ kpis) k) = or_zero (kpis k)"
    by (cases "kpis k") (auto simp: map_add_def map_of_map_restrict WEIGHTS_def)
qed

subsection \<open>The score lies in [0, 100]\<close>

text \<open>On the magnitudes of the program (below 1000) one rounding step adds at most
  \<open>2^-40\<close> (lemma \<open>fl_error\<close>).\<close>

lemma fl_le_eps: "0 \<le> x \<Longrightarrow> x \<le> 1000 \<Longrightarrow> fl x \<le> x + 1 / 2 ^ 40"
proof -
  assume x: "0 \<le> x" "x \<le> 1000"
  have e: "fl x - x \<le> x / 2 ^ 53 + 1 / 2 ^ 1075"
    using fl_error [of x] x by (simp only: abs_le_iff abs_of_nonneg)
  have "x / 2 ^ 53 \<le> (1000::rat) / 2 ^ 53"
    using x by (intro divide_right_mono) simp_all
  with e show ?thesis by simp
qed

lemma js_mul_unit_bounds:
  assumes "0 \<le> v" "v \<le> 1" "0 \<le> w" "w \<le> 1000"
  shows "0 \<le> js_mul v w \<and> js_mul v w \<le> w + 1 / 2 ^ 40"
proof -
  have vw: "0 \<le> v * w" "v * w \<le> w"
    using assms by (simp_all add: mult_left_le_one_le)
  then have "fl (v * w) \<le> v * w + 1 / 2 ^ 40"
    using assms(4) by (intro fl_le_eps) simp_all
  with vw show ?thesis by (simp add: js_mul_def fl_nonneg)
qed

lemma score_step_bounds:
  assumes "0 \<le> t" "t \<le> T" "0 \<le> w" "0 \<le> or_zero (kpis k)" "or_zero (kpis k) \<le> 1"
    and "T + w + 1 \<le> 1000"
  shows "0 \<le> score_step kpis t (k, w) \<and> score_step kpis t (k, w) \<le> T + w + 2 / 2 ^ 40"
proof -
  define m where "m = js_mul (or_zero (kpis k)) w"
  have m: "0 \<le> m" "m \<le> w + 1 / 2 ^ 40"
    using js_mul_unit_bounds [OF assms(4,5,3)] assms(1,2,6) by (simp_all add: m_def)
  have "fl (t + m) \<le> t + m + 1 / 2 ^ 40"
    using assms(1,2,6) m by (intro fl_le_eps) simp_all
  then have "fl (t + m) \<le> T + w + 2 / 2 ^ 40"
    using assms(2) m by simp
  then show ?thesis
    using assms(1) m by (simp add: score_step_def js_add_def fl_nonneg flip: m_def)
qed

lemma foldl_score_step_bounds:
  "list_all (\<lambda>(k, w). 0 \<le> w \<and> 0 \<le> or_zero (kpis k) \<and> or_zero (kpis k) \<le> 1) ws \<Longrightarrow>
   0 \<le> t \<Longrightarrow> t \<le> T \<Longrightarrow> T + sum_list (map snd ws) + of_nat (length ws) \<le> 999 \<Longrightarrow>
   0 \<le> foldl (score_step kpis) t ws \<and>
   foldl (score_step kpis) t ws \<le> T + sum_list (map snd ws) + 2 * of_nat (length ws) / 2 ^ 40"
proof (induction ws arbitrary: t T)
  case Nil
  then show ?case by simp
next
  case (Cons kw ws)
  obtain k w where kw: "kw = (k, w)" by (cases kw)
  define t' where "t' = score_step kpis t (k, w)"
  have ws: "0 \<le> sum_list (map snd ws)"
    using Cons.prems(1) by (induction ws) (auto simp: list_all_iff)
  have "0 \<le> t' \<and> t' \<le> T + w + 2 / 2 ^ 40"
    using Cons.prems kw ws unfolding t'_def by (intro score_step_bounds) simp_all
  then have t': "0 \<le> t'" "t' \<le> T + w + 2 / 2 ^ 40" by simp_all
  have "0 \<le> foldl (score_step kpis) t' ws \<and>
      foldl (score_step kpis) t' ws \<le> (T + w + 2 / 2 ^ 40) + sum_list (map snd ws) + 2 * of_nat (length ws) / 2 ^ 40"
    using Cons.prems kw t' by (intro Cons.IH) simp_all
  then show ?case
    by (simp add: kw add_divide_distrib algebra_simps flip: t'_def)
qed

definition weight_sum :: rat where
  "weight_sum = sum_list (map snd WEIGHTS)"

lemma weight_sum_small: "100 * (weight_sum + 14 / 2 ^ 40) + 1 / 2 ^ 40 < 201/2"
  by code_simp

lemma weight_sum_le: "weight_sum \<le> 2"
  by code_simp

lemma WEIGHTS_nonneg: "list_all (\<lambda>(k, w). 0 \<le> w) WEIGHTS"
  by (simp add: WEIGHTS_spec spec_weights_def fl_nonneg)

lemma weighted_total_bounds:
  "kpis_in_unit kpis \<Longrightarrow> 0 \<le> weighted_total kpis \<and> weighted_total kpis \<le> weight_sum + 14 / 2 ^ 40"
  unfolding weighted_total_def weight_sum_def
  using foldl_score_step_bounds [of kpis WEIGHTS 0 0] WEIGHTS_nonneg weight_sum_le
  by (simp add: kpis_in_unit_def list_all_iff split_beta weight_sum_def WEIGHTS_def)

text \<open>C1: For every KPI object whose weighted values lie in [0, 1], calculateFinalScore, computed with the rounding of JavaScript numbers, returns an integer in [0, 100].\<close>

theorem calculateFinalScore_bounds:
  assumes "kpis_in_unit kpis"
  shows "0 \<le> calculateFinalScore kpis \<and> calculateFinalScore kpis \<le> 100"
proof -
  define t where "t = weighted_total kpis"
  have t: "0 \<le> t" "t \<le> weight_sum + 14 / 2 ^ 40"
    using weighted_total_bounds [OF assms] by (simp_all add: t_def)
  have "t * 100 \<le> 1000" using t weight_sum_le by simp
  then have "fl (t * 100) \<le> t * 100 + 1 / 2 ^ 40" using t by (intro fl_le_eps) simp_all
  also have "\<dots> < 201/2" using t weight_sum_small by simp
  finally have "fl (t * 100) < 201/2" .
  moreover have "0 \<le> fl (t * 100)" using t by (intro fl_nonneg) simp
  ultimately show ?thesis
    by (simp add: calculateFinalScore_def js_mul_def math_round_bounds flip: t_def)
qed

theorem calculateFinalScore_bounds_witness:
  "kpis_in_unit (kpis_of [1, fl (5/10), 0, 1, 0, 1, 1]) \<and>
   0 \<le> calculateFinalScore (kpis_of [1, fl (5/10), 0, 1, 0, 1, 1]) \<and>
   calculateFinalScore (kpis_of [1, fl (5/10), 0, 1, 0, 1, 1]) \<le> 100"
proof -
  have h: "kpis_in_unit (kpis_of [1, fl (5/10), 0, 1, 0, 1, 1])" by code_simp
  show ?thesis using h calculateFinalScore_bounds [OF h] by simp
qed

subsection \<open>Test vectors of the spec, run on the binary64 model\<close>

text \<open>The spec's extreme vectors: all seven KPIs at 0 give the score 0; all seven at 1 give 100.\<close>

lemma calculateFinalScore_extremes:
  "calculateFinalScore (kpis_of (replicate 7 0)) = 0 \<and> calculateFinalScore (kpis_of (replicate 7 1)) = 100"
  by code_simp
text \<open>The spec's worked example: the exact weighted sum is 0.77 (not 0.7655 as the spec writes), and the code scores it 77, category high.\<close>

lemma calculateFinalScore_spec_example:
  "(\<Sum>(k, w)\<leftarrow>spec_weights. or_zero (kpis_of [7/10, 8/10, 1, 7/10, 8/10, 7/10, 6/10] k) * w) = 77/100 \<and>
   calculateFinalScore (kpis_of [fl (7/10), fl (8/10), 1, fl (7/10), fl (8/10), fl (7/10), fl (6/10)]) = 77 \<and>
   getCategoryFromScore 77 = High"
  by code_simp
text \<open>C14: The score is monotone in the answers: raising the value of any weighted KPI
  never lowers the score nor the category, although every product and every partial sum
  is rounded to binary64.\<close>

theorem calculateFinalScore_mono:
  assumes "\<forall>(k, w) \<in> set WEIGHTS. or_zero (a k) \<le> or_zero (b k)"
  shows "calculateFinalScore a \<le> calculateFinalScore b \<and>
    getCategoryFromScore (calculateFinalScore a) \<le> getCategoryFromScore (calculateFinalScore b)"
proof -
  have "\<forall>(k, w) \<in> set WEIGHTS. 0 \<le> w \<and> or_zero (a k) \<le> or_zero (b k)"
    using assms WEIGHTS_nonneg by (auto simp: list_all_iff)
  then have "weighted_total a \<le> weighted_total b"
    unfolding weighted_total_def by (rule foldl_score_step_mono) simp
  then have s: "calculateFinalScore a \<le> calculateFinalScore b"
    unfolding calculateFinalScore_def by (intro math_round_mono js_mul_mono) simp_all
  then show ?thesis
    by (simp add: getCategoryFromScore_def less_eq_category_def)
qed

theorem calculateFinalScore_mono_witness:
  "calculateFinalScore [''reply_speed_score'' \<mapsto> 1] \<le> calculateFinalScore [''reply_speed_score'' \<mapsto> 1, ''gift_score'' \<mapsto> 1] \<and>
   getCategoryFromScore (calculateFinalScore [''reply_speed_score'' \<mapsto> 1]) \<le>
   getCategoryFromScore (calculateFinalScore [''reply_speed_score'' \<mapsto> 1, ''gift_score'' \<mapsto> 1])"
  by (rule calculateFinalScore_mono) (simp add: WEIGHTS_def)

text \<open>Two reachable answer sets whose exact weighted score is a tie (29.5 and 64.5) and
  which the binary64 arithmetic of the code rounds down, to 29 (low) and 64 (mixed), where
  the spec's exact round-half-up gives 30 (mixed) and 65 (high).  Most ties round up as the
  spec expects; these two are among the few where the rounding changes the category.\<close>

lemma calculateFinalScore_tie_crosses_category:
  "calculateFinalScore (kpis_of [0, fl (1/10), 0, fl (7/10), 0, fl (7/10), fl (6/10)]) = 29 \<and>
   spec_score (kpis_of [0, 1/10, 0, 7/10, 0, 7/10, 6/10]) = 30 \<and>
   calculateFinalScore (kpis_of [0, 1, fl (7/10), fl (7/10), fl (8/10), fl (7/10), fl (3/10)]) = 64 \<and>
   spec_score (kpis_of [0, 1, 7/10, 7/10, 8/10, 7/10, 3/10]) = 65 \<and>
   getCategoryFromScore 29 = Low \<and> getCategoryFromScore 30 = Mixed \<and>
   getCategoryFromScore 64 = Mixed \<and> getCategoryFromScore 65 = High"
  by code_simp

end
