(* ===== verification/Catalog.thy ===== *)
theory Catalog
  imports Scoring
begin

text \<open>
  The question catalog \<open>QUESTIONS\<close> of src/src/App.jsx (lines 36--120): seven questions in
  presentation order, each with its id, the KPI key its answer is stored under, and its
  input: four options with fixed values, or a range slider.  The question texts and the
  option and slider labels are display strings and are not modelled; the values are.
  An option value is a JavaScript number literal, \<open>fl\<close> of its decimal.  A slider keeps
  its \<open>min\<close>, \<open>max\<close> and \<open>step\<close> as the decimals React writes into the range input's
  attributes; the browser offers the positions \<open>min + k * step\<close> up to \<open>max\<close>, and the
  \<open>onChange\<close> handler reads a position back with \<open>parseFloat\<close>, which gives the double
  nearest to it.
\<close>

datatype question_input =
    Options "rat list"
  | Slider rat rat rat

record question =
  question_id :: string
  kpi :: string
  input :: question_input

definition QUESTIONS :: "question list" where
  "QUESTIONS =
    [\<lparr>question_id = ''story_like'', kpi = ''story_like_rate'',
      input = Options [0, fl (3/10), fl (7/10), 1]\<rparr>,
     \<lparr>question_id = ''conversation_init'', kpi = ''conversation_initiation_ratio'',
      input = Slider 0 1 (1/10)\<rparr>,
     \<lparr>question_id = ''reply_speed'', kpi = ''reply_speed_score'',
      input = Options [0, fl (4/10), fl (7/10), 1]\<rparr>,
     \<lparr>question_id = ''dates'', kpi = ''date_count_score'',
      input = Options [0, fl (3/10), fl (7/10), 1]\<rparr>,
     \<lparr>question_id = ''gifts'', kpi = ''gift_score'',
      input = Options [0, fl (4/10), fl (8/10), 1]\<rparr>,
     \<lparr>question_id = ''emotional'', kpi = ''emotional_interest_score'',
      input = Options [0, fl (3/10), fl (7/10), 1]\<rparr>,
     \<lparr>question_id = ''future_plans'', kpi = ''future_plans_score'',
      input = Options [0, fl (3/10), fl (6/10), 1]\<rparr>]"

text \<open>The values a range input with attributes \<open>lo\<close>, \<open>hi\<close>, \<open>st\<close> reports to
  \<open>parseFloat(e.target.value)\<close>.\<close>

definition range_values :: "rat \<Rightarrow> rat \<Rightarrow> rat \<Rightarrow> rat list" where
  "range_values lo hi st = map (\<lambda>k. fl (lo + of_nat k * st)) [0..<Suc (nat \<lfloor>(hi - lo) / st\<rfloor>)]"

text \<open>The answers a question accepts: the value of one of its options, or a value the
  slider can hold (the default \<open>0.5\<close> of \<open>sliderValue\<close> or a position it reports).\<close>

fun answer_values :: "question_input \<Rightarrow> rat list" where
  "answer_values (Options vs) = vs"
| "answer_values (Slider lo hi st) = fl (5/10) # range_values lo hi st"

definition in_unit :: "rat \<Rightarrow> bool" where
  "in_unit v \<longleftrightarrow> 0 \<le> v \<and> v \<le> 1"

declare QUESTIONS_def [model_eval] range_values_def [model_eval] in_unit_def [model_eval]

lemma range_values_in_unit:
  assumes "0 \<le> lo" "lo \<le> hi" "hi \<le> 1" "0 < st"
  shows "list_all in_unit (range_values lo hi st)"
  unfolding range_values_def list_all_iff in_unit_def
proof
  fix v assume "v \<in> set (map (\<lambda>k. fl (lo + of_nat k * st)) [0..<Suc (nat \<lfloor>(hi - lo) / st\<rfloor>)])"
  then obtain k where k0: "k \<in> set [0..<Suc (nat \<lfloor>(hi - lo) / st\<rfloor>)]"
    and v: "v = fl (lo + of_nat k * st)"
    by (auto simp del: upt_Suc)
  from k0 have k: "k \<le> nat \<lfloor>(hi - lo) / st\<rfloor>" by (simp add: less_Suc_eq_le del: upt_Suc)
  have z: "0 \<le> (hi - lo) / st" using assms by simp
  then have "int k \<le> \<lfloor>(hi - lo) / st\<rfloor>" using k by (simp add: le_nat_iff)
  then have "of_nat k \<le> (hi - lo) / st" by (simp add: le_floor_iff)
  then have "of_nat k * st \<le> hi - lo" using assms(4) by (simp add: le_divide_eq)
  then show "0 \<le> v \<and> v \<le> 1"
    unfolding v using assms by (intro fl_unit) simp_all
qed

lemma QUESTIONS_length: "length QUESTIONS = 7"
  by (simp add: QUESTIONS_def)

lemma QUESTIONS_kpis: "map kpi QUESTIONS = map fst WEIGHTS"
  by (simp add: QUESTIONS_def WEIGHTS_def)

lemma WEIGHTS_keys: "map fst WEIGHTS = [''story_like_rate'', ''conversation_initiation_ratio'',
  ''reply_speed_score'', ''date_count_score'', ''gift_score'', ''emotional_interest_score'', ''future_plans_score'']"
  by (simp add: WEIGHTS_def)

lemma length_WEIGHTS: "length WEIGHTS = 7"
  by (simp add: WEIGHTS_def)

lemma QUESTIONS_length_WEIGHTS: "length QUESTIONS = length WEIGHTS"
  by (metis QUESTIONS_kpis length_map)

lemma length_QUESTIONS: "length QUESTIONS = 7"
  by (simp add: QUESTIONS_def)

lemma kpi_QUESTIONS: "i < length QUESTIONS \<Longrightarrow> kpi (QUESTIONS ! i) = map fst WEIGHTS ! i"
  by (metis QUESTIONS_kpis length_map nth_map)

text \<open>The KPI object a full questionnaire builds, key by key in question order.\<close>

lemma kpis_of_7:
  "kpis_of [a0, a1, a2, a3, a4, a5, a6] =
     Map.empty(''story_like_rate'' \<mapsto> a0, ''conversation_initiation_ratio'' \<mapsto> a1,
       ''reply_speed_score'' \<mapsto> a2, ''date_count_score'' \<mapsto> a3, ''gift_score'' \<mapsto> a4,
       ''emotional_interest_score'' \<mapsto> a5, ''future_plans_score'' \<mapsto> a6)"
  by (simp add: kpis_of_def WEIGHTS_keys fun_upd_twist)

lemma in_unit_half [simp]: "in_unit (1/2)"
  by (simp add: in_unit_def)

text \<open>The catalog is well formed: seven questions with distinct ids, whose KPI keys
  are exactly the keys of the weight table, in the same order.\<close>

lemma QUESTIONS_wf:
  "length QUESTIONS = 7 \<and> distinct (map question_id QUESTIONS) \<and> map kpi QUESTIONS = map fst WEIGHTS"
  by (simp add: QUESTIONS_def WEIGHTS_def)

lemma QUESTIONS_answers_in_unit:
  "list_all (\<lambda>q. list_all in_unit (answer_values (input q))) QUESTIONS"
  by (simp add: QUESTIONS_def range_values_in_unit) (simp add: in_unit_def fl_unit)

lemma answer_in_unit:
  "i < length QUESTIONS \<Longrightarrow> v \<in> set (answer_values (input (QUESTIONS ! i))) \<Longrightarrow> in_unit v"
  using QUESTIONS_answers_in_unit by (auto simp: list_all_iff)

end
