(* ===== verification/Explanation.thy ===== *)
theory Explanation
  imports Scoring "HOL-Library.Sublist"
begin

text \<open>
  The explanation requester \<open>generateAIExplanation\<close> of src/src/App.jsx (lines 126--174).
  It builds a prompt from the score, the category and the KPIs, sends one request to the
  text-generation service, and returns the text segments of the response joined by
  newlines and trimmed; on any exception it returns the canned text of the category.
  Strings are sequences of Unicode code points (\<open>ustring\<close>); the prompt and the canned
  texts are the source's literals, character for character.
  The service is an external collaborator: its answer is a value of \<open>fetch_outcome\<close>
  (a rejected \<open>fetch\<close>, or a response whose body is parsed JSON or is not JSON).
  JSON values are the datatype \<open>json\<close>; JSON numbers are kept as integers (the service
  sends none where the code reads text).
\<close>

subsection \<open>JavaScript string operations\<close>

text \<open>\<open>String.prototype.trim\<close> removes the WhiteSpace and LineTerminator code points
  of ECMA-262 (sections 12.2, 12.3) at both ends.\<close>

definition js_whitespace :: "nat list" where
  "js_whitespace = [9, 11, 12, 32, 160, 65279, 5760, 8192, 8193, 8194, 8195, 8196, 8197,
     8198, 8199, 8200, 8201, 8202, 8239, 8287, 12288, 10, 13, 8232, 8233]"

definition js_trim :: "ustring \<Rightarrow> ustring" where
  "js_trim s = rev (dropWhile (\<lambda>c. c \<in> set js_whitespace) (rev (dropWhile (\<lambda>c. c \<in> set js_whitespace) s)))"

text \<open>\<open>Array.prototype.join(sep)\<close> on strings.\<close>

fun js_join :: "ustring \<Rightarrow> ustring list \<Rightarrow> ustring" where
  "js_join sep [] = []"
| "js_join sep [x] = x"
| "js_join sep (x # y # xs) = x @ sep @ js_join sep (y # xs)"

text \<open>Decimal digits of a natural number, the way \<open>Number.prototype.toString\<close> prints an
  integer below \<open>10^21\<close>.\<close>

fun nat_to_dec :: "nat \<Rightarrow> ustring" where
  "nat_to_dec n = (if n < 10 then [48 + n] else nat_to_dec (n div 10) @ [48 + n mod 10])"

declare nat_to_dec.simps [simp del]

definition js_int_to_string :: "int \<Rightarrow> ustring" where
  "js_int_to_string n = (if n < 0 then U ''-'' @ nat_to_dec (nat (- n)) else nat_to_dec (nat n))"

text \<open>\<open>x.toFixed(0)\<close> (ECMA-262, 21.1.3.3): the integer nearest to \<open>x\<close>, the larger one
  on a tie, after taking the sign off; below \<open>10^21\<close>.\<close>

definition to_fixed0 :: "rat \<Rightarrow> ustring" where
  "to_fixed0 x = (if x < 0 then U ''-'' @ nat_to_dec (nat \<lfloor>- x + 1/2\<rfloor>) else nat_to_dec (nat \<lfloor>x + 1/2\<rfloor>))"

text \<open>\<open>(kpis.k * 100).toFixed(0)\<close>: a missing KPI is \<open>undefined\<close>, \<open>undefined * 100\<close>
  is \<open>NaN\<close>, and \<open>NaN.toFixed(0)\<close> is the string \<open>"NaN"\<close>.\<close>

definition kpi_percent :: "rat option \<Rightarrow> ustring" where
  "kpi_percent v = (case v of None \<Rightarrow> U ''NaN'' | Some x \<Rightarrow> to_fixed0 (js_mul x 100))"

subsection \<open>JSON values and property access\<close>

datatype json =
    JNull
  | JBool bool
  | JNum int
  | JStr ustring
  | JArr "json list"
  | JObj "(ustring \<times> json) list"

text \<open>A value read out of parsed JSON: \<open>undefined\<close> for a missing property.\<close>

datatype jsval = Undefined | Val json

datatype js_error = TypeError

lemma js_error_single [simp]: "(e :: js_error) = TypeError"
  by (cases e) simp

text \<open>\<open>v.k\<close> for the keys the code reads (\<open>content\<close>, \<open>type\<close>, \<open>text\<close>): a
  \<open>TypeError\<close> on \<open>null\<close>; on an object the last binding of the key (as \<open>JSON.parse\<close>
  keeps it) or \<open>undefined\<close>; \<open>undefined\<close> on booleans, numbers, strings and arrays,
  which have no such property.\<close>

fun get_prop :: "json \<Rightarrow> ustring \<Rightarrow> js_error + jsval" where
  "get_prop JNull k = Inl TypeError"
| "get_prop (JObj kvs) k = Inr (case map_of (rev kvs) k of None \<Rightarrow> Undefined | Some v \<Rightarrow> Val v)"
| "get_prop v k = Inr Undefined"

text \<open>\<open>ToString\<close> of a JSON value, and the element conversion of \<open>join\<close>: \<open>null\<close> and
  \<open>undefined\<close> become the empty string, an array prints as its elements joined by commas,
  an object as \<open>"[object Object]"\<close>.\<close>

fun json_to_string :: "json \<Rightarrow> ustring"
  and join_json :: "json list \<Rightarrow> ustring" where
  "json_to_string JNull = U ''null''"
| "json_to_string (JBool b) = (if b then U ''true'' else U ''false'')"
| "json_to_string (JNum n) = js_int_to_string n"
| "json_to_string (JStr s) = s"
| "json_to_string (JArr xs) = join_json xs"
| "json_to_string (JObj kvs) = U ''[object Object]''"
| "join_json [] = []"
| "join_json [x] = (if x = JNull then [] else json_to_string x)"
| "join_json (x # y # xs) = (if x = JNull then [] else json_to_string x) @ U '','' @ join_json (y # xs)"

fun join_elem :: "jsval \<Rightarrow> ustring" where
  "join_elem Undefined = []"
| "join_elem (Val JNull) = []"
| "join_elem (Val v) = json_to_string v"

subsection \<open>The request\<close>

record ai_request =
  endpoint :: ustring
  model :: ustring
  max_tokens :: nat
  messages :: "(ustring \<times> ustring) list"

definition build_prompt :: "int \<Rightarrow> category \<Rightarrow> kpis \<Rightarrow> ustring" where
  "build_prompt score category kpis =
     U ''Tu e'' @ [537] @ U ''ti CrushBot, un AI amuzant '' @ [537] @
     U ''i empatic care analizeaz'' @ [259] @
     U '' semnale de interes romantic.'' @ [10, 10] @ U ''Scor final: '' @
     js_int_to_string score @
     U ''%'' @ [10] @ U ''Categorie: '' @
     U (category_name category) @
     [10] @ U ''Detalii KPI:'' @ [10] @ U ''- Story likes: '' @
     kpi_percent (kpis ''story_like_rate'') @
     U ''%'' @ [10] @ U ''- Ini'' @ [539] @ U ''iaz'' @ [259] @
     U '' conversa'' @ [539] @ U ''ii: '' @
     kpi_percent (kpis ''conversation_initiation_ratio'') @
     U ''%'' @ [10] @ U ''- Vitez'' @ [259] @ U '' r'' @ [259] @
     U ''spuns: '' @
     kpi_percent (kpis ''reply_speed_score'') @
     U ''%'' @ [10] @ U ''- Date count: '' @
     kpi_percent (kpis ''date_count_score'') @
     U ''%'' @ [10] @ U ''- Cadouri: '' @
     kpi_percent (kpis ''gift_score'') @
     U ''%'' @ [10] @ U ''- Interes emo'' @ [539] @ U ''ional: '' @
     kpi_percent (kpis ''emotional_interest_score'') @
     U ''%'' @ [10] @ U ''- Planuri viitoare: '' @
     kpi_percent (kpis ''future_plans_score'') @
     U ''%'' @ [10, 10] @ U ''Scrie un r'' @ [259] @
     U ''spuns scurt (max 120 cuvinte) '' @ [238] @ U ''n rom'' @ [226] @
     U ''n'' @ [259] @ U '' pentru utilizator:'' @ [10] @ U ''1. '' @
     [206] @ U ''ncepe cu un hook emo'' @ [539] @
     U ''ional (emoji fun)'' @ [10] @ U ''2. Explic'' @ [259] @
     U '' ce arat'' @ [259] @ U '' semnalele (2-3 puncte cheie)'' @ [10] @
     U ''3. D'' @ [259] @ U '' un sfat practic sau '' @ [238] @
     U ''ncurajare'' @ [10] @ U ''4. Termin'' @ [259] @ U '' playful '' @
     [537] @ U ''i optimist'' @ [10, 10] @
     U ''Ton: prietenos, empatic, u'' @ [537] @
     U ''or flirty, cu umor subtil. NU fi condescendent. NU folosi cli'' @
     [537] @ U ''ee gen '' @ [34] @ U ''nu-'' @ [539] @
     U ''i pierde speran'' @ [539] @ U ''a'' @ [34] @ U ''.''"

definition ai_request_of :: "int \<Rightarrow> category \<Rightarrow> kpis \<Rightarrow> ai_request" where
  "ai_request_of score category kpis =
     \<lparr>endpoint = U ''https://api.anthropic.com/v1/messages'',
      model = U ''claude-sonnet-4-20250514'', max_tokens = 1000,
      messages = [(U ''user'', build_prompt score category kpis)]\<rparr>"

text \<open>The template literal of the prompt (lines 127--146) is fixed text interleaved with
  the nine interpolated values; \<open>build_prompt_template\<close> shows the two readings agree.\<close>


definition prompt_fields :: "int \<Rightarrow> category \<Rightarrow> kpis \<Rightarrow> ustring list" where
  "prompt_fields score category kpis =
     [js_int_to_string score, U (category_name category),
      kpi_percent (kpis ''story_like_rate''), kpi_percent (kpis ''conversation_initiation_ratio''),
      kpi_percent (kpis ''reply_speed_score''), kpi_percent (kpis ''date_count_score''),
      kpi_percent (kpis ''gift_score''), kpi_percent (kpis ''emotional_interest_score''),
      kpi_percent (kpis ''future_plans_score'')]"

definition prompt_head :: ustring where
  "prompt_head =
     U ''Tu e'' @ [537] @ U ''ti CrushBot, un AI amuzant '' @ [537] @
     U ''i empatic care analizeaz'' @ [259] @
     U '' semnale de interes romantic.'' @ [10, 10] @ U ''Scor final: ''"

definition prompt_tails :: "ustring list" where
  "prompt_tails =
    [U ''%'' @ [10] @ U ''Categorie: '',
     [10] @ U ''Detalii KPI:'' @ [10] @ U ''- Story likes: '',
     U ''%'' @ [10] @ U ''- Ini'' @ [539] @ U ''iaz'' @ [259] @ U '' conversa'' @ [539] @ U ''ii: '',
     U ''%'' @ [10] @ U ''- Vitez'' @ [259] @ U '' r'' @ [259] @ U ''spuns: '',
     U ''%'' @ [10] @ U ''- Date count: '',
     U ''%'' @ [10] @ U ''- Cadouri: '',
     U ''%'' @ [10] @ U ''- Interes emo'' @ [539] @ U ''ional: '',
     U ''%'' @ [10] @ U ''- Planuri viitoare: '',
     U ''%'' @ [10, 10] @ U ''Scrie un r'' @ [259] @
     U ''spuns scurt (max 120 cuvinte) '' @ [238] @ U ''n rom'' @ [226] @
     U ''n'' @ [259] @ U '' pentru utilizator:'' @ [10] @ U ''1. '' @
     [206] @ U ''ncepe cu un hook emo'' @ [539] @
     U ''ional (emoji fun)'' @ [10] @ U ''2. Explic'' @ [259] @
     U '' ce arat'' @ [259] @ U '' semnalele (2-3 puncte cheie)'' @ [10] @
     U ''3. D'' @ [259] @ U '' un sfat practic sau '' @ [238] @
     U ''ncurajare'' @ [10] @ U ''4. Termin'' @ [259] @ U '' playful '' @
     [537] @ U ''i optimist'' @ [10, 10] @
     U ''Ton: prietenos, empatic, u'' @ [537] @
     U ''or flirty, cu umor subtil. NU fi condescendent. NU folosi cli'' @
     [537] @ U ''ee gen '' @ [34] @ U ''nu-'' @ [539] @
     U ''i pierde speran'' @ [539] @ U ''a'' @ [34] @ U ''.'']"

subsection \<open>The response and the fallback\<close>

text \<open>What \<open>await fetch(...)\<close> and \<open>await response.json()\<close> give: a rejected request,
  or a response with its HTTP status and its body parsed as JSON (\<open>None\<close> when the body
  is not JSON and \<open>response.json()\<close> rejects).\<close>

datatype fetch_outcome = Network_Error | Response nat "json option"

text \<open>The callback \<open>item => item.type === 'text' ? item.text : ''\<close>.\<close>

definition item_text :: "json \<Rightarrow> js_error + jsval" where
  "item_text item = (case get_prop item (U ''type'') of
      Inl e \<Rightarrow> Inl e
    | Inr t \<Rightarrow> if t = Val (JStr (U ''text'')) then get_prop item (U ''text'') else Inr (Val (JStr [])))"

text \<open>\<open>Array.prototype.map\<close> with that callback: the first exception aborts it.\<close>

fun map_items :: "json list \<Rightarrow> js_error + jsval list" where
  "map_items [] = Inr []"
| "map_items (x # xs) = (case item_text x of
      Inl e \<Rightarrow> Inl e
    | Inr v \<Rightarrow> (case map_items xs of Inl e \<Rightarrow> Inl e | Inr vs \<Rightarrow> Inr (v # vs)))"

text \<open>\<open>data.content.map(...).join('\n').trim()\<close>: \<open>.map\<close> on anything but an array
  throws.\<close>

definition response_text :: "json \<Rightarrow> js_error + ustring" where
  "response_text data = (case get_prop data (U ''content'') of
      Inl e \<Rightarrow> Inl e
    | Inr (Val (JArr items)) \<Rightarrow>
        (case map_items items of
           Inl e \<Rightarrow> Inl e
         | Inr vs \<Rightarrow> Inr (js_trim (js_join [10] (map join_elem vs))))
    | Inr _ \<Rightarrow> Inl TypeError)"

definition fallback_explanation :: "category \<Rightarrow> ustring" where
  "fallback_explanation category =
    (if category = High then
     [128293] @
     U '' Wow! Semnalele sunt puternice! Persoana asta pare s'' @ [259] @
     U '' fie cu adev'' @ [259] @ U ''rat interesat'' @ [259] @
     U '' de tine. Fie c'' @ [259] @ U '' r'' @ [259] @
     U ''spunde rapid, ini'' @ [539] @ U ''iaz'' @ [259] @
     U '' conversa'' @ [539] @
     U ''ii sau face gesturi speciale, toate indic'' @ [259] @
     U '' o conexiune autentic'' @ [259] @ U ''. Sfatul meu? Fii tu '' @
     [238] @ U ''nsu'' @ [539] @ U ''i '' @ [537] @ U ''i comunic'' @
     [259] @ U '' deschis. '' @ [536] @ U ''ansele sunt de partea ta! '' @
     [128171]
     else if category = Mixed then
     [129300] @ U '' Situa'' @ [539] @ U ''ia e '' @ [238] @
     U ''n zona '' @ [34] @ U ''mixed signals'' @ [34] @ U ''. Sunt c'' @
     [226] @ U ''teva semne pozitive, dar '' @ [537] @
     U ''i zone de incertitudine. Poate sunt timid('' @ [259] @
     U ''), sau '' @ [238] @ U ''nc'' @ [259] @ U '' v'' @ [259] @
     U '' cunoa'' @ [537] @ U ''te'' @ [539] @
     U ''i. Comunicarea deschis'' @ [259] @ U '' e cheia '' @ [8211] @
     U '' '' @ [238] @ U ''ntreab'' @ [259] @ U '' direct dac'' @ [259] @
     U '' sim'' @ [539] @ U ''i c'' @ [259] @
     U '' e momentul potrivit. Nu te gr'' @ [259] @
     U ''bi, dar nici nu sta pe loc! '' @ [10024]
     else
     [128173] @
     U '' Hmm, semnalele par destul de slabe momentan. Asta nu '' @
     [238] @ U ''nseamn'' @ [259] @ U '' c'' @ [259] @
     U '' e cazul pierdut, dar poate nu sunte'' @ [539] @
     U ''i pe aceea'' @ [537] @ U ''i lungime de und'' @ [259] @
     U ''. G'' @ [226] @ U ''nde'' @ [537] @ U ''te-te dac'' @ [259] @
     U '' investi'' @ [539] @ U ''ia ta emo'' @ [539] @ U ''ional'' @
     [259] @ U '' e reciprocat'' @ [259] @ U ''. Merit'' @ [259] @
     U '' s'' @ [259] @ U '' explorezi alte conexiuni care '' @
     [238, 539] @ U ''i ofer'' @ [259] @
     U '' energia pe care o dai. Tu meri'' @ [539] @
     U ''i cineva care e la fel de entuziasmat('' @ [259] @ U '')! '' @
     [128170])"

text \<open>The \<open>try\<close> block and its \<open>catch\<close>: every failure of the request, of the JSON
  parse or of the property accesses lands in the fallback.\<close>

definition explanation_of :: "category \<Rightarrow> fetch_outcome \<Rightarrow> ustring" where
  "explanation_of category outcome = (case outcome of
      Network_Error \<Rightarrow> fallback_explanation category
    | Response status None \<Rightarrow> fallback_explanation category
    | Response status (Some data) \<Rightarrow>
        (case response_text data of Inl e \<Rightarrow> fallback_explanation category | Inr t \<Rightarrow> t))"

text \<open>\<open>generateAIExplanation(score, category, kpis)\<close>, with the service as the function
  \<open>service\<close> from requests to outcomes: one request, no retry.\<close>

definition generateAIExplanation ::
  "(ai_request \<Rightarrow> fetch_outcome) \<Rightarrow> int \<Rightarrow> category \<Rightarrow> kpis \<Rightarrow> ustring" where
  "generateAIExplanation service score category kpis =
     explanation_of category (service (ai_request_of score category kpis))"

declare js_whitespace_def [model_eval] js_trim_def [model_eval] js_int_to_string_def [model_eval]
  to_fixed0_def [model_eval] kpi_percent_def [model_eval] build_prompt_def [model_eval]
  ai_request_of_def [model_eval] item_text_def [model_eval] response_text_def [model_eval]
  fallback_explanation_def [model_eval] explanation_of_def [model_eval]
  generateAIExplanation_def [model_eval]


subsection \<open>Decimal printing\<close>

text \<open>Reading the digits back, the inverse the printer must have.\<close>

definition dec_to_nat :: "ustring \<Rightarrow> nat" where
  "dec_to_nat ds = foldl (\<lambda>n d. 10 * n + (d - 48)) 0 ds"

text \<open>The reader of a printed integer: an optional minus sign, then the digits.\<close>

definition dec_to_int :: "ustring \<Rightarrow> int" where
  "dec_to_int s = (if take 1 s = U ''-'' then - int (dec_to_nat (drop 1 s)) else int (dec_to_nat s))"

lemma dec_to_nat_snoc: "dec_to_nat (ds @ [d]) = 10 * dec_to_nat ds + (d - 48)"
  by (simp add: dec_to_nat_def)

lemma nat_to_dec_digits: "nat_to_dec n \<noteq> [] \<and> (\<forall>d \<in> set (nat_to_dec n). 48 \<le> d \<and> d \<le> 57)"
proof (induction n rule: nat_to_dec.induct)
  case (1 n)
  then show ?case by (simp only: nat_to_dec.simps [of n]) auto
qed

lemma nat_to_dec_inverse: "dec_to_nat (nat_to_dec n) = n"
proof (induction n rule: nat_to_dec.induct)
  case (1 n)
  show ?case
  proof (cases "n < 10")
    case True
    then show ?thesis by (subst nat_to_dec.simps) (simp add: dec_to_nat_def)
  next
    case False
    then have "dec_to_nat (nat_to_dec n) = 10 * (n div 10) + n mod 10"
      using "1.IH" by (subst nat_to_dec.simps) (simp add: dec_to_nat_snoc)
    then show ?thesis by simp
  qed
qed

lemma nat_to_dec_inj: "nat_to_dec m = nat_to_dec n \<longleftrightarrow> m = n"
  by (metis nat_to_dec_inverse)

lemma nat_to_dec_head: "take 1 (nat_to_dec n) \<noteq> U ''-''"
  using nat_to_dec_digits[of n] by (cases "nat_to_dec n") (auto simp: U_def)

lemma js_int_to_string_inj: "js_int_to_string a = js_int_to_string b \<longleftrightarrow> a = b"
proof
  assume h: "js_int_to_string a = js_int_to_string b"
  have neg: "U ''-'' @ nat_to_dec m \<noteq> nat_to_dec n" for m n
  proof
    assume a: "U ''-'' @ nat_to_dec m = nat_to_dec n"
    have "take 1 (U ''-'' @ nat_to_dec m) = U ''-''" by (simp add: U_def)
    with a nat_to_dec_head[of n] show False by (simp del: U_append)
  qed
  show "a = b"
  proof (cases "a < 0"; cases "b < 0")
    assume "a < 0" "b < 0"
    then show ?thesis using h by (simp add: js_int_to_string_def nat_to_dec_inj)
  next
    assume "a < 0" "\<not> b < 0"
    then show ?thesis using h neg by (simp add: js_int_to_string_def)
  next
    assume "\<not> a < 0" "b < 0"
    then show ?thesis using h neg[symmetric] by (simp add: js_int_to_string_def)
  next
    assume "\<not> a < 0" "\<not> b < 0"
    then show ?thesis using h by (simp add: js_int_to_string_def nat_to_dec_inj)
  qed
qed simp

text \<open>Printing an integer as \<open>String(n)\<close> (the score in the prompt, \<open>Date.now()\<close>
  in the feedback key) and reading it back, an optional minus sign then decimal digits,
  gives the integer: the printer loses nothing.\<close>

lemma js_int_to_string_roundtrip: "dec_to_int (js_int_to_string i) = i"
  using nat_to_dec_head[of "nat i"] nat_to_dec_inverse[of "nat i"] nat_to_dec_inverse[of "nat (- i)"]
  by (auto simp: dec_to_int_def js_int_to_string_def U_def)

subsection \<open>The response: success, failure, fallback\<close>

text \<open>A content segment of type \<open>text\<close>.\<close>

definition text_segment :: "ustring \<Rightarrow> json" where
  "text_segment t = JObj [(U ''type'', JStr (U ''text'')), (U ''text'', JStr t)]"

lemma map_items_text_segments: "map_items (map text_segment ts) = Inr (map (\<lambda>t. Val (JStr t)) ts)"
  by (induction ts) (simp_all add: item_text_def text_segment_def)

lemma map_items_null: "JNull \<in> set items \<Longrightarrow> map_items items = Inl TypeError"
proof (induction items)
  case Nil
  then show ?case by simp
next
  case (Cons x xs)
  show ?case
  proof (cases "x = JNull")
    case True
    then show ?thesis by (simp add: item_text_def)
  next
    case False
    with Cons have "map_items xs = Inl TypeError" by simp
    then show ?thesis by (simp split: sum.split)
  qed
qed

text \<open>C18: every failure is masked by the canned text of the category: a rejected
  request, a body that is not JSON, a JSON \<open>null\<close> body, a body whose \<open>content\<close> is not
  an array, and a content array holding \<open>null\<close> all give \<open>fallback_explanation\<close>.\<close>

theorem explanation_of_failures:
  assumes "\<forall>items. get_prop data (U ''content'') \<noteq> Inr (Val (JArr items))"
    and "JNull \<in> set items"
  shows "explanation_of c Network_Error = fallback_explanation c \<and>
    explanation_of c (Response st None) = fallback_explanation c \<and>
    explanation_of c (Response st (Some data)) = fallback_explanation c \<and>
    explanation_of c (Response st (Some (JObj [(U ''content'', JArr items)]))) = fallback_explanation c"
proof -
  have "response_text data = Inl TypeError"
    using assms(1) by (auto simp: response_text_def split: sum.split jsval.split json.split)
  moreover have "response_text (JObj [(U ''content'', JArr items)]) = Inl TypeError"
    using map_items_null [OF assms(2)] by (simp add: response_text_def)
  ultimately show ?thesis by (simp add: explanation_of_def)
qed

theorem explanation_of_failures_witness:
  "explanation_of High Network_Error = fallback_explanation High \<and>
   explanation_of High (Response 502 None) = fallback_explanation High \<and>
   explanation_of High (Response 200 (Some JNull)) = fallback_explanation High \<and>
   explanation_of High (Response 200 (Some (JObj [(U ''content'', JArr [JNull])]))) = fallback_explanation High"
proof -
  have h1: "\<forall>items. get_prop JNull (U ''content'') \<noteq> Inr (Val (JArr items))" by simp
  have h2: "JNull \<in> set [JNull]" by simp
  show ?thesis using explanation_of_failures [OF h1 h2, of High 502] explanation_of_failures [OF h1 h2, of High 200]
    by simp
qed

text \<open>C19: on a response whose content is a list of text segments, the explanation is
  their texts joined by newlines and trimmed, whatever the HTTP status.\<close>

theorem explanation_of_text_segments:
  "explanation_of c (Response st (Some (JObj [(U ''content'', JArr (map text_segment ts))]))) =
   js_trim (js_join [10] ts)"
  by (simp add: explanation_of_def response_text_def map_items_text_segments comp_def)

lemma map_items_blank:
  assumes "\<forall>it \<in> set items. it \<noteq> JNull \<and>
    (get_prop it (U ''type'') \<noteq> Inr (Val (JStr (U ''text''))) \<or> get_prop it (U ''text'') = Inr Undefined)"
  shows "\<exists>vs. map_items items = Inr vs \<and> (\<forall>v \<in> set vs. join_elem v = [])"
  using assms
proof (induction items)
  case Nil
  then show ?case by simp
next
  case (Cons it items)
  then obtain vs where vs: "map_items items = Inr vs" "\<forall>v \<in> set vs. join_elem v = []" by auto
  have nn: "it \<noteq> JNull" using Cons.prems by simp
  then obtain t where t: "get_prop it (U ''type'') = Inr t" by (cases it) auto
  have "\<exists>v. item_text it = Inr v \<and> join_elem v = []"
    using Cons.prems t by (auto simp: item_text_def)
  then show ?case using vs by auto
qed

lemma js_join_newlines: "\<forall>x \<in> set xs. x = [] \<Longrightarrow> set (js_join [10] xs) \<subseteq> {10}"
  by (induction "[10::nat]" xs rule: js_join.induct) auto

lemma js_trim_blank: "set s \<subseteq> set js_whitespace \<Longrightarrow> js_trim s = []"
  by (auto simp: js_trim_def dropWhile_eq_Nil_conv dest: set_dropWhileD)

text \<open>C20: where the code and the spec part: a response whose content array holds no text
  (items of other types, or text segments without their \<open>text\<close> field), with any HTTP
  status, gives the empty explanation rather than the fallback, since the code checks
  neither \<open>response.ok\<close> nor that some text came back.\<close>

theorem explanation_of_divergences:
  assumes "get_prop data (U ''content'') = Inr (Val (JArr items))"
    and "\<forall>it \<in> set items. it \<noteq> JNull \<and>
      (get_prop it (U ''type'') \<noteq> Inr (Val (JStr (U ''text''))) \<or> get_prop it (U ''text'') = Inr Undefined)"
  shows "explanation_of c (Response st (Some data)) = [] \<and> explanation_of c (Response st (Some data)) \<noteq> fallback_explanation c"
proof -
  obtain vs where vs: "map_items items = Inr vs" "\<forall>v \<in> set vs. join_elem v = []"
    using map_items_blank[OF assms(2)] by blast
  have "set (js_join [10] (map join_elem vs)) \<subseteq> {10}"
    using vs(2) by (intro js_join_newlines) auto
  then have "js_trim (js_join [10] (map join_elem vs)) = []"
    by (intro js_trim_blank) (auto simp: js_whitespace_def)
  then have "response_text data = Inr []" using assms(1) vs(1) by (simp add: response_text_def)
  moreover have "fallback_explanation c \<noteq> []" by (simp add: fallback_explanation_def)
  ultimately show ?thesis by (simp add: explanation_of_def)
qed

theorem explanation_of_divergences_witness:
  "explanation_of High (Response 200 (Some (JObj [(U ''content'', JArr [JObj [(U ''type'', JStr (U ''tool_use''))]])]))) = [] \<and>
   explanation_of High (Response 200 (Some (JObj [(U ''content'', JArr [JObj [(U ''type'', JStr (U ''tool_use''))]])]))) \<noteq> fallback_explanation High"
proof (rule explanation_of_divergences)
  show "get_prop (JObj [(U ''content'', JArr [JObj [(U ''type'', JStr (U ''tool_use''))]])]) (U ''content'') =
      Inr (Val (JArr [JObj [(U ''type'', JStr (U ''tool_use''))]]))" by simp
  have "get_prop (JObj [(U ''type'', JStr (U ''tool_use''))]) (U ''type'') \<noteq> Inr (Val (JStr (U ''text'')))"
    by (simp add: U_def)
  then show "\<forall>it \<in> set [JObj [(U ''type'', JStr (U ''tool_use''))]]. it \<noteq> JNull \<and>
      (get_prop it (U ''type'') \<noteq> Inr (Val (JStr (U ''text''))) \<or> get_prop it (U ''text'') = Inr Undefined)"
    by simp
qed

lemma build_prompt_template:
  "build_prompt score category kpis = prompt_head @ concat (map2 (@) (prompt_fields score category kpis) prompt_tails)"
  by (simp add: build_prompt_def prompt_head_def prompt_fields_def prompt_tails_def)

lemma delim_split:
  "f @ t @ r = g @ t @ r' \<Longrightarrow> t \<noteq> [] \<Longrightarrow> hd t \<notin> set f \<Longrightarrow> hd t \<notin> set g \<Longrightarrow> f = g \<and> r = r'"
proof (induction f arbitrary: g)
  case Nil
  then show ?case by (cases g) (auto simp: neq_Nil_conv)
next
  case (Cons a f)
  then show ?case by (cases g) (auto simp: neq_Nil_conv)
qed

lemma delim_fields:
  fixes fs gs ts :: "'a list list"
  assumes "list_all2 (\<lambda>f t. t \<noteq> [] \<and> hd t \<notin> set f) fs ts"
    and "list_all2 (\<lambda>f t. t \<noteq> [] \<and> hd t \<notin> set f) gs ts"
    and "concat (map2 (@) fs ts) = concat (map2 (@) gs ts)"
  shows "fs = gs"
  using assms
proof (induction fs ts arbitrary: gs rule: list_all2_induct)
  case Nil
  then show ?case by simp
next
  case (Cons f fs t ts)
  obtain g gs' where g: "gs = g # gs'" using Cons.prems(1) by (cases gs) auto
  have "f @ t @ concat (map2 (@) fs ts) = g @ t @ concat (map2 (@) gs' ts)"
    using Cons.prems(2) g by simp
  then have "f = g \<and> concat (map2 (@) fs ts) = concat (map2 (@) gs' ts)"
    using Cons.hyps(1) Cons.prems(1) g by (intro delim_split) auto
  then show ?case using Cons.IH[of gs'] Cons.prems(1) g by simp
qed

lemma js_int_to_string_delims: "c \<in> set (js_int_to_string n) \<Longrightarrow> c = 45 \<or> (48 \<le> c \<and> c \<le> 57)"
  using nat_to_dec_digits by (auto simp: js_int_to_string_def U_def split: if_splits)

lemma kpi_percent_delims: "c \<in> set (kpi_percent v) \<Longrightarrow> c = 45 \<or> c = 78 \<or> c = 97 \<or> (48 \<le> c \<and> c \<le> 57)"
  using nat_to_dec_digits by (auto simp: kpi_percent_def to_fixed0_def U_def split: option.splits if_splits)

lemma prompt_fields_delims:
  "list_all2 (\<lambda>f t. t \<noteq> [] \<and> hd t \<notin> set f) (prompt_fields s c k) prompt_tails"
proof -
  have "10 \<notin> set (U (category_name c))" by (cases c) (simp_all add: U_def)
  moreover have "37 \<notin> set (js_int_to_string s)" using js_int_to_string_delims by force
  moreover have "37 \<notin> set (kpi_percent v)" for v using kpi_percent_delims by force
  ultimately show ?thesis by (simp add: prompt_fields_def prompt_tails_def U_def)
qed

lemma category_name_inj: "category_name a = category_name b \<longleftrightarrow> a = b"
  by (cases a; cases b) simp_all

text \<open>C21: the prompt carries the data unambiguously: two prompts are equal exactly when
  their scores, their categories and the seven printed KPI percents are.\<close>

theorem build_prompt_inj:
  "build_prompt s1 c1 k1 = build_prompt s2 c2 k2 \<longleftrightarrow>
     s1 = s2 \<and> c1 = c2 \<and> (\<forall>(k, w) \<in> set WEIGHTS. kpi_percent (k1 k) = kpi_percent (k2 k))"
proof -
  have "build_prompt s1 c1 k1 = build_prompt s2 c2 k2 \<longleftrightarrow> prompt_fields s1 c1 k1 = prompt_fields s2 c2 k2"
    unfolding build_prompt_template using delim_fields[OF prompt_fields_delims prompt_fields_delims] by auto
  also have "\<dots> \<longleftrightarrow> s1 = s2 \<and> c1 = c2 \<and> (\<forall>(k, w) \<in> set WEIGHTS. kpi_percent (k1 k) = kpi_percent (k2 k))"
    by (auto simp: prompt_fields_def WEIGHTS_def category_name_inj js_int_to_string_inj)
  finally show ?thesis .
qed


theorem build_prompt_inj_witness:
  "build_prompt 15 Low [''gift_score'' \<mapsto> 1] = build_prompt 15 Low [''gift_score'' \<mapsto> 1, ''story_like'' \<mapsto> 1/2]"
  using build_prompt_inj[of 15 Low "[''gift_score'' \<mapsto> 1]" 15 Low "[''gift_score'' \<mapsto> 1, ''story_like'' \<mapsto> 1/2]"]
  by (simp add: WEIGHTS_def)

end
