(* ===== verification/Feedback.thy ===== *)
theory Feedback
  imports Explanation
begin

text \<open>
  The feedback recorder of src/src/App.jsx (\<open>handleFeedback\<close>, lines 235--255): the key
  \<open>feedback_${Date.now()}\<close>, the record \<open>{score, category, accurate, timestamp}\<close> as
  \<open>JSON.stringify\<close> writes it, with \<open>new Date().toISOString()\<close> as the timestamp, and
  the write \<open>window.storage.set(key, value, true)\<close> into the shared store, a map from
  keys to strings.  Times are milliseconds since the epoch, as \<open>Date.now()\<close> reads them.
\<close>

subsection \<open>Date.prototype.toISOString\<close>

text \<open>The proleptic Gregorian date of a day number (days since 1970-01-01), computed
  with whole 400-year eras of 146097 days.\<close>

definition civil_from_days :: "int \<Rightarrow> int \<times> int \<times> int" where
  "civil_from_days z0 = (let z = z0 + 719468;
      era = z div 146097;
      doe = z - era * 146097;
      yoe = (doe - doe div 1460 + doe div 36524 - doe div 146096) div 365;
      doy = doe - (365 * yoe + yoe div 4 - yoe div 100);
      mp = (5 * doy + 2) div 153;
      d = doy - (153 * mp + 2) div 5 + 1;
      m = (if mp < 10 then mp + 3 else mp - 9);
      y = yoe + era * 400 + (if m \<le> 2 then 1 else 0)
    in (y, m, d))"

text \<open>A number printed with at least \<open>k\<close> digits, padded with zeros.\<close>

definition pad_dec :: "nat \<Rightarrow> nat \<Rightarrow> ustring" where
  "pad_dec k n = replicate (k - length (nat_to_dec n)) 48 @ nat_to_dec n"

text \<open>The year field: four digits for years 0 to 9999, otherwise a sign and six digits
  (ECMA-262, 21.4.1.32).\<close>

definition iso_year :: "int \<Rightarrow> ustring" where
  "iso_year y = (if 0 \<le> y \<and> y \<le> 9999 then pad_dec 4 (nat y)
     else if y < 0 then U ''-'' @ pad_dec 6 (nat (- y)) else U ''+'' @ pad_dec 6 (nat y))"

definition iso_string :: "int \<Rightarrow> ustring" where
  "iso_string t = (let days = t div 86400000; ms = t mod 86400000;
      (y, m, d) = civil_from_days days
    in iso_year y @ U ''-'' @ pad_dec 2 (nat m) @ U ''-'' @ pad_dec 2 (nat d) @ U ''T'' @
       pad_dec 2 (nat (ms div 3600000)) @ U '':'' @ pad_dec 2 (nat (ms div 60000 mod 60)) @ U '':'' @
       pad_dec 2 (nat (ms div 1000 mod 60)) @ U ''.'' @ pad_dec 3 (nat (ms mod 1000)) @ U ''Z'')"

subsection \<open>The record and its key\<close>

definition feedback_key :: "int \<Rightarrow> ustring" where
  "feedback_key now = U ''feedback_'' @ js_int_to_string now"

text \<open>\<open>JSON.stringify({score: finalScore, category, accurate: isAccurate, timestamp})\<close>;
  a \<open>null\<close> score or category is written \<open>null\<close>.\<close>

definition feedback_json :: "int option \<Rightarrow> category option \<Rightarrow> bool \<Rightarrow> ustring \<Rightarrow> ustring" where
  "feedback_json score cat accurate timestamp =
     U ''{'' @ [34] @ U ''score'' @ [34] @ U '':'' @
     (case score of None \<Rightarrow> U ''null'' | Some n \<Rightarrow> js_int_to_string n) @
     U '','' @ [34] @ U ''category'' @ [34] @ U '':'' @
     (case cat of None \<Rightarrow> U ''null'' | Some c \<Rightarrow> [34] @ U (category_name c) @ [34]) @
     U '','' @ [34] @ U ''accurate'' @ [34] @ U '':'' @ (if accurate then U ''true'' else U ''false'') @
     U '','' @ [34] @ U ''timestamp'' @ [34] @ U '':'' @ [34] @ timestamp @ [34] @ U ''}''"

text \<open>The shared store of \<open>window.storage\<close>: key to value.\<close>

type_synonym store = "ustring \<rightharpoonup> ustring"

text \<open>The completed write of one submission: \<open>now\<close> is the \<open>Date.now()\<close> reading,
  \<open>clock\<close> the later reading of \<open>new Date()\<close>.\<close>

definition record_feedback :: "store \<Rightarrow> int option \<Rightarrow> category option \<Rightarrow> bool \<Rightarrow> int \<Rightarrow> int \<Rightarrow> store" where
  "record_feedback st score cat accurate now clock =
     st(feedback_key now \<mapsto> feedback_json score cat accurate (iso_string clock))"

declare civil_from_days_def [model_eval] pad_dec_def [model_eval] iso_year_def [model_eval]
  iso_string_def [model_eval] feedback_key_def [model_eval] feedback_json_def [model_eval]
  record_feedback_def [model_eval]

subsection \<open>Keys and overwrites\<close>

text \<open>C22: the key \<open>feedback_${Date.now()}\<close> determines the millisecond it was taken at:
  two submissions get the same key exactly when \<open>Date.now()\<close> read the same value.\<close>

theorem feedback_key_inj: "feedback_key a = feedback_key b \<longleftrightarrow> a = b"
  by (simp add: feedback_key_def js_int_to_string_inj)

text \<open>The spec asks for a key unique per submission; the code's key is unique per
  millisecond.  After two submissions, the first one's record is still in the store exactly
  when they were made in different milliseconds; otherwise the second overwrote it.\<close>

lemma record_feedback_overwrite:
  "record_feedback (record_feedback st s1 c1 a1 n1 t1) s2 c2 a2 n2 t2 (feedback_key n1) =
     Some (if n1 = n2 then feedback_json s2 c2 a2 (iso_string t2) else feedback_json s1 c1 a1 (iso_string t1))"
  by (simp add: record_feedback_def feedback_key_def js_int_to_string_inj)

end
