(* ===== verification/App.thy ===== *)
theory App
  imports Catalog Feedback
begin

text \<open>
  The \<open>CrushBot\<close> component of src/src/App.jsx (lines 180--267 and its render, lines
  273--1201) as a state machine.  Its \<open>useState\<close> hooks are the record \<open>crushbot\<close>; the
  work it leaves to the event loop (the callbacks of \<open>setTimeout\<close>, the awaited
  explanation request and the awaited storage write) is a list of pending tasks; the
  world around it holds the shared store and the requests sent to the text service.
  One event is one of: a click or input the current screen offers, a timer firing, the
  service answering, the store settling.  \<open>app_step\<close> runs one event; React's render is
  \<open>render\<close>, and a render that throws unmounts the component: from then on its state
  updates are dropped, while the callbacks already scheduled still run.
\<close>

datatype stage = Intro | Questions | Loading | Result | Feedback

record crushbot =
  stage :: stage
  currentQuestionIndex :: nat
  answers :: "string \<rightharpoonup> rat"
  kpis :: kpis
  finalScore :: "int option"
  category :: "category option"
  aiExplanation :: ustring
  sliderValue :: rat
  showThankYou :: bool

text \<open>The initial values of the hooks (lines 181--189); \<open>handleReset\<close> restores them.\<close>

definition crushbot_init :: crushbot where
  "crushbot_init =
     \<lparr>stage = Intro, currentQuestionIndex = 0, answers = Map.empty, kpis = Map.empty,
      finalScore = None, category = None, aiExplanation = [], sliderValue = fl (5/10),
      showThankYou = False\<rparr>"

subsection \<open>Rendering\<close>

text \<open>What a render shows, without styling and texts: the screen and the data it
  displays.  A question screen shows its position (\<open>Intrebarea i din N\<close> and the
  progress bar), the question's input and the slider's value label.\<close>

datatype slider_label = Eu_mereu | El_Ea_mereu | Cam_egal

datatype view =
    Intro_View
  | Question_View nat nat question_input slider_label
  | Loading_View
  | Result_View "int option" ustring ustring ustring bool
  | Feedback_View

definition getScoreColor :: "category option \<Rightarrow> ustring" where
  "getScoreColor c = (if c = Some High then U ''#27ae60'' else if c = Some Mixed then U ''#f39c12''
     else U ''#e74c3c'')"

definition getScoreEmoji :: "category option \<Rightarrow> ustring" where
  "getScoreEmoji c = (if c = Some High then [128293] else if c = Some Mixed then [129300] else [128173])"

definition slider_label_of :: "rat \<Rightarrow> slider_label" where
  "slider_label_of v = (if v = 0 then Eu_mereu else if v = 1 then El_Ea_mereu else Cam_egal)"

text \<open>\<open>QUESTIONS[currentQuestionIndex]\<close> is \<open>undefined\<close> past the end of the catalog, and
  the question screen's \<open>currentQuestion.text\<close> then throws.\<close>

definition render :: "crushbot \<Rightarrow> js_error + view" where
  "render s = (case stage s of
      Intro \<Rightarrow> Inr Intro_View
    | Questions \<Rightarrow>
        (if currentQuestionIndex s < length QUESTIONS
         then Inr (Question_View (currentQuestionIndex s + 1) (length QUESTIONS)
                     (input (QUESTIONS ! currentQuestionIndex s)) (slider_label_of (sliderValue s)))
         else Inl TypeError)
    | Loading \<Rightarrow> Inr Loading_View
    | Result \<Rightarrow> Inr (Result_View (finalScore s) (getScoreColor (category s))
                     (getScoreEmoji (category s)) (aiExplanation s) (showThankYou s))
    | Feedback \<Rightarrow> Inr Feedback_View)"

subsection \<open>Pending work, the world, events\<close>

text \<open>A callback waiting in the event loop, with the values its closure captured.\<close>

datatype task =
    Advance_Timer nat kpis
  | Explanation_Pending int category kpis
  | Result_Timer
  | Storage_Pending ustring ustring
  | Feedback_Timer

record world =
  ui :: crushbot
  mounted :: bool
  tasks :: "task list"
  store :: store
  requests :: "ai_request list"

definition world_init :: world where
  "world_init = \<lparr>ui = crushbot_init, mounted = True, tasks = [], store = Map.empty, requests = []\<rparr>"

datatype event =
    Click_Start
  | Click_Option nat
  | Slider_Input rat
  | Click_Continue
  | Timer_Fires nat
  | Service_Replies nat fetch_outcome
  | Storage_Settles nat bool
  | Click_Feedback bool int int
  | Click_Home

fun user_event :: "event \<Rightarrow> bool" where
  "user_event (Timer_Fires i) = False"
| "user_event (Service_Replies i r) = False"
| "user_event (Storage_Settles i ok) = False"
| "user_event e = True"

subsection \<open>Handlers\<close>

text \<open>A state update of the component: dropped once it is unmounted.\<close>

definition set_ui :: "(crushbot \<Rightarrow> crushbot) \<Rightarrow> world \<Rightarrow> world" where
  "set_ui f w = (if mounted w then w\<lparr>ui := f (ui w)\<rparr> else w)"

definition schedule :: "task \<Rightarrow> world \<Rightarrow> world" where
  "schedule t w = w\<lparr>tasks := tasks w @ [t]\<rparr>"

definition handleAnswer :: "rat \<Rightarrow> world \<Rightarrow> world" where
  "handleAnswer value w = (let s = ui w; q = QUESTIONS ! currentQuestionIndex s;
      newAnswers = (answers s)(question_id q \<mapsto> value);
      newKpis = (kpis s)(kpi q \<mapsto> value)
    in schedule (Advance_Timer (currentQuestionIndex s) newKpis)
         (set_ui (\<lambda>s. s\<lparr>answers := newAnswers, kpis := newKpis\<rparr>) w))"

definition processResults :: "kpis \<Rightarrow> world \<Rightarrow> world" where
  "processResults finalKpis w = (let score = calculateFinalScore finalKpis;
      cat = getCategoryFromScore score
    in schedule (Explanation_Pending score cat finalKpis)
         ((set_ui (\<lambda>s. s\<lparr>finalScore := Some score, category := Some cat\<rparr>) w)
            \<lparr>requests := requests w @ [ai_request_of score cat finalKpis]\<rparr>))"

text \<open>The callback of \<open>handleAnswer\<close>'s timer, with the index its closure saw.\<close>

definition advance :: "nat \<Rightarrow> kpis \<Rightarrow> world \<Rightarrow> world" where
  "advance idx newKpis w =
     (if idx < length QUESTIONS - 1
      then set_ui (\<lambda>s. s\<lparr>currentQuestionIndex := currentQuestionIndex s + 1, sliderValue := fl (5/10)\<rparr>) w
      else processResults newKpis (set_ui (\<lambda>s. s\<lparr>stage := Loading\<rparr>) w))"

definition handleFeedback :: "bool \<Rightarrow> int \<Rightarrow> int \<Rightarrow> world \<Rightarrow> world" where
  "handleFeedback isAccurate now clock w =
     schedule (Storage_Pending (feedback_key now)
                 (feedback_json (finalScore (ui w)) (category (ui w)) isAccurate (iso_string clock)))
       (set_ui (\<lambda>s. s\<lparr>showThankYou := True\<rparr>) w)"

definition handleReset :: "world \<Rightarrow> world" where
  "handleReset w = set_ui (\<lambda>s. crushbot_init) w"

definition remove_task :: "nat \<Rightarrow> world \<Rightarrow> world" where
  "remove_task i w = w\<lparr>tasks := take i (tasks w) @ drop (Suc i) (tasks w)\<rparr>"

text \<open>Running the \<open>i\<close>-th pending task on the event the environment delivers for it.\<close>

fun run_task :: "task \<Rightarrow> event \<Rightarrow> world \<Rightarrow> world option" where
  "run_task (Advance_Timer idx newKpis) (Timer_Fires i) w = Some (advance idx newKpis w)"
| "run_task Result_Timer (Timer_Fires i) w = Some (set_ui (\<lambda>s. s\<lparr>stage := Result\<rparr>) w)"
| "run_task Feedback_Timer (Timer_Fires i) w =
     Some (set_ui (\<lambda>s. s\<lparr>showThankYou := False, stage := Feedback\<rparr>) w)"
| "run_task (Explanation_Pending score cat finalKpis) (Service_Replies i r) w =
     Some (schedule Result_Timer (set_ui (\<lambda>s. s\<lparr>aiExplanation := explanation_of cat r\<rparr>) w))"
| "run_task (Storage_Pending key value) (Storage_Settles i ok) w =
     Some (schedule Feedback_Timer (if ok then w\<lparr>store := (store w)(key \<mapsto> value)\<rparr> else w))"
| "run_task t e w = None"

text \<open>The \<open>onClick\<close> and \<open>onChange\<close> handlers of each screen.  The intro screen's start
  button (lines 273--295):\<close>

fun intro_event :: "event \<Rightarrow> world \<Rightarrow> world option" where
  "intro_event Click_Start w = Some (set_ui (\<lambda>s. s\<lparr>stage := Questions\<rparr>) w)"
| "intro_event e w = None"

text \<open>The question screen (lines 479--519): an option button answers with its value; the
  range input sets \<open>sliderValue\<close> to a position it can report; Continue answers with
  \<open>sliderValue\<close>.\<close>

fun question_event :: "question_input \<Rightarrow> event \<Rightarrow> world \<Rightarrow> world option" where
  "question_event (Options vs) (Click_Option j) w =
     (if j < length vs then Some (handleAnswer (vs ! j) w) else None)"
| "question_event (Slider lo hi st) (Slider_Input v) w =
     (if v \<in> set (range_values lo hi st) then Some (set_ui (\<lambda>s. s\<lparr>sliderValue := v\<rparr>) w) else None)"
| "question_event (Slider lo hi st) Click_Continue w = Some (handleAnswer (sliderValue (ui w)) w)"
| "question_event inp e w = None"

text \<open>The result screen (lines 873--905): the two feedback buttons, always shown, and the
  reset button.\<close>

fun result_event :: "event \<Rightarrow> world \<Rightarrow> world option" where
  "result_event (Click_Feedback b now clock) w = Some (handleFeedback b now clock w)"
| "result_event Click_Home w = Some (handleReset w)"
| "result_event e w = None"

text \<open>The feedback screen's home button (lines 1129--1141).\<close>

fun feedback_event :: "event \<Rightarrow> world \<Rightarrow> world option" where
  "feedback_event Click_Home w = Some (handleReset w)"
| "feedback_event e w = None"

text \<open>The user's events on the screen the component shows; the loading screen has none.\<close>

fun user_step :: "view \<Rightarrow> event \<Rightarrow> world \<Rightarrow> world option" where
  "user_step Intro_View e w = intro_event e w"
| "user_step (Question_View n m inp l) e w = question_event inp e w"
| "user_step Loading_View e w = None"
| "user_step (Result_View sc col em ex ty) e w = result_event e w"
| "user_step Feedback_View e w = feedback_event e w"

text \<open>After each event React renders; a render that throws unmounts the component.\<close>

definition commit :: "world \<Rightarrow> world" where
  "commit w = w\<lparr>mounted := mounted w \<and> render (ui w) \<noteq> Inl TypeError\<rparr>"

fun app_step :: "world \<Rightarrow> event \<Rightarrow> world option" where
  "app_step w (Timer_Fires i) =
     (if i < length (tasks w) then map_option commit (run_task (tasks w ! i) (Timer_Fires i) (remove_task i w))
      else None)"
| "app_step w (Service_Replies i r) =
     (if i < length (tasks w) then map_option commit (run_task (tasks w ! i) (Service_Replies i r) (remove_task i w))
      else None)"
| "app_step w (Storage_Settles i ok) =
     (if i < length (tasks w) then map_option commit (run_task (tasks w ! i) (Storage_Settles i ok) (remove_task i w))
      else None)"
| "app_step w e =
     (if mounted w then (case render (ui w) of
         Inl err \<Rightarrow> None
       | Inr v \<Rightarrow> map_option commit (user_step v e w))
      else None)"

fun app_run :: "world \<Rightarrow> event list \<Rightarrow> world option" where
  "app_run w [] = Some w"
| "app_run w (e # es) = (case app_step w e of None \<Rightarrow> None | Some w' \<Rightarrow> app_run w' es)"

text \<open>The definitions a run unfolds when it is evaluated on a concrete event list.  The
  score, the category and the request stay symbolic: a run computes which of them it
  calls, not their values.\<close>

lemmas step_defs = QUESTIONS_def world_init_def crushbot_init_def render_def slider_label_of_def
  set_ui_def schedule_def handleAnswer_def advance_def processResults_def handleFeedback_def
  handleReset_def remove_task_def commit_def Let_def

declare crushbot_init_def [model_eval] getScoreColor_def [model_eval] getScoreEmoji_def [model_eval]
  slider_label_of_def [model_eval] render_def [model_eval] world_init_def [model_eval]
  set_ui_def [model_eval] schedule_def [model_eval] handleAnswer_def [model_eval]
  processResults_def [model_eval] advance_def [model_eval] handleFeedback_def [model_eval]
  handleReset_def [model_eval] remove_task_def [model_eval] commit_def [model_eval]

end
