(* ===== verification/Session.thy ===== *)
theory Session
  imports App
begin

text \<open>
  Properties of the component's runs (src/src/App.jsx, lines 180--267 with the screens that
  offer each event).  First the effect of each handler on a mounted component, as record
  updates.  Then the runs of a patient user, who acts only when no timer, request or
  storage write is pending (\<open>patient\<close>, an inductive predicate over worlds): the
  invariant \<open>patient_inv\<close> holds in each of them, proved one step kind at a time
  (\<open>patient_inv_task\<close>, \<open>patient_inv_user\<close>) and by rule induction.  From it: the
  component is never unmounted, a result always shows the score of complete answers, and
  the explanation request is sent exactly once per questionnaire.  Last, facts of every
  step, patient or not: what \<open>Click_Home\<close> resets and what it leaves pending, what an
  unmounted component still does, and where requests come from.
\<close>

subsection \<open>The pending callbacks' weight\<close>

text \<open>Each pending callback weighs one more than the callbacks it may start: the answer
  timer may start the explanation request, which starts the result timer; the storage
  write starts the feedback timer.\<close>

fun task_weight :: "task \<Rightarrow> nat" where
  "task_weight (Advance_Timer i k) = 3"
| "task_weight (Explanation_Pending sc c k) = 2"
| "task_weight Result_Timer = 1"
| "task_weight (Storage_Pending key value) = 2"
| "task_weight Feedback_Timer = 1"

definition pending_weight :: "task list \<Rightarrow> nat" where
  "pending_weight ts = sum_list (map task_weight ts)"

subsection \<open>The patient invariant\<close>

text \<open>The first \<open>n\<close> KPIs of the weight table are present, each in [0, 1].\<close>
definition kpis_upto :: "nat \<Rightarrow> kpis \<Rightarrow> bool" where
  "kpis_upto n k \<longleftrightarrow> list_all (\<lambda>key. case k key of None \<Rightarrow> False | Some v \<Rightarrow> in_unit v) (take n (map fst WEIGHTS))"

definition scored :: "crushbot \<Rightarrow> bool" where
  "scored s \<longleftrightarrow> kpis_upto (length WEIGHTS) (kpis s) \<and> finalScore s = Some (calculateFinalScore (kpis s)) \<and>
     category s = Some (getCategoryFromScore (calculateFinalScore (kpis s)))"

fun feedback_pending :: "task list \<Rightarrow> bool" where
  "feedback_pending [Storage_Pending key value] = True"
| "feedback_pending [Feedback_Timer] = True"
| "feedback_pending ts = False"

definition patient_inv :: "world \<Rightarrow> bool" where
  "patient_inv w \<longleftrightarrow> mounted w \<and> in_unit (sliderValue (ui w)) \<and>
     (let s = ui w; i = currentQuestionIndex s in case stage s of
        Intro \<Rightarrow> tasks w = [] \<and> i = 0 \<and> \<not> showThankYou s
      | Questions \<Rightarrow> i < length QUESTIONS \<and> kpis_upto i (kpis s) \<and> \<not> showThankYou s \<and>
          (tasks w = [] \<or> tasks w = [Advance_Timer i (kpis s)] \<and> kpis_upto (Suc i) (kpis s))
      | Loading \<Rightarrow> scored s \<and> \<not> showThankYou s \<and>
          (tasks w = [Explanation_Pending (calculateFinalScore (kpis s))
                        (getCategoryFromScore (calculateFinalScore (kpis s))) (kpis s)]
           \<or> tasks w = [Result_Timer])
      | Result \<Rightarrow> scored s \<and> (if showThankYou s then feedback_pending (tasks w) else tasks w = [])
      | Feedback \<Rightarrow> tasks w = [] \<and> \<not> showThankYou s)"

text \<open>The worlds a patient user reaches: the user acts only when no callback is pending;
  the environment delivers any pending callback at any time.\<close>

inductive patient :: "world \<Rightarrow> bool" where
  patient_init: "patient world_init"
| patient_user: "patient w \<Longrightarrow> tasks w = [] \<Longrightarrow> user_event e \<Longrightarrow> app_step w e = Some w' \<Longrightarrow> patient w'"
| patient_env: "patient w \<Longrightarrow> \<not> user_event e \<Longrightarrow> app_step w e = Some w' \<Longrightarrow> patient w'"

text \<open>A run of events in which every user event comes when nothing is pending; \<open>None\<close> when
  a user event comes too early or a step is not enabled.\<close>

fun patient_run :: "world \<Rightarrow> event list \<Rightarrow> world option" where
  "patient_run w [] = Some w"
| "patient_run w (e # es) =
     (if user_event e \<and> tasks w \<noteq> [] then None
      else case app_step w e of None \<Rightarrow> None | Some w' \<Rightarrow> patient_run w' es)"

lemma kpis_upto_update:
  assumes "kpis_upto i k" "i < length WEIGHTS" "in_unit v"
  shows "kpis_upto (Suc i) (k(map fst WEIGHTS ! i \<mapsto> v))"
  using assms unfolding kpis_upto_def
  by (auto simp: take_Suc_conv_app_nth list_all_iff split: option.splits)

lemma scored_processed:
  "kpis_upto (length WEIGHTS) k \<Longrightarrow> scored (s\<lparr>kpis := k, finalScore := Some (calculateFinalScore k),
     category := Some (getCategoryFromScore (calculateFinalScore k))\<rparr>)"
  by (simp add: scored_def)

subsection \<open>Handlers on a mounted component\<close>

lemma scored_upd [simp]:
  "scored (s\<lparr>aiExplanation := x\<rparr>) = scored s" "scored (s\<lparr>stage := st\<rparr>) = scored s"
  "scored (s\<lparr>showThankYou := b\<rparr>) = scored s" "scored (s\<lparr>showThankYou := b, stage := st\<rparr>) = scored s"
  by (simp_all add: scored_def)

lemma render_error_iff [simp]:
  "render s = Inl TypeError \<longleftrightarrow> stage s = Questions \<and> length QUESTIONS \<le> currentQuestionIndex s"
  by (cases "stage s") (auto simp: render_def)

lemma render_ok_iff:
  "(\<exists>v. render s = Inr v) \<longleftrightarrow> \<not> (stage s = Questions \<and> length QUESTIONS \<le> currentQuestionIndex s)"
proof (cases "render s")
  case (Inl a)
  then have e: "render s = Inl TypeError" by (cases a) simp
  then have "stage s = Questions \<and> length QUESTIONS \<le> currentQuestionIndex s"
    by (simp only: render_error_iff)
  with e show ?thesis by (simp del: render_error_iff)
next
  case (Inr v)
  then show ?thesis using render_error_iff[of s] by (metis sum.distinct(1))
qed

lemma commit_eq:
  "commit w = (if stage (ui w) = Questions \<and> length QUESTIONS \<le> currentQuestionIndex (ui w)
     then w\<lparr>mounted := False\<rparr> else w)"
  by (simp add: commit_def)

lemma set_ui_mounted [simp]: "mounted w \<Longrightarrow> set_ui f w = w\<lparr>ui := f (ui w)\<rparr>"
  by (simp add: set_ui_def)

lemma set_ui_unmounted [simp]: "\<not> mounted w \<Longrightarrow> set_ui f w = w"
  by (simp add: set_ui_def)

lemma advance_mounted:
  "mounted w \<Longrightarrow> advance idx k w =
     (if idx < length QUESTIONS - 1
      then w\<lparr>ui := (ui w)\<lparr>currentQuestionIndex := Suc (currentQuestionIndex (ui w)), sliderValue := fl (5/10)\<rparr>\<rparr>
      else w\<lparr>ui := (ui w)\<lparr>stage := Loading, finalScore := Some (calculateFinalScore k),
               category := Some (getCategoryFromScore (calculateFinalScore k))\<rparr>,
             tasks := tasks w @ [Explanation_Pending (calculateFinalScore k) (getCategoryFromScore (calculateFinalScore k)) k],
             requests := requests w @ [ai_request_of (calculateFinalScore k) (getCategoryFromScore (calculateFinalScore k)) k]\<rparr>)"
  by (simp add: advance_def processResults_def schedule_def Let_def)

lemma remove_task_single: "tasks w = [t] \<Longrightarrow> remove_task 0 w = w\<lparr>tasks := []\<rparr>"
  by (simp add: remove_task_def)

lemma patient_inv_tasks: "patient_inv w \<Longrightarrow> length (tasks w) \<le> 1"
  by (cases "stage (ui w)") (auto simp: patient_inv_def Let_def elim: feedback_pending.elims split: if_splits)

text \<open>A pending task that runs keeps the invariant: a patient world has at most one.\<close>

lemma patient_inv_task:
  assumes inv: "patient_inv w" and i: "i < length (tasks w)"
    and run: "run_task (tasks w ! i) e (remove_task i w) = Some w0"
  shows "patient_inv (commit w0)"
proof -
  from inv i patient_inv_tasks[OF inv] obtain t where t: "tasks w = [t]" and i0: "i = 0"
    by (cases "tasks w") auto
  have m: "mounted w" using inv by (simp add: patient_inv_def)
  have run0: "run_task t e (w\<lparr>tasks := []\<rparr>) = Some w0"
    using run t i0 by (simp add: remove_task_single)
  show ?thesis
  proof (cases "stage (ui w)")
    case Questions
    have last: "\<not> currentQuestionIndex (ui w) < 6 \<Longrightarrow> Suc (currentQuestionIndex (ui w)) = 7"
      using inv Questions by (simp add: patient_inv_def Let_def QUESTIONS_length)
    with Questions inv t run0 m show ?thesis
      by (auto simp: last patient_inv_def Let_def advance_mounted commit_eq scored_def
          QUESTIONS_length_WEIGHTS length_WEIGHTS elim!: run_task.elims split: if_splits)
  next
    case Loading
    with inv t run0 m show ?thesis
      by (auto simp: patient_inv_def Let_def schedule_def commit_eq elim!: run_task.elims)
  next
    case Result
    with inv t run0 m show ?thesis
      by (auto simp: patient_inv_def Let_def schedule_def commit_eq
          elim!: run_task.elims feedback_pending.elims split: if_splits)
  qed (use inv t in \<open>auto simp: patient_inv_def Let_def\<close>)
qed

lemma handleAnswer_mounted:
  "mounted w \<Longrightarrow> handleAnswer v w =
     (let s = ui w; q = QUESTIONS ! currentQuestionIndex s; k = (kpis s)(kpi q \<mapsto> v)
      in w\<lparr>ui := s\<lparr>answers := (answers s)(question_id q \<mapsto> v), kpis := k\<rparr>,
           tasks := tasks w @ [Advance_Timer (currentQuestionIndex s) k]\<rparr>)"
  by (simp add: handleAnswer_def schedule_def Let_def)

lemma handleFeedback_mounted:
  "mounted w \<Longrightarrow> handleFeedback b now clock w =
     w\<lparr>ui := (ui w)\<lparr>showThankYou := True\<rparr>,
       tasks := tasks w @ [Storage_Pending (feedback_key now)
         (feedback_json (finalScore (ui w)) (category (ui w)) b (iso_string clock))]\<rparr>"
  by (simp add: handleFeedback_def schedule_def)

lemma kpis_upto_Suc_imp: "kpis_upto (Suc i) k \<Longrightarrow> kpis_upto i k"
proof -
  have "set (take i xs) \<subseteq> set (take (Suc i) xs)" for xs :: "string list"
    by (rule set_take_subset_set_take) simp
  then show "kpis_upto (Suc i) k \<Longrightarrow> kpis_upto i k"
    unfolding kpis_upto_def list_all_iff by blast
qed

lemma patient_inv_answer:
  assumes inv: "patient_inv w" and tw: "tasks w = []" and q: "stage (ui w) = Questions"
    and v: "in_unit v"
  shows "patient_inv (commit (handleAnswer v w))"
proof -
  let ?i = "currentQuestionIndex (ui w)"
  have i: "?i < length QUESTIONS" and m: "mounted w" and k: "kpis_upto ?i (kpis (ui w))"
    using inv q by (simp_all add: patient_inv_def Let_def)
  have k': "kpis_upto (Suc ?i) ((kpis (ui w))(kpi (QUESTIONS ! ?i) \<mapsto> v))"
    using kpis_upto_update[OF k] i v
    by (simp add: kpi_QUESTIONS QUESTIONS_length_WEIGHTS)
  show ?thesis
    using inv tw q i m k' kpis_upto_Suc_imp[OF k']
    by (simp add: patient_inv_def handleAnswer_mounted Let_def commit_eq)
qed

text \<open>An event of the user on the screen shown keeps the invariant, when nothing is pending.\<close>

lemma patient_inv_user:
  assumes inv: "patient_inv w" and tw: "tasks w = []" and r: "render (ui w) = Inr v"
    and step: "user_step v e w = Some w0"
  shows "patient_inv (commit w0)"
proof (cases "stage (ui w)")
  case Intro
  with inv tw r step show ?thesis
    by (cases e) (auto simp: patient_inv_def render_def commit_eq Let_def kpis_upto_def QUESTIONS_length)
next
  case Questions
  then have i: "currentQuestionIndex (ui w) < length QUESTIONS"
    using inv by (simp add: patient_inv_def Let_def)
  then have rv: "v = Question_View (Suc (currentQuestionIndex (ui w))) (length QUESTIONS)
      (input (QUESTIONS ! currentQuestionIndex (ui w))) (slider_label_of (sliderValue (ui w)))"
    using r Questions by (simp add: render_def)
  show ?thesis
  proof (cases "input (QUESTIONS ! currentQuestionIndex (ui w))")
    case (Options vs)
    with step rv obtain j where "j < length vs" "w0 = handleAnswer (vs ! j) w"
      by (cases e) (auto split: if_splits)
    with Options show ?thesis
      using answer_in_unit[OF i, of "vs ! j"] by (auto intro!: patient_inv_answer[OF inv tw Questions])
  next
    case (Slider lo hi st)
    from step rv Slider
    consider (input) x where "x \<in> set (range_values lo hi st)" "w0 = set_ui (\<lambda>s. s\<lparr>sliderValue := x\<rparr>) w"
      | (continue) "w0 = handleAnswer (sliderValue (ui w)) w"
      by (cases e) (auto split: if_splits)
    then show ?thesis
    proof cases
      case input
      then have "in_unit x" using answer_in_unit[OF i] Slider by simp
      with input inv i Questions show ?thesis
        by (simp add: patient_inv_def Let_def commit_eq)
    next
      case continue
      have "in_unit (sliderValue (ui w))" using inv by (simp add: patient_inv_def)
      then show ?thesis using continue by (simp add: patient_inv_answer[OF inv tw Questions])
    qed
  qed
next
  case Loading
  with r step show ?thesis
    by (auto simp: render_def)
next
  case Result
  with inv tw r step show ?thesis
    by (cases e) (auto simp: patient_inv_def render_def commit_eq handleFeedback_mounted handleReset_def crushbot_init_def
        Let_def)
next
  case Feedback
  with inv tw r step show ?thesis
    by (cases e) (auto simp: patient_inv_def render_def commit_eq handleReset_def crushbot_init_def Let_def)
qed

lemma commit_sel [simp]:
  "ui (commit w) = ui w" "tasks (commit w) = tasks w" "requests (commit w) = requests w" "store (commit w) = store w"
  by (simp_all add: commit_def)

lemma app_step_cases:
  assumes "app_step w e = Some w'"
  obtains (user) v w0 where "user_event e" "mounted w" "render (ui w) = Inr v" "user_step v e w = Some w0"
      "w' = commit w0"
    | (task) i w0 where "\<not> user_event e" "i < length (tasks w)"
      "run_task (tasks w ! i) e (remove_task i w) = Some w0" "w' = commit w0"
      "e = Timer_Fires i \<or> (\<exists>r. e = Service_Replies i r) \<or> (\<exists>ok. e = Storage_Settles i ok)"
  using assms by (cases e) (auto split: if_splits sum.splits)

lemma question_event_frame:
  "question_event inp e w = Some w0 \<Longrightarrow> requests w0 = requests w \<and> stage (ui w0) = stage (ui w) \<and>
     currentQuestionIndex (ui w0) = currentQuestionIndex (ui w) \<and>
     (Result_Timer \<in> set (tasks w0) \<longleftrightarrow> Result_Timer \<in> set (tasks w))"
  by (cases inp; cases e) (auto simp: handleAnswer_def set_ui_def schedule_def Let_def split: if_splits)

lemma user_step_requests:
  assumes "render (ui w) = Inr v" "user_step v e w = Some w0"
  shows "requests w0 = requests w \<and> stage (ui w0) \<noteq> Loading"
proof (cases "stage (ui w) = Questions")
  case True
  then show ?thesis using assms question_event_frame
    by (auto simp: render_def split: if_splits)
next
  case False
  then show ?thesis using assms
    by (cases "stage (ui w)"; cases e)
       (auto simp: render_def set_ui_def handleFeedback_def handleReset_def schedule_def crushbot_init_def
         split: if_splits)
qed

lemma patient_inv_step:
  assumes "patient_inv w" "user_event e \<longrightarrow> tasks w = []" "app_step w e = Some w'"
  shows "patient_inv w'"
  using assms(3)
proof (cases rule: app_step_cases)
  case (user v w0)
  then show ?thesis using assms patient_inv_user by simp
next
  case (task i w0)
  then show ?thesis using assms(1) patient_inv_task by simp
qed

subsection \<open>Patient runs\<close>

lemma patient_inv_init: "patient_inv world_init"
  by (simp add: patient_inv_def world_init_def crushbot_init_def in_unit_def)

lemma patient_imp_inv: "patient w \<Longrightarrow> patient_inv w"
  by (induction rule: patient.induct) (auto intro: patient_inv_init patient_inv_step)

lemma patient_requests_step:
  assumes inv: "patient_inv w" and ev: "user_event e \<longrightarrow> tasks w = []" and step: "app_step w e = Some w'"
  shows "requests w' = (if stage (ui w) = Questions \<and> stage (ui w') = Loading
     then requests w @ [ai_request_of (calculateFinalScore (kpis (ui w')))
                          (getCategoryFromScore (calculateFinalScore (kpis (ui w')))) (kpis (ui w'))]
     else requests w)"
  using step
proof (cases rule: app_step_cases)
  case (user v w0)
  then show ?thesis using user_step_requests by simp
next
  case (task i w0)
  from inv task(2) patient_inv_tasks[OF inv] obtain t where t: "tasks w = [t]" and i0: "i = 0"
    by (cases "tasks w") auto
  have m: "mounted w" using inv by (simp add: patient_inv_def)
  have run0: "run_task t e (w\<lparr>tasks := []\<rparr>) = Some w0"
    using task t i0 by (simp add: remove_task_single)
  show ?thesis
  proof (cases "stage (ui w)")
    case Questions
    with inv t run0 m task(4) show ?thesis
      by (auto simp: patient_inv_def Let_def advance_mounted elim!: run_task.elims split: if_splits)
  qed (use inv t run0 m task(4) in \<open>auto simp: patient_inv_def Let_def schedule_def
         elim!: run_task.elims feedback_pending.elims split: if_splits\<close>)
qed


lemma patient_run_patient: "patient w \<Longrightarrow> patient_run w es = Some w' \<Longrightarrow> patient w'"
proof (induction es arbitrary: w)
  case (Cons e es)
  from Cons.prems(2) obtain w1 where s: "app_step w e = Some w1" and r: "patient_run w1 es = Some w'"
    and ok: "user_event e \<longrightarrow> tasks w = []"
    by (auto split: if_splits option.splits)
  have "patient w1"
    using Cons.prems(1) s ok by (cases "user_event e") (auto intro: patient.intros)
  then show ?case using Cons.IH r by blast
qed simp

lemma patient_requests_new:
  assumes "patient_inv w" "user_event e \<longrightarrow> tasks w = []" "app_step w e = Some w'"
    and "r \<in> set (requests w')"
  shows "r \<in> set (requests w) \<or> (\<exists>k. kpis_upto (length WEIGHTS) k \<and>
     r = ai_request_of (calculateFinalScore k) (getCategoryFromScore (calculateFinalScore k)) k)"
proof (cases "stage (ui w) = Questions \<and> stage (ui w') = Loading")
  case True
  then have "scored (ui w')"
    using patient_inv_step[OF assms(1-3)] by (simp add: patient_inv_def Let_def)
  then show ?thesis
    using patient_requests_step[OF assms(1-3)] assms(4) True by (auto simp: scored_def)
next
  case False
  then have "requests w' = requests w" using patient_requests_step[OF assms(1-3)] by metis
  then show ?thesis using assms(4) by simp
qed

lemma requests_advance:
  "requests (advance idx k w) = (if idx < length QUESTIONS - 1 then requests w
     else requests w @ [ai_request_of (calculateFinalScore k) (getCategoryFromScore (calculateFinalScore k)) k])"
  by (simp add: advance_def processResults_def set_ui_def schedule_def Let_def)

lemma run_task_requests:
  "run_task t e w = Some w0 \<Longrightarrow> requests w0 = requests w \<or> (\<exists>idx k. t = Advance_Timer idx k \<and>
     length QUESTIONS - 1 \<le> idx \<and>
     requests w0 = requests w @ [ai_request_of (calculateFinalScore k) (getCategoryFromScore (calculateFinalScore k)) k])"
  by (auto simp: requests_advance set_ui_def schedule_def elim!: run_task.elims split: if_splits)

lemma run_task_unmounted:
  "\<not> mounted w \<Longrightarrow> run_task t e w = Some w0 \<Longrightarrow> ui w0 = ui w \<and> \<not> mounted w0"
  by (auto simp: advance_def processResults_def schedule_def Let_def elim!: run_task.elims split: if_splits)

text \<open>A patient session to the result screen, and one waiting for the last timer.\<close>

lemma patient_result_world:
  "\<exists>w. patient_run world_init
      [Click_Start, Click_Option 1, Timer_Fires 0, Click_Continue, Timer_Fires 0,
       Click_Option 1, Timer_Fires 0, Click_Option 2, Timer_Fires 0, Click_Option 1, Timer_Fires 0,
       Click_Option 3, Timer_Fires 0, Click_Option 1, Timer_Fires 0, Service_Replies 0 Network_Error,
       Timer_Fires 0] = Some w \<and>
     stage (ui w) = Result \<and> requests w \<noteq> []"
  by (simp add: step_defs)

lemma patient_last_timer_world:
  "\<exists>w w'. patient_run world_init
      [Click_Start, Click_Option 1, Timer_Fires 0, Click_Continue, Timer_Fires 0,
       Click_Option 1, Timer_Fires 0, Click_Option 2, Timer_Fires 0, Click_Option 1, Timer_Fires 0,
       Click_Option 3, Timer_Fires 0, Click_Option 1] = Some w \<and>
     app_step w (Timer_Fires 0) = Some w'"
  by (simp add: step_defs)

text \<open>C4: a patient user never crashes the component: in every world a patient run reaches,
  the component is mounted and its render succeeds.\<close>

theorem patient_safe: "patient w \<Longrightarrow> mounted w \<and> (\<exists>v. render (ui w) = Inr v)"
  using patient_imp_inv[of w] by (auto simp: render_ok_iff patient_inv_def Let_def split: stage.splits)

theorem patient_safe_witness: "mounted world_init \<and> (\<exists>v. render (ui world_init) = Inr v)"
  using patient_safe[OF patient_init] .

text \<open>C5: every explanation request a patient run sends is the request of a complete KPI
  object: all seven weighted keys present with values in [0, 1], its score and its
  category.\<close>

theorem patient_requests_complete:
  assumes "patient w" "r \<in> set (requests w)"
  shows "\<exists>k. kpis_upto (length WEIGHTS) k \<and>
     r = ai_request_of (calculateFinalScore k) (getCategoryFromScore (calculateFinalScore k)) k"
  using assms
proof (induction arbitrary: r rule: patient.induct)
  case patient_init
  then show ?case by (simp add: world_init_def)
next
  case (patient_user w e w')
  then show ?case using patient_requests_new[OF patient_imp_inv] by blast
next
  case (patient_env w e w')
  then show ?case using patient_requests_new[OF patient_imp_inv] by blast
qed

theorem patient_requests_complete_witness:
  "\<exists>w. patient_run world_init
      [Click_Start, Click_Option 1, Timer_Fires 0, Click_Continue, Timer_Fires 0,
       Click_Option 1, Timer_Fires 0, Click_Option 2, Timer_Fires 0, Click_Option 1, Timer_Fires 0,
       Click_Option 3, Timer_Fires 0, Click_Option 1, Timer_Fires 0, Service_Replies 0 Network_Error,
       Timer_Fires 0] = Some w \<and>
    (\<exists>k. kpis_upto (length WEIGHTS) k \<and>
       hd (requests w) = ai_request_of (calculateFinalScore k) (getCategoryFromScore (calculateFinalScore k)) k)"
proof -
  obtain w where r: "patient_run world_init
      [Click_Start, Click_Option 1, Timer_Fires 0, Click_Continue, Timer_Fires 0,
       Click_Option 1, Timer_Fires 0, Click_Option 2, Timer_Fires 0, Click_Option 1, Timer_Fires 0,
       Click_Option 3, Timer_Fires 0, Click_Option 1, Timer_Fires 0, Service_Replies 0 Network_Error,
       Timer_Fires 0] = Some w" and q: "requests w \<noteq> []"
    using patient_result_world by blast
  have "hd (requests w) \<in> set (requests w)" using q by simp
  with patient_requests_complete[OF patient_run_patient[OF patient_init r]] r show ?thesis by blast
qed


text \<open>C6: in a patient run a step sends the explanation request exactly when it moves the
  component from the question screen to the loading screen, and sends at most one.\<close>

theorem patient_request_once:
  assumes "patient w" "user_event e \<longrightarrow> tasks w = []" "app_step w e = Some w'"
  shows "(requests w' \<noteq> requests w \<longleftrightarrow> stage (ui w) = Questions \<and> stage (ui w') = Loading) \<and>
    length (requests w') \<le> Suc (length (requests w))"
  using patient_requests_step[OF patient_imp_inv[OF assms(1)] assms(2,3)] by simp

theorem patient_request_once_witness:
  "\<exists>w w'. patient_run world_init
      [Click_Start, Click_Option 1, Timer_Fires 0, Click_Continue, Timer_Fires 0,
       Click_Option 1, Timer_Fires 0, Click_Option 2, Timer_Fires 0, Click_Option 1, Timer_Fires 0,
       Click_Option 3, Timer_Fires 0, Click_Option 1] = Some w \<and>
    app_step w (Timer_Fires 0) = Some w' \<and>
    (requests w' \<noteq> requests w \<longleftrightarrow> stage (ui w) = Questions \<and> stage (ui w') = Loading) \<and>
    length (requests w') \<le> Suc (length (requests w))"
proof -
  obtain w w' where r: "patient_run world_init
      [Click_Start, Click_Option 1, Timer_Fires 0, Click_Continue, Timer_Fires 0,
       Click_Option 1, Timer_Fires 0, Click_Option 2, Timer_Fires 0, Click_Option 1, Timer_Fires 0,
       Click_Option 3, Timer_Fires 0, Click_Option 1] = Some w" and s: "app_step w (Timer_Fires 0) = Some w'"
    using patient_last_timer_world by blast
  have "user_event (Timer_Fires 0) \<longrightarrow> tasks w = []" by simp
  from patient_request_once[OF patient_run_patient[OF patient_init r] this s] r s show ?thesis by blast
qed


text \<open>C11: in a patient run the result screen always shows the score and the category of
  a complete KPI object, the one the component holds.\<close>

theorem patient_result_scored:
  assumes "patient w" "stage (ui w) = Result"
  shows "kpis_upto (length WEIGHTS) (kpis (ui w)) \<and>
    finalScore (ui w) = Some (calculateFinalScore (kpis (ui w))) \<and>
    category (ui w) = Some (getCategoryFromScore (calculateFinalScore (kpis (ui w))))"
  using patient_imp_inv[OF assms(1)] assms(2) by (simp add: patient_inv_def scored_def Let_def)

theorem patient_result_scored_witness:
  "\<exists>w. patient_run world_init
      [Click_Start, Click_Option 1, Timer_Fires 0, Click_Continue, Timer_Fires 0,
       Click_Option 1, Timer_Fires 0, Click_Option 2, Timer_Fires 0, Click_Option 1, Timer_Fires 0,
       Click_Option 3, Timer_Fires 0, Click_Option 1, Timer_Fires 0, Service_Replies 0 Network_Error,
       Timer_Fires 0] = Some w \<and>
    kpis_upto (length WEIGHTS) (kpis (ui w)) \<and>
    finalScore (ui w) = Some (calculateFinalScore (kpis (ui w))) \<and>
    category (ui w) = Some (getCategoryFromScore (calculateFinalScore (kpis (ui w))))"
proof -
  obtain w where r: "patient_run world_init
      [Click_Start, Click_Option 1, Timer_Fires 0, Click_Continue, Timer_Fires 0,
       Click_Option 1, Timer_Fires 0, Click_Option 2, Timer_Fires 0, Click_Option 1, Timer_Fires 0,
       Click_Option 3, Timer_Fires 0, Click_Option 1, Timer_Fires 0, Service_Replies 0 Network_Error,
       Timer_Fires 0] = Some w" and st: "stage (ui w) = Result"
    using patient_result_world by blast
  from patient_result_scored[OF patient_run_patient[OF patient_init r] st] r show ?thesis by blast
qed


lemma run_task_advance_event: "run_task (Advance_Timer idx k) e w = Some w0 \<Longrightarrow> \<exists>j. e = Timer_Fires j"
  by (cases e) auto

lemma filter_remove_le:
  assumes "i < length xs"
  shows "length (filter P (take i xs @ drop (Suc i) xs)) \<le> length (filter P xs)"
proof -
  have "length (filter P xs) = length (filter P (take i xs @ drop i xs))" by simp
  also have "\<dots> = length (filter P (take i xs @ xs ! i # drop (Suc i) xs))"
    using Cons_nth_drop_Suc[OF assms] by simp
  finally show ?thesis by simp
qed

lemma question_event_result_timers:
  "question_event inp e w = Some w0 \<Longrightarrow> filter (\<lambda>t. t = Result_Timer) (tasks w0) = filter (\<lambda>t. t = Result_Timer) (tasks w)"
  by (cases inp; cases e) (auto simp: handleAnswer_def set_ui_def schedule_def Let_def split: if_splits)

lemma user_step_result_timers:
  "user_step v e w = Some w0 \<Longrightarrow> filter (\<lambda>t. t = Result_Timer) (tasks w0) = filter (\<lambda>t. t = Result_Timer) (tasks w)"
  using question_event_result_timers
  by (cases v; cases e) (auto simp: handleFeedback_def handleReset_def set_ui_def schedule_def)

lemma run_task_result_timers:
  "run_task t e w = Some w0 \<Longrightarrow> filter (\<lambda>t. t = Result_Timer) (tasks w0) = filter (\<lambda>t. t = Result_Timer) (tasks w) \<or>
     (\<exists>sc c k j r. t = Explanation_Pending sc c k \<and> e = Service_Replies j r)"
  by (auto simp: advance_def processResults_def set_ui_def schedule_def Let_def elim!: run_task.elims split: if_splits)

text \<open>C12: the reset button is offered on the result screen and on the feedback screen;
  it restores every hook to its initial value, and cancels none of the pending callbacks:
  the pending timers, requests and storage writes stay as they were.\<close>

theorem app_step_reset:
  assumes "app_step w Click_Home = Some w'"
  shows "stage (ui w) \<in> {Result, Feedback} \<and> ui w' = crushbot_init \<and> mounted w' \<and>
    tasks w' = tasks w \<and> requests w' = requests w \<and> store w' = store w"
  using assms
  by (cases "stage (ui w)")
     (auto simp: render_def handleReset_def commit_eq crushbot_init_def split: if_splits sum.splits)

theorem app_step_reset_witness:
  "\<exists>w'. app_step (world_init\<lparr>ui := crushbot_init\<lparr>stage := Result\<rparr>, tasks := [Feedback_Timer]\<rparr>) Click_Home = Some w' \<and>
    ui w' = crushbot_init \<and> tasks w' = [Feedback_Timer]"
proof -
  have s: "app_step (world_init\<lparr>ui := crushbot_init\<lparr>stage := Result\<rparr>, tasks := [Feedback_Timer]\<rparr>) Click_Home =
      Some ((world_init\<lparr>ui := crushbot_init\<lparr>stage := Result\<rparr>, tasks := [Feedback_Timer]\<rparr>)\<lparr>ui := crushbot_init\<rparr>)"
    by (simp add: step_defs)
  from app_step_reset[OF s] s show ?thesis by auto
qed


text \<open>Once a render has thrown, the component is gone for good: no user event is
  accepted, and a callback that still runs changes none of the state, while it may still
  send a request or write the store.\<close>

lemma app_step_unmounted:
  assumes "\<not> mounted w" "app_step w e = Some w'"
  shows "\<not> user_event e \<and> ui w' = ui w \<and> \<not> mounted w'"
  using assms(2)
proof (cases rule: app_step_cases)
  case (task i w0)
  then show ?thesis using run_task_unmounted[OF _ task(3)] assms(1)
    by (simp add: remove_task_def commit_def)
qed (use assms(1) in simp)

text \<open>C13: in every run, patient or not, a step sends at most one request, and only when
  it is the firing of a pending timer of the last question, with the KPI object that
  timer captured.\<close>

theorem app_step_requests:
  assumes "app_step w e = Some w'"
  shows "requests w' = requests w \<or> (\<exists>i idx k. e = Timer_Fires i \<and> i < length (tasks w) \<and>
    tasks w ! i = Advance_Timer idx k \<and> length QUESTIONS - 1 \<le> idx \<and>
    requests w' = requests w @ [ai_request_of (calculateFinalScore k) (getCategoryFromScore (calculateFinalScore k)) k])"
  using assms
proof (cases rule: app_step_cases)
  case (user v w0)
  then show ?thesis using user_step_requests by simp
next
  case (task i w0)
  show ?thesis
  proof (cases "requests w' = requests w")
    case False
    then obtain idx k where t: "tasks w ! i = Advance_Timer idx k" "length QUESTIONS - 1 \<le> idx"
        "requests w0 = requests (remove_task i w) @ [ai_request_of (calculateFinalScore k) (getCategoryFromScore (calculateFinalScore k)) k]"
      using run_task_requests[OF task(3)] task(4) by (auto simp: remove_task_def)
    have "e = Timer_Fires i" using run_task_advance_event[of idx k e] task(3,5) t(1) by auto
    then show ?thesis using t task by (auto simp: remove_task_def)
  qed simp
qed

theorem app_step_requests_witness:
  "\<exists>w'. app_step (world_init\<lparr>mounted := False, tasks := [Advance_Timer 6 Map.empty]\<rparr>) (Timer_Fires 0) = Some w' \<and>
    (requests w' = [] \<or> (\<exists>i idx k. Timer_Fires 0 = Timer_Fires i \<and> i < 1 \<and>
      [Advance_Timer 6 Map.empty] ! i = Advance_Timer idx k \<and> length QUESTIONS - 1 \<le> idx \<and>
      requests w' = [ai_request_of (calculateFinalScore k) (getCategoryFromScore (calculateFinalScore k)) k]))"
proof -
  obtain w' where s: "app_step (world_init\<lparr>mounted := False, tasks := [Advance_Timer 6 Map.empty]\<rparr>) (Timer_Fires 0) = Some w'"
    by (simp add: step_defs)
  from app_step_requests[OF s] s show ?thesis by (simp add: world_init_def)
qed


text \<open>C23: a feedback click on the result screen, with nothing pending, shows the thank-you
  and starts one storage write; when that write settles the store is updated exactly as
  \<open>recordFeedback(score, category, accurate)\<close> of the spec would, with the score and
  category on the screen, and a failed write leaves the store as it was; either way the
  feedback timer is the one thing pending.\<close>

theorem feedback_click_records:
  assumes "tasks w = []" "app_step w (Click_Feedback b now clock) = Some w1"
    and "app_step w1 (Storage_Settles 0 ok) = Some w2"
  shows "stage (ui w) = Result \<and> ui w2 = (ui w)\<lparr>showThankYou := True\<rparr> \<and> tasks w2 = [Feedback_Timer] \<and>
    store w2 = (if ok then record_feedback (store w) (finalScore (ui w)) (category (ui w)) b now clock
                else store w)"
proof -
  from assms(2) obtain v where m: "mounted w" and r: "render (ui w) = Inr v"
    and u: "user_step v (Click_Feedback b now clock) w = Some (handleFeedback b now clock w)"
    and w1: "w1 = commit (handleFeedback b now clock w)"
    by (cases rule: app_step_cases) (auto simp: render_def split: stage.splits if_splits)
  have st: "stage (ui w) = Result"
    using r u by (cases "stage (ui w)") (auto simp: render_def split: if_splits)
  have w1': "w1 = w\<lparr>ui := (ui w)\<lparr>showThankYou := True\<rparr>, tasks := [Storage_Pending (feedback_key now)
      (feedback_json (finalScore (ui w)) (category (ui w)) b (iso_string clock))]\<rparr>"
    using w1 m st assms(1) by (simp add: handleFeedback_mounted commit_eq)
  show ?thesis
    using assms(3) st by (auto simp: w1' remove_task_def schedule_def commit_eq record_feedback_def)
qed

theorem feedback_click_records_witness:
  "\<exists>w1 w2. app_step (world_init\<lparr>ui := crushbot_init\<lparr>stage := Result, finalScore := Some 77, category := Some High\<rparr>\<rparr>) (Click_Feedback True 5 5) = Some w1 \<and>
     app_step w1 (Storage_Settles 0 True) = Some w2 \<and>
     tasks w2 = [Feedback_Timer] \<and> store w2 = record_feedback Map.empty (Some 77) (Some High) True 5 5"
proof -
  obtain w1 w2 where s1: "app_step (world_init\<lparr>ui := crushbot_init\<lparr>stage := Result, finalScore := Some 77, category := Some High\<rparr>\<rparr>) (Click_Feedback True 5 5) = Some w1"
    and s2: "app_step w1 (Storage_Settles 0 True) = Some w2"
    by (simp add: step_defs)
  have t: "tasks (world_init\<lparr>ui := crushbot_init\<lparr>stage := Result, finalScore := Some 77, category := Some High\<rparr>\<rparr>) = []" by (simp add: world_init_def)
  from feedback_click_records[OF t s1 s2] s1 s2 show ?thesis by (simp add: world_init_def)
qed

lemma run_task_index:
  "run_task t e w = Some w0 \<Longrightarrow> currentQuestionIndex (ui w0) = currentQuestionIndex (ui w) \<or>
     currentQuestionIndex (ui w0) = Suc (currentQuestionIndex (ui w))"
  by (auto simp: advance_def processResults_def set_ui_def schedule_def Let_def
      elim!: run_task.elims split: if_splits)

lemma user_step_index:
  "user_step v e w = Some w0 \<Longrightarrow> currentQuestionIndex (ui w0) = currentQuestionIndex (ui w) \<or> ui w0 = crushbot_init"
  using question_event_frame[of _ e w w0]
  by (cases v; cases e)
     (auto simp: handleFeedback_def handleReset_def set_ui_def schedule_def split: if_splits)

text \<open>C24: the quiz never goes back to an earlier question: in every run, patient or not,
  a step keeps the question index, adds one to it, or resets the whole state (and with it
  the index to 0).\<close>

theorem app_step_index:
  assumes "app_step w e = Some w'"
  shows "currentQuestionIndex (ui w') = currentQuestionIndex (ui w) \<or>
    currentQuestionIndex (ui w') = Suc (currentQuestionIndex (ui w)) \<or> ui w' = crushbot_init"
  using assms
proof (cases rule: app_step_cases)
  case (user v w0)
  then show ?thesis using user_step_index[OF user(4)] by auto
next
  case (task i w0)
  then show ?thesis using run_task_index[OF task(3)] by (auto simp: remove_task_def)
qed

theorem app_step_index_witness:
  "\<exists>w'. app_step (world_init\<lparr>ui := crushbot_init\<lparr>stage := Questions\<rparr>, tasks := [Advance_Timer 0 Map.empty]\<rparr>)
      (Timer_Fires 0) = Some w' \<and> currentQuestionIndex (ui w') = 1"
proof -
  obtain w' where s: "app_step (world_init\<lparr>ui := crushbot_init\<lparr>stage := Questions\<rparr>,
      tasks := [Advance_Timer 0 Map.empty]\<rparr>) (Timer_Fires 0) = Some w'"
    and i: "currentQuestionIndex (ui w') = 1"
    by (simp add: step_defs)
  from app_step_index[OF s] s i show ?thesis by blast
qed

text \<open>C25: the result screen comes only after the explanation has resolved: in every run a
  step that enters the result screen is the firing of a pending result timer (and C26: a
  result timer is scheduled only by the reply to an explanation request).\<close>

theorem app_step_enters_result:
  assumes "app_step w e = Some w'" "stage (ui w) \<noteq> Result" "stage (ui w') = Result"
  shows "\<exists>i. e = Timer_Fires i \<and> i < length (tasks w) \<and> tasks w ! i = Result_Timer"
  using assms(1)
proof (cases rule: app_step_cases)
  case (user v w0)
  then show ?thesis using assms(2,3)
    using question_event_frame[of _ e w w0]
    by (cases v; cases e)
       (auto simp: handleFeedback_def handleReset_def set_ui_def schedule_def crushbot_init_def
         split: if_splits)
next
  case (task i w0)
  then show ?thesis using assms(2,3)
    by (auto simp: remove_task_def advance_def processResults_def set_ui_def schedule_def Let_def
        elim!: run_task.elims split: if_splits)
qed

lemma run_task_schedules_result:
  "run_task t e w = Some w0 \<Longrightarrow> Result_Timer \<in> set (tasks w0) \<Longrightarrow> Result_Timer \<notin> set (tasks w) \<Longrightarrow>
     \<exists>sc c k i r. t = Explanation_Pending sc c k \<and> e = Service_Replies i r"
  by (auto simp: advance_def processResults_def set_ui_def schedule_def Let_def
      elim!: run_task.elims split: if_splits)

theorem app_step_enters_result_witness:
  "\<exists>w'. app_step (world_init\<lparr>ui := crushbot_init\<lparr>stage := Loading\<rparr>, tasks := [Result_Timer]\<rparr>) (Timer_Fires 0) = Some w' \<and> stage (ui w') = Result \<and>
    (\<exists>i. Timer_Fires 0 = Timer_Fires i \<and> i < 1 \<and> [Result_Timer] ! i = Result_Timer)"
proof -
  obtain w' where s: "app_step (world_init\<lparr>ui := crushbot_init\<lparr>stage := Loading\<rparr>, tasks := [Result_Timer]\<rparr>) (Timer_Fires 0) = Some w'"
    and r: "stage (ui w') = Result"
    by (simp add: step_defs)
  have n: "stage (ui (world_init\<lparr>ui := crushbot_init\<lparr>stage := Loading\<rparr>, tasks := [Result_Timer]\<rparr>)) \<noteq> Result" by (simp add: world_init_def crushbot_init_def)
  from app_step_enters_result[OF s n r] s r show ?thesis by simp
qed

text \<open>C26: in every run a step that adds a result timer, whether or not one is already
  pending, is the reply of the text service to a pending explanation request.\<close>

theorem app_step_schedules_result:
  assumes "app_step w e = Some w'"
    and "length (filter (\<lambda>t. t = Result_Timer) (tasks w)) < length (filter (\<lambda>t. t = Result_Timer) (tasks w'))"
  shows "\<exists>i r sc c k. e = Service_Replies i r \<and> i < length (tasks w) \<and> tasks w ! i = Explanation_Pending sc c k"
  using assms(1)
proof (cases rule: app_step_cases)
  case (user v w0)
  then show ?thesis using assms(2) user_step_result_timers[of v e w w0] by simp
next
  case (task i w0)
  have le: "length (filter (\<lambda>t. t = Result_Timer) (tasks (remove_task i w))) \<le> length (filter (\<lambda>t. t = Result_Timer) (tasks w))"
    using filter_remove_le[OF task(2)] by (simp add: remove_task_def)
  obtain sc c k j r where "tasks w ! i = Explanation_Pending sc c k" "e = Service_Replies j r"
    using run_task_result_timers[OF task(3)] assms(2) le task(4) by auto
  then show ?thesis using task(2,5) by auto
qed

theorem app_step_schedules_result_witness:
  "\<exists>w'. app_step (world_init\<lparr>ui := crushbot_init\<lparr>stage := Loading\<rparr>, tasks := [Explanation_Pending 77 High Map.empty]\<rparr>) (Service_Replies 0 Network_Error) = Some w' \<and>
    tasks w' = [Result_Timer] \<and>
    (\<exists>i r sc c k. Service_Replies 0 Network_Error = Service_Replies i r \<and> i < 1 \<and>
       [Explanation_Pending 77 High Map.empty] ! i = Explanation_Pending sc c k)"
proof -
  obtain w' where s: "app_step (world_init\<lparr>ui := crushbot_init\<lparr>stage := Loading\<rparr>, tasks := [Explanation_Pending 77 High Map.empty]\<rparr>) (Service_Replies 0 Network_Error) = Some w'"
    and t: "tasks w' = [Result_Timer]"
    by (simp add: step_defs)
  have n: "length (filter (\<lambda>t. t = Result_Timer) (tasks (world_init\<lparr>ui := crushbot_init\<lparr>stage := Loading\<rparr>, tasks := [Explanation_Pending 77 High Map.empty]\<rparr>)))
      < length (filter (\<lambda>t. t = Result_Timer) (tasks w'))"
    using t by (simp add: world_init_def)
  from app_step_schedules_result[OF s n] s t show ?thesis by (simp add: world_init_def)
qed

lemma pending_weight_remove:
  "i < length ts \<Longrightarrow> pending_weight (take i ts @ drop (Suc i) ts) + task_weight (ts ! i) = pending_weight ts"
proof -
  assume "i < length ts"
  then have "ts = take i ts @ ts ! i # drop (Suc i) ts" by (rule id_take_nth_drop)
  then have "pending_weight ts = pending_weight (take i ts) + task_weight (ts ! i) + pending_weight (drop (Suc i) ts)"
    unfolding pending_weight_def by (metis add.assoc list.simps(9) map_append sum_list.Cons sum_list.append)
  then show ?thesis unfolding pending_weight_def by simp
qed

lemma run_task_weight:
  "run_task t e w = Some w0 \<Longrightarrow> pending_weight (tasks w0) < pending_weight (tasks w) + task_weight t"
  by (auto simp: pending_weight_def advance_def processResults_def set_ui_def schedule_def Let_def
      elim!: run_task.elims split: if_splits)

lemma env_step_weight:
  assumes "app_step w e = Some w'" "\<not> user_event e"
  shows "pending_weight (tasks w') < pending_weight (tasks w)"
  using assms(1)
proof (cases rule: app_step_cases)
  case (task i w0)
  then show ?thesis
    using run_task_weight[OF task(3)] pending_weight_remove[OF task(2)] by (simp add: remove_task_def)
qed (use assms(2) in simp)

text \<open>C28: without the user, the event loop comes to rest: every run of timer firings,
  service replies and storage settlements from a world is at most as long as the weight of
  the callbacks pending there, so the callbacks cannot keep rescheduling one another.\<close>

theorem env_run_terminates:
  "app_run w es = Some w' \<Longrightarrow> list_all (\<lambda>e. \<not> user_event e) es \<Longrightarrow> length es \<le> pending_weight (tasks w)"
proof (induction es arbitrary: w)
  case (Cons e es)
  then obtain w1 where s: "app_step w e = Some w1" and r: "app_run w1 es = Some w'"
    by (auto split: option.splits)
  have "pending_weight (tasks w1) < pending_weight (tasks w)"
    using env_step_weight[OF s] Cons.prems(2) by simp
  then show ?case using Cons.IH[OF r] Cons.prems(2) by simp
qed simp

theorem env_run_terminates_witness:
  "\<exists>w'. app_run (world_init\<lparr>ui := crushbot_init\<lparr>stage := Questions, currentQuestionIndex := 6\<rparr>,
      tasks := [Advance_Timer 6 Map.empty]\<rparr>) [Timer_Fires 0, Service_Replies 0 Network_Error, Timer_Fires 0] = Some w' \<and>
    length [Timer_Fires 0, Service_Replies 0 Network_Error, Timer_Fires 0] \<le>
      pending_weight (tasks (world_init\<lparr>ui := crushbot_init\<lparr>stage := Questions, currentQuestionIndex := 6\<rparr>,
        tasks := [Advance_Timer 6 Map.empty]\<rparr>))"
proof -
  obtain w' where r: "app_run (world_init\<lparr>ui := crushbot_init\<lparr>stage := Questions, currentQuestionIndex := 6\<rparr>,
      tasks := [Advance_Timer 6 Map.empty]\<rparr>) [Timer_Fires 0, Service_Replies 0 Network_Error, Timer_Fires 0] = Some w'"
    by (simp add: step_defs)
  have "list_all (\<lambda>e. \<not> user_event e) [Timer_Fires 0, Service_Replies 0 Network_Error, Timer_Fires 0]" by simp
  from env_run_terminates[OF r this] r show ?thesis by blast
qed

end
