(* ===== verification/Runs.thy ===== *)
theory Runs
  imports App
begin

text \<open>
  Runs of the component (src/src/App.jsx, lines 180--267 and the screens' \<open>onClick\<close>
  handlers), evaluated by unfolding the step definitions over a symbolic state.  The full
  questionnaire with symbolic answers gives the score of the answers and sends one
  request.  The double clicks the code lets through (the buttons stay enabled while the
  300 ms timer runs) and the callbacks a reset does not cancel are stated for every world
  in which they can happen: any answers so far, any requests already sent, any store.
  An event \<open>Timer_Fires i\<close> or \<open>Service_Replies i r\<close> delivers the \<open>i\<close>-th pending
  callback.
\<close>

text \<open>C3: a questionnaire answered once per question (any option of each option question,
  any slider position, the slider submitted with Continue), followed by the reply of the
  text service, ends on the result screen with nothing pending, the KPI object of the
  answers, its score and category, the explanation taken from the reply, and exactly one
  request sent, built from those KPIs.\<close>

theorem session_happy_path:
  assumes "j0 < 4" "j2 < 4" "j3 < 4" "j4 < 4" "j5 < 4" "j6 < 4"
    and "v \<in> set (range_values 0 1 (1/10))"
  shows "\<exists>w. app_run world_init
      [Click_Start, Click_Option j0, Timer_Fires 0, Slider_Input v, Click_Continue, Timer_Fires 0,
       Click_Option j2, Timer_Fires 0, Click_Option j3, Timer_Fires 0, Click_Option j4, Timer_Fires 0,
       Click_Option j5, Timer_Fires 0, Click_Option j6, Timer_Fires 0, Service_Replies 0 r, Timer_Fires 0]
      = Some w \<and> mounted w \<and> stage (ui w) = Result \<and> tasks w = [] \<and>
    kpis (ui w) = kpis_of [answer_values (input (QUESTIONS ! 0)) ! j0, v,
      answer_values (input (QUESTIONS ! 2)) ! j2, answer_values (input (QUESTIONS ! 3)) ! j3,
      answer_values (input (QUESTIONS ! 4)) ! j4, answer_values (input (QUESTIONS ! 5)) ! j5,
      answer_values (input (QUESTIONS ! 6)) ! j6] \<and>
    finalScore (ui w) = Some (calculateFinalScore (kpis (ui w))) \<and>
    category (ui w) = Some (getCategoryFromScore (calculateFinalScore (kpis (ui w)))) \<and>
    aiExplanation (ui w) = explanation_of (getCategoryFromScore (calculateFinalScore (kpis (ui w)))) r \<and>
    requests w = [ai_request_of (calculateFinalScore (kpis (ui w)))
                    (getCategoryFromScore (calculateFinalScore (kpis (ui w)))) (kpis (ui w))]"
  using assms by (simp add: kpis_of_7 step_defs)

theorem session_happy_path_witness:
  "\<exists>w. app_run world_init
      [Click_Start, Click_Option 1, Timer_Fires 0, Slider_Input (1/2), Click_Continue, Timer_Fires 0,
       Click_Option 2, Timer_Fires 0, Click_Option 0, Timer_Fires 0, Click_Option 3, Timer_Fires 0,
       Click_Option 1, Timer_Fires 0, Click_Option 2, Timer_Fires 0, Service_Replies 0 Network_Error,
       Timer_Fires 0] = Some w \<and> stage (ui w) = Result \<and> length (requests w) = 1"
proof -
  have v: "(1/2::rat) \<in> set (range_values 0 1 (1/10))"
    by (simp add: range_values_def image_iff) (rule bexI[where x = 5]; simp)
  show ?thesis
    using session_happy_path[of 1 2 0 3 1 2 "1/2" Network_Error, OF _ _ _ _ _ _ v]
    by (auto simp del: app_run.simps)
qed

lemmas run_defs = set_ui_def schedule_def handleAnswer_def advance_def processResults_def handleReset_def
  remove_task_def commit_def render_def Let_def

text \<open>C7: the option buttons stay enabled while the 300 ms timer runs, and each timer
  adds one to the index (\<open>prev => prev + 1\<close>): from any world on the sixth question
  (index 5) with nothing pending, two option clicks and their two timers bring the index to
  7, \<open>QUESTIONS[7]\<close> is undefined and the question screen's render throws: the component
  is unmounted, nothing is pending, and no request has been sent.\<close>

theorem double_click_crash:
  assumes "mounted w" "stage (ui w) = Questions" "currentQuestionIndex (ui w) = 5"
    and "j < 4" "j' < 4" "tasks w = []"
  shows "\<exists>w'. app_run w [Click_Option j, Click_Option j', Timer_Fires 0, Timer_Fires 0] = Some w' \<and>
    currentQuestionIndex (ui w') = 7 \<and> render (ui w') = Inl TypeError \<and> \<not> mounted w' \<and> tasks w' = [] \<and>
    requests w' = requests w"
  using assms by (simp add: run_defs length_QUESTIONS QUESTIONS_def)

theorem double_click_crash_witness:
  "\<exists>w'. app_run (world_init\<lparr>ui := crushbot_init\<lparr>stage := Questions, currentQuestionIndex := 5\<rparr>\<rparr>) [Click_Option 1, Click_Option 2, Timer_Fires 0, Timer_Fires 0] = Some w' \<and>
     \<not> mounted w' \<and> requests w' = []"
  using double_click_crash[of "(world_init\<lparr>ui := crushbot_init\<lparr>stage := Questions, currentQuestionIndex := 5\<rparr>\<rparr>)" 1 2]
  by (auto simp: world_init_def crushbot_init_def simp del: app_run.simps)

text \<open>C8: a double click on any option question before the last two (index below 5)
  skips the next question: both timers run, the index moves by two, the KPI object holds
  the answer to the clicked question (the second click's value) and nothing for the skipped
  one, and no request is sent.\<close>

theorem double_click_skips_question:
  assumes "mounted w" "stage (ui w) = Questions" "currentQuestionIndex (ui w) = i" "i < 5"
    and "input (QUESTIONS ! i) = Options vs" "j < length vs" "j' < length vs" "tasks w = []"
  shows "\<exists>w'. app_run w [Click_Option j, Click_Option j', Timer_Fires 0, Timer_Fires 0] = Some w' \<and>
    mounted w' \<and> stage (ui w') = Questions \<and> currentQuestionIndex (ui w') = i + 2 \<and> tasks w' = [] \<and>
    kpis (ui w') = (kpis (ui w))(kpi (QUESTIONS ! i) \<mapsto> vs ! j') \<and> requests w' = requests w"
  using assms by (simp add: run_defs length_QUESTIONS)

theorem double_click_skips_question_witness:
  "\<exists>w'. app_run (world_init\<lparr>ui := crushbot_init\<lparr>stage := Questions\<rparr>\<rparr>) [Click_Option 2, Click_Option 2, Timer_Fires 0, Timer_Fires 0] = Some w' \<and>
     currentQuestionIndex (ui w') = 2 \<and> kpis (ui w') ''conversation_initiation_ratio'' = None"
  using double_click_skips_question[of "(world_init\<lparr>ui := crushbot_init\<lparr>stage := Questions\<rparr>\<rparr>)" 0 "answer_values (input (QUESTIONS ! 0))" 2 2]
  by (auto simp: world_init_def crushbot_init_def QUESTIONS_def simp del: app_run.simps)

text \<open>C9: a double click on the last question runs \<open>processResults\<close> twice, whatever
  the state before: two explanation requests are sent, one for the KPI object of each
  click (identical when the same option is clicked twice).\<close>

theorem double_click_last_question_two_requests:
  assumes "mounted w" "stage (ui w) = Questions" "currentQuestionIndex (ui w) = 6"
    and "input (QUESTIONS ! 6) = Options vs" "j < length vs" "j' < length vs" "tasks w = []"
  shows "let k1 = (kpis (ui w))(kpi (QUESTIONS ! 6) \<mapsto> vs ! j); k2 = (kpis (ui w))(kpi (QUESTIONS ! 6) \<mapsto> vs ! j')
    in \<exists>w'. app_run w [Click_Option j, Click_Option j', Timer_Fires 0, Timer_Fires 0] = Some w' \<and>
      mounted w' \<and> stage (ui w') = Loading \<and>
      requests w' = requests w @
        [ai_request_of (calculateFinalScore k1) (getCategoryFromScore (calculateFinalScore k1)) k1,
         ai_request_of (calculateFinalScore k2) (getCategoryFromScore (calculateFinalScore k2)) k2]"
  using assms by (simp add: run_defs length_QUESTIONS)

theorem double_click_last_question_two_requests_witness:
  "\<exists>w'. app_run (world_init\<lparr>ui := crushbot_init\<lparr>stage := Questions, currentQuestionIndex := 6\<rparr>\<rparr>) [Click_Option 1, Click_Option 1, Timer_Fires 0, Timer_Fires 0] = Some w' \<and>
     length (requests w') = 2 \<and> requests w' ! 0 = requests w' ! 1"
  using double_click_last_question_two_requests[of "(world_init\<lparr>ui := crushbot_init\<lparr>stage := Questions, currentQuestionIndex := 6\<rparr>\<rparr>)" "answer_values (input (QUESTIONS ! 6))" 1 1]
  by (auto simp: world_init_def crushbot_init_def QUESTIONS_def Let_def simp del: app_run.simps)

text \<open>C10: \<open>handleReset\<close> does not cancel the feedback callback: from the result or the
  feedback screen with a feedback timer pending, a reset and then that timer leave the
  fresh state of the component on the feedback screen, with no score and no category.\<close>

theorem reset_keeps_feedback_timer:
  assumes "mounted w" "stage (ui w) = Result \<or> stage (ui w) = Feedback"
    and "k < length (tasks w)" "tasks w ! k = Feedback_Timer"
  shows "\<exists>w'. app_run w [Click_Home, Timer_Fires k] = Some w' \<and> mounted w' \<and>
    ui w' = crushbot_init\<lparr>stage := Feedback\<rparr>"
  using assms(2)
proof
  assume "stage (ui w) = Result"
  then show ?thesis using assms(1,3,4) by (simp add: run_defs crushbot_init_def)
next
  assume "stage (ui w) = Feedback"
  then show ?thesis using assms(1,3,4) by (simp add: run_defs crushbot_init_def)
qed

theorem reset_keeps_feedback_timer_witness:
  "\<exists>w'. app_run (world_init\<lparr>ui := crushbot_init\<lparr>stage := Result\<rparr>, tasks := [Feedback_Timer]\<rparr>)
     [Click_Home, Timer_Fires 0] = Some w' \<and> stage (ui w') = Feedback \<and> finalScore (ui w') = None"
  using reset_keeps_feedback_timer[of "world_init\<lparr>ui := crushbot_init\<lparr>stage := Result\<rparr>, tasks := [Feedback_Timer]\<rparr>" 0]
  by (auto simp: world_init_def crushbot_init_def simp del: app_run.simps)

text \<open>C27: \<open>handleReset\<close> does not cancel a pending explanation request either: after a
  reset, its reply and the result timer it starts bring the fresh state to the result
  screen, with the reply's explanation and no score and no category.\<close>

theorem reset_keeps_pending_explanation:
  assumes "mounted w" "stage (ui w) = Result \<or> stage (ui w) = Feedback"
    and "k < length (tasks w)" "tasks w ! k = Explanation_Pending sc c km"
  shows "\<exists>w'. app_run w [Click_Home, Service_Replies k r, Timer_Fires (length (tasks w) - 1)] = Some w' \<and>
    mounted w' \<and> ui w' = crushbot_init\<lparr>aiExplanation := explanation_of c r, stage := Result\<rparr>"
proof -
  have l: "length (take k (tasks w) @ drop (Suc k) (tasks w)) = length (tasks w) - 1"
    using assms(3) by simp
  have k1: "\<not> length (tasks w) - Suc 0 < k" using assms(3) by linarith
  show ?thesis
    using assms(2)
  proof
    assume "stage (ui w) = Result"
    then show ?thesis using assms(1,3,4) l k1 by (simp add: run_defs crushbot_init_def nth_append)
  next
    assume "stage (ui w) = Feedback"
    then show ?thesis using assms(1,3,4) l k1 by (simp add: run_defs crushbot_init_def nth_append)
  qed
qed

theorem reset_keeps_pending_explanation_witness:
  "\<exists>w'. app_run (world_init\<lparr>ui := crushbot_init\<lparr>stage := Result\<rparr>, tasks := [Explanation_Pending 15 Low Map.empty]\<rparr>)
     [Click_Home, Service_Replies 0 Network_Error, Timer_Fires 0] = Some w' \<and>
     stage (ui w') = Result \<and> finalScore (ui w') = None \<and> category (ui w') = None"
  using reset_keeps_pending_explanation[of "world_init\<lparr>ui := crushbot_init\<lparr>stage := Result\<rparr>, tasks := [Explanation_Pending 15 Low Map.empty]\<rparr>" 0 15 Low Map.empty Network_Error]
  by (auto simp: world_init_def crushbot_init_def simp del: app_run.simps)

end
