(* ===== verification/Calendar.thy ===== *)
theory Calendar
  imports Feedback
begin

text \<open>
  The date part of \<open>new Date().toISOString()\<close> (src/src/App.jsx, line 245), as
  \<open>civil_from_days\<close> of theory Feedback computes it, against ECMA-262's own definition of
  the calendar (21.4.1.3--21.4.1.5): \<open>DayFromYear\<close>, \<open>InLeapYear\<close>, and the month
  table of \<open>MonthFromTime\<close> and \<open>DateFromTime\<close>.  The algorithm counts days in eras of
  400 years (146097 days) of years starting on March 1; the lemmas below show that inside
  an era the years tile the days (\<open>era_tiling\<close>), that its year formula finds the year
  of each day (\<open>era_year\<close>), that its month formula finds the month
  (\<open>month_of_doy\<close>), and that the count of days before a March 1 agrees with
  \<open>DayFromYear\<close>.  The proofs decompose a year of the era as \<open>100 c + 4 q + r\<close>, so
  every division is linear.
\<close>

subsection \<open>ECMA-262's calendar\<close>

text \<open>\<open>DayFromYear(y)\<close>, with floor division; \<open>InLeapYear\<close> through \<open>DaysInYear\<close>; the
  first day of month \<open>m\<close> (1 to 12) within its year and the month's length, as the
  table of \<open>MonthFromTime\<close> and \<open>DateFromTime\<close> gives them.\<close>


definition day_from_year :: "int \<Rightarrow> int" where
  "day_from_year y = 365 * (y - 1970) + (y - 1969) div 4 - (y - 1901) div 100 + (y - 1601) div 400"

definition in_leap_year :: "int \<Rightarrow> bool" where
  "in_leap_year y \<longleftrightarrow> y mod 4 = 0 \<and> (y mod 100 \<noteq> 0 \<or> y mod 400 = 0)"

definition days_in_year :: "int \<Rightarrow> int" where
  "days_in_year y = (if in_leap_year y then 366 else 365)"

definition month_start :: "int \<Rightarrow> int \<Rightarrow> int" where
  "month_start y m = [0, 31, 59, 90, 120, 151, 181, 212, 243, 273, 304, 334] ! nat (m - 1) +
     (if in_leap_year y \<and> 3 \<le> m then 1 else 0)"

definition days_in_month :: "int \<Rightarrow> int \<Rightarrow> int" where
  "days_in_month y m = [31, 28, 31, 30, 31, 30, 31, 31, 30, 31, 30, 31] ! nat (m - 1) +
     (if in_leap_year y \<and> m = 2 then 1 else 0)"

subsection \<open>The algorithm's counts\<close>

text \<open>Days from 0000-03-01 to the March 1 that ends year \<open>y\<close>; within an era, the day a
  year starts on, its length, and the algorithm's year index of a day.\<close>

definition march_day_count :: "int \<Rightarrow> int" where
  "march_day_count y = 365 * y + y div 4 - y div 100 + y div 400"

definition era_year_index :: "int \<Rightarrow> int" where
  "era_year_index D = D - D div 1460 + D div 36524 - D div 146096"

definition era_year_start :: "int \<Rightarrow> int" where
  "era_year_start y = 365 * y + y div 4 - y div 100"

definition era_year_length :: "int \<Rightarrow> int" where
  "era_year_length y = era_year_start (y + 1) - era_year_start y + (if y = 399 then 1 else 0)"

lemma int_div_eqI: "k * q \<le> a \<Longrightarrow> a < k * q + k \<Longrightarrow> a div k = (q::int)"
  by (rule int_div_pos_eq[where r = "a - k * q"]) auto

lemma era_year_decomp:
  fixes y :: int
  assumes "0 \<le> y" "y \<le> 399"
  obtains c q r where "y = 100 * c + 4 * q + r" "0 \<le> c" "c \<le> 3" "0 \<le> q" "q \<le> 24" "0 \<le> r" "r \<le> 3"
proof -
  define c where "c = y div 100"
  define q where "q = y mod 100 div 4"
  define r where "r = y mod 100 mod 4"
  have m: "y mod 100 = 4 * q + r" unfolding q_def r_def by simp
  have y: "y = 100 * c + 4 * q + r" unfolding c_def using m by (metis add.assoc div_mult_mod_eq mult.commute)
  have "0 \<le> y mod 100" "y mod 100 < 100" "0 \<le> r" "r < 4" unfolding r_def by simp_all
  moreover have "0 \<le> c" unfolding c_def using assms(1) by simp
  moreover have "0 \<le> q" unfolding q_def by simp
  ultimately have "0 \<le> c" "c \<le> 3" "0 \<le> q" "q \<le> 24" "0 \<le> r" "r \<le> 3"
    using y m assms by linarith+
  then show thesis using that y by blast
qed

lemma era_year:
  assumes y: "0 \<le> y" "y \<le> 399" and d: "0 \<le> doy" "doy < era_year_length y"
  shows "era_year_index (era_year_start y + doy) div 365 = y"
proof -
  obtain c q r where yd: "y = 100 * c + 4 * q + r" and b: "0 \<le> c" "c \<le> 3" "0 \<le> q" "q \<le> 24"
      "0 \<le> r" "r \<le> 3"
    using era_year_decomp[OF y] by blast
  have d4: "y div 4 = 25 * c + q" using yd b by (intro int_div_eqI) auto
  have d100: "y div 100 = c" using yd b by (intro int_div_eqI) auto
  have s4: "(y + 1) div 4 = 25 * c + q + (if r = 3 then 1 else 0)"
    using yd b by (cases "r = 3") (simp_all add: int_div_eqI)
  have s100: "(y + 1) div 100 = c + (if r = 3 \<and> q = 24 then 1 else 0)"
    using yd b by (cases "r = 3 \<and> q = 24") (auto intro!: int_div_eqI)
  have y399: "y = 399 \<longleftrightarrow> c = 3 \<and> q = 24 \<and> r = 3" using yd b by linarith
  have leap: "era_year_length y = (if r = 3 \<and> (q \<noteq> 24 \<or> c = 3) then 366 else 365)"
    unfolding era_year_length_def era_year_start_def using d4 d100 s4 s100 y399 by auto
  have "era_year_start y = 365 * y + 24 * c + q" by (simp add: era_year_start_def d4 d100)
  then have Ny2: "era_year_start y = 36524 * c + 1461 * q + 365 * r" using yd by simp
  define D where "D = era_year_start y + doy"
  define t where "t = 24 * c + q + 365 * r + doy"
  have D: "D = 1460 * (25 * c + q) + t" unfolding D_def t_def Ny2 by simp
  have Lb: "doy \<le> 365" "doy \<le> 364 \<or> r = 3 \<and> (q \<noteq> 24 \<or> c = 3)" using d leap by (auto split: if_splits)
  have t1460: "D div 1460 = 25 * c + q + (if t \<ge> 1460 then 1 else 0)"
  proof (cases "t \<ge> 1460")
    case True
    have "t < 2920" unfolding t_def using b d Lb by linarith
    then have "D div 1460 = 25 * c + q + 1" using True D by (intro int_div_eqI) auto
    then show ?thesis using True by simp
  next
    case False
    have "0 \<le> t" unfolding t_def using b d by linarith
    then have "D div 1460 = 25 * c + q" using False D by (intro int_div_eqI) auto
    then show ?thesis using False by simp
  qed
  have u: "D = 36524 * c + (1461 * q + 365 * r + doy)" unfolding D_def Ny2 by simp
  have cent: "D div 36524 - D div 146096 = c"
  proof (cases "1461 * q + 365 * r + doy < 36524")
    case True
    then have "D div 36524 = c" using u b d by (intro int_div_eqI) auto
    moreover have "D div 146096 = 0" using True u b d by (intro int_div_eqI) auto
    ultimately show ?thesis by simp
  next
    case False
    then have "q = 24" "r = 3" "doy = 365" using b d Lb by linarith+
    then have "c = 3" using Lb by auto
    then have "D = 146096" using u \<open>q = 24\<close> \<open>r = 3\<close> \<open>doy = 365\<close> by simp
    then show ?thesis using \<open>c = 3\<close> by simp
  qed
  have f: "era_year_index D = 365 * y + doy - (if t \<ge> 1460 then 1 else 0)"
    unfolding era_year_index_def using t1460 cent u yd by linarith
  have "365 * y \<le> era_year_index D \<and> era_year_index D < 365 * y + 365"
  proof (cases "t \<ge> 1460")
    case True
    then have "1 \<le> doy" unfolding t_def using b by linarith
    then show ?thesis using f True Lb by auto
  next
    case False
    then have "doy \<le> 364" unfolding t_def using b d Lb by linarith
    then show ?thesis using f False d by auto
  qed
  then show ?thesis unfolding D_def by (intro int_div_eqI) auto
qed

lemma era_year_start_step: "0 \<le> y \<Longrightarrow> y < 399 \<Longrightarrow> era_year_start (y + 1) = era_year_start y + era_year_length y"
  by (simp add: era_year_length_def)

lemma era_year_length_pos: "0 \<le> y \<Longrightarrow> y \<le> 399 \<Longrightarrow> 1 \<le> era_year_length y"
proof -
  assume "0 \<le> y" "y \<le> 399"
  have "y div 4 \<le> (y + 1) div 4" "(y + 1) div 100 \<le> y div 100 + 1"
    by (simp_all add: zdiv_mono1)
  moreover have "0 \<le> (if y = 399 then 1 else 0 :: int)" by simp
  ultimately show ?thesis unfolding era_year_length_def era_year_start_def by (cases "y = 399") (simp_all add: algebra_simps)
qed

lemma era_tiling:
  assumes "0 \<le> D" "D \<le> 146096"
  shows "\<exists>y doy. 0 \<le> y \<and> y \<le> 399 \<and> 0 \<le> doy \<and> doy < era_year_length y \<and> D = era_year_start y + doy"
proof -
  have "\<forall>n::nat. int n \<le> 146096 \<longrightarrow> (\<exists>y doy. 0 \<le> y \<and> y \<le> 399 \<and> 0 \<le> doy \<and> doy < era_year_length y \<and> int n = era_year_start y + doy)"
  proof
    fix n :: nat
    show "int n \<le> 146096 \<longrightarrow> (\<exists>y doy. 0 \<le> y \<and> y \<le> 399 \<and> 0 \<le> doy \<and> doy < era_year_length y \<and> int n = era_year_start y + doy)"
    proof (induction n)
      case 0
      have "1 \<le> era_year_length 0" by (rule era_year_length_pos) simp_all
      then show ?case by (intro impI exI[of _ 0]) (simp add: era_year_start_def)
    next
      case (Suc n)
      show ?case
      proof
        assume le: "int (Suc n) \<le> 146096"
        then obtain y doy where h: "0 \<le> y" "y \<le> 399" "0 \<le> doy" "doy < era_year_length y" "int n = era_year_start y + doy"
          using Suc.IH by auto
        show "\<exists>y doy. 0 \<le> y \<and> y \<le> 399 \<and> 0 \<le> doy \<and> doy < era_year_length y \<and> int (Suc n) = era_year_start y + doy"
        proof (cases "doy + 1 < era_year_length y")
          case True
          then show ?thesis using h by (intro exI[of _ y] exI[of _ "doy + 1"]) simp
        next
          case False
          then have e: "int (Suc n) = era_year_start y + era_year_length y" using h by simp
          have "y \<noteq> 399"
          proof
            assume "y = 399"
            then have "era_year_start y + era_year_length y = 146097" by (simp add: era_year_length_def era_year_start_def)
            then show False using e le by simp
          qed
          then have "era_year_start (y + 1) = era_year_start y + era_year_length y" "1 \<le> era_year_length (y + 1)" using h by (simp_all add: era_year_start_step era_year_length_pos)
          then show ?thesis using h e \<open>y \<noteq> 399\<close> by (intro exI[of _ "y + 1"] exI[of _ 0]) simp
        qed
      qed
    qed
  qed
  then show ?thesis using assms by (metis nonneg_int_cases)
qed

lemma era_doy:
  assumes "0 \<le> D" "D \<le> 146096"
  shows "0 \<le> era_year_index D div 365 \<and> era_year_index D div 365 \<le> 399 \<and> 0 \<le> D - era_year_start (era_year_index D div 365) \<and>
    D - era_year_start (era_year_index D div 365) < era_year_length (era_year_index D div 365)"
proof -
  obtain y doy where h: "0 \<le> y" "y \<le> 399" "0 \<le> doy" "doy < era_year_length y" "D = era_year_start y + doy"
    using era_tiling[OF assms] by blast
  then have "era_year_index D div 365 = y" using era_year by blast
  then show ?thesis using h by simp
qed

lemma int_cases12: "0 \<le> x \<Longrightarrow> x \<le> (11::int) \<Longrightarrow>
  x = 0 \<or> x = 1 \<or> x = 2 \<or> x = 3 \<or> x = 4 \<or> x = 5 \<or> x = 6 \<or> x = 7 \<or> x = 8 \<or> x = 9 \<or> x = 10 \<or> x = 11"
  by presburger

lemma month_of_doy:
  fixes doy :: int
  assumes "0 \<le> doy" "doy \<le> 365"
  shows "0 \<le> (5 * doy + 2) div 153 \<and> (5 * doy + 2) div 153 \<le> 11 \<and>
    (153 * ((5 * doy + 2) div 153) + 2) div 5 \<le> doy \<and>
    doy < (153 * ((5 * doy + 2) div 153 + 1) + 2) div 5"
proof -
  define mp where "mp = (5 * doy + 2) div 153"
  have e: "5 * doy + 2 = 153 * mp + (5 * doy + 2) mod 153" unfolding mp_def by simp
  have r: "0 \<le> (5 * doy + 2) mod 153" "(5 * doy + 2) mod 153 < 153" by simp_all
  have "0 \<le> mp" unfolding mp_def using assms by simp
  moreover have "mp \<le> 11" using e r assms by linarith
  moreover have "(153 * mp + 2) div 5 \<le> doy"
  proof -
    have "(153 * mp + 2) div 5 \<le> (5 * doy + 4) div 5" using e r by (intro zdiv_mono1) linarith+
    also have "(5 * doy + 4) div 5 = doy" by (intro int_div_eqI) simp_all
    finally show ?thesis .
  qed
  moreover have "doy < (153 * (mp + 1) + 2) div 5"
  proof -
    have "doy + 1 = (5 * doy + 5) div 5" by (intro int_div_eqI[symmetric]) simp_all
    also have "\<dots> \<le> (153 * (mp + 1) + 2) div 5"
      using e r unfolding distrib_left by (intro zdiv_mono1) linarith+
    finally show ?thesis by simp
  qed
  ultimately show ?thesis unfolding mp_def by blast
qed

lemma div_step: "0 < (k::int) \<Longrightarrow> y div k - (y - 1) div k = (if y mod k = 0 then 1 else 0)"
proof -
  assume k: "0 < k"
  have e: "y = k * (y div k) + y mod k" by simp
  have r: "0 \<le> y mod k" "y mod k < k" using k by simp_all
  show ?thesis
  proof (cases "y mod k = 0")
    case True
    then have "(y - 1) div k = y div k - 1" using e k by (intro int_div_eqI) (simp_all add: algebra_simps)
    then show ?thesis using True by simp
  next
    case False
    then have "(y - 1) div k = y div k" using e r by (intro int_div_eqI) linarith+
    then show ?thesis using False by simp
  qed
qed

lemma days_in_year_count:
  fixes y :: int
  shows "days_in_year y = 365 + (if y mod 4 = 0 then 1 else 0) - (if y mod 100 = 0 then 1 else 0) + (if y mod 400 = 0 then 1 else 0)"
proof -
  have "(y mod 400) mod 100 = y mod 100" by (rule mod_mod_cancel) simp
  then have a: "y mod 400 = 0 \<Longrightarrow> y mod 100 = 0" by simp
  have "(y mod 100) mod 4 = y mod 4" by (rule mod_mod_cancel) simp
  then have b: "y mod 100 = 0 \<Longrightarrow> y mod 4 = 0" by simp
  show ?thesis
  proof (cases "y mod 4 = 0"; cases "y mod 100 = 0"; cases "y mod 400 = 0")
  qed (use a b in \<open>simp_all add: days_in_year_def in_leap_year_def\<close>)
qed

lemma march_day_count_step: "march_day_count (y::int) - march_day_count (y - 1) = days_in_year y"
proof -
  have d4: "y div 4 - (y - 1) div 4 = (if y mod 4 = 0 then 1 else 0)" by (rule div_step) simp
  have d100: "y div 100 - (y - 1) div 100 = (if y mod 100 = 0 then 1 else 0)" by (rule div_step) simp
  have d400: "y div 400 - (y - 1) div 400 = (if y mod 400 = 0 then 1 else 0)" by (rule div_step) simp
  have "march_day_count y - march_day_count (y - 1) = 365 + (y div 4 - (y - 1) div 4) - (y div 100 - (y - 1) div 100) +
      (y div 400 - (y - 1) div 400)"
    unfolding march_day_count_def by (simp add: algebra_simps)
  also have "\<dots> = days_in_year y" by (simp only: d4 d100 d400 days_in_year_count)
  finally show ?thesis .
qed

lemma day_from_year_march: "day_from_year y = march_day_count (y - 1) - 719162"
proof -
  have "(y - 1969) div 4 = (y - 1) div 4 - 492" using div_mult_self1[of 4 "y - 1" "- 492"] by simp
  moreover have "(y - 1901) div 100 = (y - 1) div 100 - 19" using div_mult_self1[of 100 "y - 1" "- 19"] by simp
  moreover have "(y - 1601) div 400 = (y - 1) div 400 - 4" using div_mult_self1[of 400 "y - 1" "- 4"] by simp
  ultimately show ?thesis unfolding day_from_year_def march_day_count_def by simp
qed

lemma march_day_count_era: "march_day_count (400 * era + yoe) = 146097 * era + era_year_start yoe + yoe div 400"
proof -
  have "(400 * era + yoe) div 4 = 100 * era + yoe div 4" using div_mult_self1[of 4 yoe "100 * era"] by (simp add: ac_simps)
  moreover have "(400 * era + yoe) div 100 = 4 * era + yoe div 100" using div_mult_self1[of 100 yoe "4 * era"] by (simp add: ac_simps)
  moreover have "(400 * era + yoe) div 400 = era + yoe div 400" using div_mult_self1[of 400 yoe era] by (simp add: ac_simps)
  ultimately show ?thesis unfolding march_day_count_def era_year_start_def by simp
qed

lemma era_year_length_days:
  assumes "0 \<le> yoe" "yoe \<le> 399"
  shows "era_year_length yoe = days_in_year (400 * era + yoe + 1)"
proof -
  have "yoe div 400 = 0" using assms by simp
  moreover have "(yoe + 1) div 400 = (if yoe = 399 then 1 else 0)" using assms by (cases "yoe = 399") simp_all
  ultimately have "(yoe + 1) div 400 - yoe div 400 = (if yoe = 399 then 1 else 0)" by simp
  then show ?thesis
    using march_day_count_step[of "400 * era + yoe + 1"] march_day_count_era[of era yoe] march_day_count_era[of era "yoe + 1"] unfolding era_year_length_def
    by (simp add: ac_simps)
qed

subsection \<open>Agreement with ECMA-262\<close>

text \<open>The fields of \<open>civil_from_days\<close> satisfy ECMA-262's conditions.\<close>

lemma civil_from_days_fields:
  "case civil_from_days z of (y, m, d) \<Rightarrow>
     1 \<le> m \<and> m \<le> 12 \<and> 1 \<le> d \<and> d \<le> days_in_month y m \<and>
     z = day_from_year y + month_start y m + d - 1 \<and>
     day_from_year y \<le> z \<and> z < day_from_year (y + 1)"
proof -
  define Z where "Z = z + 719468"
  define era where "era = Z div 146097"
  define doe where "doe = Z - era * 146097"
  have doe_mod: "doe = Z mod 146097" unfolding doe_def era_def by (simp add: minus_div_mult_eq_mod)
  have doe: "0 \<le> doe" "doe \<le> 146096" unfolding doe_mod by simp_all
  define yoe where "yoe = era_year_index doe div 365"
  have yoe_eq: "(doe - doe div 1460 + doe div 36524 - doe div 146096) div 365 = yoe"
    by (simp add: yoe_def era_year_index_def)
  define doy where "doy = doe - era_year_start yoe"
  have doy_eq: "doe - (365 * yoe + yoe div 4 - yoe div 100) = doy" by (simp add: doy_def era_year_start_def)
  have eb: "0 \<le> yoe" "yoe \<le> 399" "0 \<le> doy" "doy < era_year_length yoe"
    using era_doy[OF doe] unfolding yoe_def doy_def by auto
  define Yc where "Yc = 400 * era + yoe"
  have Ld: "era_year_length yoe = days_in_year (Yc + 1)" unfolding Yc_def using era_year_length_days[OF eb(1,2)] by simp
  have "days_in_year (Yc + 1) \<le> 366" by (simp add: days_in_year_def)
  then have doy365: "doy \<le> 365" using eb Ld by linarith
  define mp where "mp = (5 * doy + 2) div 153"
  have mb: "0 \<le> mp" "mp \<le> 11" "(153 * mp + 2) div 5 \<le> doy" "doy < (153 * (mp + 1) + 2) div 5"
    using month_of_doy[OF eb(3) doy365] unfolding mp_def by auto
  define d where "d = doy - (153 * mp + 2) div 5 + 1"
  define m where "m = (if mp < 10 then mp + 3 else mp - 9)"
  define y where "y = yoe + era * 400 + (if m \<le> 2 then 1 else 0)"
  have cfd: "civil_from_days z = (y, m, d)"
    by (simp only: civil_from_days_def Let_def Z_def[symmetric] era_def[symmetric] doe_def[symmetric]
        yoe_eq doy_eq mp_def[symmetric] d_def[symmetric] m_def[symmetric] y_def[symmetric])
  have "march_day_count Yc = 146097 * era + era_year_start yoe" using march_day_count_era[of era yoe] eb(1,2) unfolding Yc_def by simp
  then have zG: "z = march_day_count Yc + doy - 719468" unfolding doy_def using doe_def Z_def by linarith
  have dfy: "day_from_year x = march_day_count (x - 1) - 719162" for x by (rule day_from_year_march)
  have Gs: "march_day_count x - march_day_count (x - 1) = days_in_year x" for x by (rule march_day_count_step)
  have cases: "mp = 0 \<or> mp = 1 \<or> mp = 2 \<or> mp = 3 \<or> mp = 4 \<or> mp = 5 \<or> mp = 6 \<or> mp = 7 \<or>
      mp = 8 \<or> mp = 9 \<or> mp = 10 \<or> mp = 11" using int_cases12[OF mb(1,2)] .
  show ?thesis
  proof (cases "mp < 10")
    case True
    then have my: "m = mp + 3" "y = Yc" unfolding m_def y_def Yc_def using mb(1) by simp_all
    have tab: "month_start y m = 59 + (153 * mp + 2) div 5 + (if in_leap_year y then 1 else 0) \<and>
        days_in_month y m = (153 * (mp + 1) + 2) div 5 - (153 * mp + 2) div 5 \<and>
        month_start y m + days_in_month y m \<le> days_in_year y"
      using cases True unfolding my(1)
      by (elim disjE) (simp_all add: month_start_def days_in_month_def days_in_year_def)
    have ys: "day_from_year (y + 1) = day_from_year y + days_in_year y"
      using dfy[of y] dfy[of "y + 1"] Gs[of y] by simp
    have "z = day_from_year y + month_start y m + d - 1"
      using zG dfy[of y] Gs[of y] tab unfolding d_def my(2)
      by (simp add: days_in_year_def split: if_splits)
    then show ?thesis using cfd tab ys mb True unfolding d_def my(1) by auto
  next
    case False
    then have mp1011: "mp = 10 \<or> mp = 11" using mb(2) by linarith
    then have my: "m = mp - 9" "y = Yc + 1" unfolding m_def y_def Yc_def by auto
    have ys: "day_from_year (y + 1) = day_from_year y + days_in_year y"
      using dfy[of y] dfy[of "y + 1"] Gs[of y] by simp
    have dy: "days_in_year y = 365 + (if in_leap_year y then 1 else 0)" by (simp add: days_in_year_def)
    have doyL: "doy < days_in_year y" using eb(4) Ld my(2) by simp
    have zy: "z = day_from_year y + doy - 306" using zG dfy[of y] my(2) by simp
    from mp1011 show ?thesis
    proof
      assume "mp = 10"
      then show ?thesis using cfd zy ys dy mb unfolding d_def my
        by (simp add: month_start_def days_in_month_def)
    next
      assume "mp = 11"
      then show ?thesis using cfd zy ys dy mb doyL unfolding d_def my
        by (simp add: month_start_def days_in_month_def split: if_splits)
    qed
  qed
qed

subsection \<open>ECMA's fields are unique\<close>

lemma day_from_year_step: "day_from_year (y + 1) = day_from_year y + days_in_year y"
  using day_from_year_march[of y] day_from_year_march[of "y + 1"] march_day_count_step[of y] by simp

lemma day_from_year_mono: "a < b \<Longrightarrow> day_from_year a < day_from_year b"
proof -
  have "day_from_year a < day_from_year (a + 1 + int n)" for n
  proof (induction n)
    case 0
    then show ?case using day_from_year_step[of a] by (simp add: days_in_year_def)
  next
    case (Suc n)
    then show ?case using day_from_year_step[of "a + 1 + int n"] by (simp add: days_in_year_def add.assoc)
  qed
  moreover assume "a < b"
  then have "b = a + 1 + int (nat (b - a - 1))" by simp
  ultimately show ?thesis by metis
qed

lemma month_table:
  "1 \<le> m \<Longrightarrow> m \<le> 12 \<Longrightarrow> 0 \<le> month_start y m \<and> 28 \<le> days_in_month y m \<and> days_in_month y m \<le> 31 \<and>
     month_start y m + days_in_month y m \<le> days_in_year y \<and>
     (m < 12 \<longrightarrow> month_start y (m + 1) = month_start y m + days_in_month y m)"
  using int_cases12[of "m - 1"]
  by (auto simp: month_start_def days_in_month_def days_in_year_def)

lemma month_start_mono:
  assumes "1 \<le> m" "m < m'" "m' \<le> 12"
  shows "month_start y m + days_in_month y m \<le> month_start y m'"
proof -
  have "m + 1 + int n \<le> 12 \<Longrightarrow> month_start y m + days_in_month y m \<le> month_start y (m + 1 + int n)" for n
  proof (induction n)
    case 0
    then show ?case using month_table[of m y] assms(1) by simp
  next
    case (Suc n)
    then have "month_start y (m + 1 + int n + 1) = month_start y (m + 1 + int n) + days_in_month y (m + 1 + int n)"
      using month_table[of "m + 1 + int n" y] assms(1) by simp
    moreover have "0 \<le> days_in_month y (m + 1 + int n)" using month_table[of "m + 1 + int n" y] assms(1) Suc.prems by simp
    ultimately show ?case using Suc by (simp add: add.assoc)
  qed
  moreover have "m' = m + 1 + int (nat (m' - m - 1))" using assms by simp
  ultimately show ?thesis using assms by metis
qed

lemma ecma_date_year:
  assumes "1 \<le> m" "m \<le> 12" "1 \<le> d" "d \<le> days_in_month y m" "z = day_from_year y + month_start y m + d - 1"
  shows "day_from_year y \<le> z \<and> z < day_from_year (y + 1)"
  using month_table[OF assms(1,2), of y] assms day_from_year_step[of y] by auto

lemma ecma_date_unique:
  assumes "1 \<le> m" "m \<le> 12" "1 \<le> d" "d \<le> days_in_month y m" "z = day_from_year y + month_start y m + d - 1"
    and "1 \<le> m'" "m' \<le> 12" "1 \<le> d'" "d' \<le> days_in_month y' m'" "z = day_from_year y' + month_start y' m' + d' - 1"
  shows "y = y' \<and> m = m' \<and> d = d'"
proof -
  have a: "day_from_year y \<le> z" "z < day_from_year (y + 1)" using ecma_date_year[OF assms(1-5)] by auto
  have b: "day_from_year y' \<le> z" "z < day_from_year (y' + 1)" using ecma_date_year[OF assms(6-10)] by auto
  have y: "y = y'"
  proof (rule ccontr)
    assume "y \<noteq> y'"
    then have "y + 1 \<le> y' \<or> y' + 1 \<le> y" by linarith
    then show False
    proof
      assume "y + 1 \<le> y'"
      then have "day_from_year (y + 1) \<le> day_from_year y'"
        using day_from_year_mono[of "y + 1" y'] by (cases "y + 1 = y'") auto
      then show False using a b by simp
    next
      assume "y' + 1 \<le> y"
      then have "day_from_year (y' + 1) \<le> day_from_year y"
        using day_from_year_mono[of "y' + 1" y] by (cases "y' + 1 = y") auto
      then show False using a b by simp
    qed
  qed
  have m: "m = m'"
  proof (rule ccontr)
    assume "m \<noteq> m'"
    then have "m < m' \<or> m' < m" by linarith
    then show False
      using month_start_mono[of m m' y] month_start_mono[of m' m y] assms y by fastforce
  qed
  show ?thesis using y m assms by simp
qed

text \<open>\<open>civil_from_days\<close>, the date part of \<open>toISOString\<close>, is ECMA-262's calendar: for every
  day number \<open>z\<close> (days since 1970-01-01, of either sign) it returns \<open>(y, m, d)\<close> exactly
  when \<open>m\<close> is a month, \<open>d\<close> a day within that month of year \<open>y\<close> (29 February only
  in leap years), and \<open>z\<close> is \<open>DayFromYear(y)\<close> plus the days of the earlier months plus
  \<open>d - 1\<close>: such a triple exists, is unique, and is the one the code computes.\<close>

lemma civil_from_days_ecma:
  "civil_from_days z = (y, m, d) \<longleftrightarrow>
     1 \<le> m \<and> m \<le> 12 \<and> 1 \<le> d \<and> d \<le> days_in_month y m \<and> z = day_from_year y + month_start y m + d - 1"
proof
  assume "civil_from_days z = (y, m, d)"
  then show "1 \<le> m \<and> m \<le> 12 \<and> 1 \<le> d \<and> d \<le> days_in_month y m \<and> z = day_from_year y + month_start y m + d - 1"
    using civil_from_days_fields[of z] by simp
next
  assume h: "1 \<le> m \<and> m \<le> 12 \<and> 1 \<le> d \<and> d \<le> days_in_month y m \<and> z = day_from_year y + month_start y m + d - 1"
  obtain y' m' d' where c: "civil_from_days z = (y', m', d')" by (metis prod_cases3)
  then have "1 \<le> m' \<and> m' \<le> 12 \<and> 1 \<le> d' \<and> d' \<le> days_in_month y' m' \<and> z = day_from_year y' + month_start y' m' + d' - 1"
    using civil_from_days_fields[of z] by simp
  then have "y = y' \<and> m = m' \<and> d = d'" using h ecma_date_unique[of m d y z m' d' y'] by blast
  then show "civil_from_days z = (y, m, d)" using c by simp
qed

subsection \<open>The shape of the timestamp\<close>

lemma nat_to_dec_length: "n < 10 ^ k \<Longrightarrow> 0 < k \<Longrightarrow> length (nat_to_dec n) \<le> k"
proof (induction n arbitrary: k rule: nat_to_dec.induct)
  case (1 n)
  show ?case
  proof (cases "n < 10")
    case True
    then show ?thesis using "1.prems"(2) by (subst nat_to_dec.simps) simp
  next
    case False
    have "k \<noteq> 1" using False "1.prems"(1) by auto
    then have k: "2 \<le> k" using "1.prems"(2) by linarith
    have "n < 10 ^ (k - 1) * 10" using "1.prems"(1) k by (metis Suc_diff_1 less_le_trans mult.commute order_refl power_Suc zero_less_numeral "1.prems"(2))
    then have "n div 10 < 10 ^ (k - 1)" by (rule less_mult_imp_div_less)
    then have "length (nat_to_dec (n div 10)) \<le> k - 1" using "1.IH" False k by simp
    then show ?thesis using False k by (subst nat_to_dec.simps) simp
  qed
qed

lemma pad_dec_length: "n < 10 ^ k \<Longrightarrow> 0 < k \<Longrightarrow> length (pad_dec k n) = k"
  using nat_to_dec_length[of n k] by (simp add: pad_dec_def)

lemma iso_shape:
  assumes "length a = 4" "length b = 2" "length c = 2" "length d = 2" "length e = 2" "length f = 2" "length g = 3"
  shows "length (a @ [45] @ b @ [45] @ c @ [84] @ d @ [58] @ e @ [58] @ f @ [46] @ g @ [90::nat]) = 24 \<and>
    (a @ [45] @ b @ [45] @ c @ [84] @ d @ [58] @ e @ [58] @ f @ [46] @ g @ [90::nat]) ! 4 = 45 \<and>
    (a @ [45] @ b @ [45] @ c @ [84] @ d @ [58] @ e @ [58] @ f @ [46] @ g @ [90::nat]) ! 7 = 45 \<and>
    (a @ [45] @ b @ [45] @ c @ [84] @ d @ [58] @ e @ [58] @ f @ [46] @ g @ [90::nat]) ! 10 = 84 \<and>
    (a @ [45] @ b @ [45] @ c @ [84] @ d @ [58] @ e @ [58] @ f @ [46] @ g @ [90::nat]) ! 13 = 58 \<and>
    (a @ [45] @ b @ [45] @ c @ [84] @ d @ [58] @ e @ [58] @ f @ [46] @ g @ [90::nat]) ! 16 = 58 \<and>
    (a @ [45] @ b @ [45] @ c @ [84] @ d @ [58] @ e @ [58] @ f @ [46] @ g @ [90::nat]) ! 19 = 46 \<and>
    (a @ [45] @ b @ [45] @ c @ [84] @ d @ [58] @ e @ [58] @ f @ [46] @ g @ [90::nat]) ! 23 = 90"
  using assms by (simp add: nth_append)

text \<open>For every \<open>Date.now()\<close> from 1970 through the end of year 9999, the timestamp
  the feedback record carries has the shape \<open>YYYY-MM-DDTHH:mm:ss.sssZ\<close> of ECMA-262's
  Date Time String Format: 24 characters, with the separators in their places.\<close>

lemma iso_string_format:
  assumes "0 \<le> t" "t < 253402300800000"
  shows "length (iso_string t) = 24 \<and> iso_string t ! 4 = 45 \<and> iso_string t ! 7 = 45 \<and>
    iso_string t ! 10 = 84 \<and> iso_string t ! 13 = 58 \<and> iso_string t ! 16 = 58 \<and>
    iso_string t ! 19 = 46 \<and> iso_string t ! 23 = 90"
proof -
  define days where "days = t div 86400000"
  define ms where "ms = t mod 86400000"
  obtain y m d where c: "civil_from_days days = (y, m, d)" by (metis prod_cases3)
  have f: "1 \<le> m" "m \<le> 12" "1 \<le> d" "d \<le> days_in_month y m" "days = day_from_year y + month_start y m + d - 1"
    using civil_from_days_fields[of days] c by auto
  have yb: "day_from_year y \<le> days" "days < day_from_year (y + 1)" using ecma_date_year[OF f] by auto
  have d0: "0 \<le> days" unfolding days_def using assms(1) by simp
  have "days \<le> 253402300799999 div 86400000" unfolding days_def using assms(2) by (intro zdiv_mono1) simp_all
  then have d1: "days < day_from_year 10000" by (simp add: day_from_year_def)
  have y0: "1970 \<le> y"
  proof (rule ccontr)
    assume "\<not> 1970 \<le> y"
    then have "day_from_year (y + 1) \<le> day_from_year 1970"
      using day_from_year_mono[of "y + 1" 1970] by (cases "y + 1 = 1970") auto
    then show False using yb d0 by (simp add: day_from_year_def)
  qed
  have y1: "y < 10000"
  proof (rule ccontr)
    assume "\<not> y < 10000"
    then have "day_from_year 10000 \<le> day_from_year y"
      using day_from_year_mono[of 10000 y] by (cases "y = 10000") auto
    then show False using yb d1 by simp
  qed
  have dm: "d \<le> 31" using f(4) month_table[OF f(1,2), of y] by simp
  have msb: "0 \<le> ms" "ms < 86400000" unfolding ms_def by simp_all
  have pad2: "0 \<le> x \<Longrightarrow> x < 100 \<Longrightarrow> length (pad_dec 2 (nat x)) = 2" for x :: int
    using pad_dec_length[of "nat x" 2] by simp
  have h: "ms div 3600000 \<le> 86399999 div 3600000" using msb by (intro zdiv_mono1) simp_all
  have l: "length (iso_year y) = 4" "length (pad_dec 2 (nat m)) = 2" "length (pad_dec 2 (nat d)) = 2"
    "length (pad_dec 2 (nat (ms div 3600000))) = 2" "length (pad_dec 2 (nat (ms div 60000 mod 60))) = 2"
    "length (pad_dec 2 (nat (ms div 1000 mod 60))) = 2" "length (pad_dec 3 (nat (ms mod 1000))) = 3"
    using y0 y1 f dm msb h pad_dec_length[of "nat y" 4] pad_dec_length[of "nat (ms mod 1000)" 3]
    by (auto simp: iso_year_def intro!: pad2)
  have e: "iso_string t = iso_year y @ U ''-'' @ pad_dec 2 (nat m) @ U ''-'' @ pad_dec 2 (nat d) @ U ''T'' @
       pad_dec 2 (nat (ms div 3600000)) @ U '':'' @ pad_dec 2 (nat (ms div 60000 mod 60)) @ U '':'' @
       pad_dec 2 (nat (ms div 1000 mod 60)) @ U ''.'' @ pad_dec 3 (nat (ms mod 1000)) @ U ''Z''"
    unfolding iso_string_def Let_def days_def[symmetric] ms_def[symmetric] c by simp
  have u: "U ''-'' = [45]" "U ''T'' = [84]" "U '':'' = [58]" "U ''.'' = [46]" "U ''Z'' = [90]"
    by (simp_all add: U_def)
  show ?thesis unfolding e u using iso_shape[OF l] by simp
qed

end
