(* ===== verification/Presentation.thy ===== *)
theory Presentation
  imports Session
begin

text \<open>
  What the screens of src/src/App.jsx display beyond the view \<open>render\<close> returns: the
  numbers and strings the markup computes.  The question screen's header
  (\<open>Intrebarea {currentQuestionIndex + 1} din {QUESTIONS.length}\<close>, line 460), the width
  of its progress bar (\<open>((currentQuestionIndex + 1) / QUESTIONS.length) * 100\<close>, line 467,
  in binary64 arithmetic), the staggered animation delay of each option button
  (\<open>idx * 0.1\<close>, line 487), the score text of the result screen (\<open>{finalScore}%\<close>,
  line 861) and the scroll effect of lines 194--196.  \<open>paint\<close> maps a view to the page
  with these values; styles, icons and the fixed texts are not modelled.
\<close>

text \<open>\<open>a / b\<close> on numbers: the rounded quotient; \<open>None\<close> for a zero divisor, where
  JavaScript yields \<open>Infinity\<close> or \<open>NaN\<close>, values the model's numbers do not have.\<close>

definition js_div :: "rat \<Rightarrow> rat \<Rightarrow> rat option" where
  "js_div a b = (if b = 0 then None else Some (fl (a / b)))"

text \<open>The header of the question screen, \<open>n\<close> being \<open>currentQuestionIndex + 1\<close> and \<open>m\<close>
  the length of the catalog; JSX drops the line break and keeps the spaces around the
  expressions.  The first letter is U+00CE.\<close>

definition header_subtitle :: "nat \<Rightarrow> nat \<Rightarrow> ustring" where
  "header_subtitle n m = [206] @ U ''ntrebarea '' @ js_int_to_string (int n) @ U '' din '' @
     js_int_to_string (int m)"

definition progress_width :: "nat \<Rightarrow> nat \<Rightarrow> rat option" where
  "progress_width n m = map_option (\<lambda>q. js_mul q 100) (js_div (of_nat n) (of_nat m))"

definition option_delay :: "nat \<Rightarrow> rat" where
  "option_delay idx = js_mul (of_nat idx) (fl (1/10))"

text \<open>The controls of a question: one button per option, with its animation delay and
  the value its click passes to \<open>handleAnswer\<close>; or the range input with its bounds, its
  step and the label under it.\<close>

datatype control =
    Option_Buttons "(rat \<times> rat) list"
  | Range_Input rat rat rat slider_label

fun controls :: "question_input \<Rightarrow> slider_label \<Rightarrow> control" where
  "controls (Options vs) l = Option_Buttons (map (\<lambda>(idx, v). (option_delay idx, v)) (enumerate 0 vs))"
| "controls (Slider lo hi st) l = Range_Input lo hi st l"

text \<open>\<open>{finalScore}%\<close>: React renders \<open>null\<close> as nothing and a number as its decimal.\<close>

definition score_text :: "int option \<Rightarrow> ustring" where
  "score_text sc = (case sc of None \<Rightarrow> [] | Some n \<Rightarrow> js_int_to_string n) @ U ''%''"

datatype page =
    Intro_Page
  | Question_Page ustring "rat option" control
  | Loading_Page
  | Result_Page ustring ustring ustring ustring bool
  | Feedback_Page

text \<open>The result page: emoji, background colour of the score, score text, explanation,
  and whether the thank-you note shows.\<close>

fun paint :: "view \<Rightarrow> page" where
  "paint Intro_View = Intro_Page"
| "paint (Question_View n m inp l) = Question_Page (header_subtitle n m) (progress_width n m) (controls inp l)"
| "paint Loading_View = Loading_Page"
| "paint (Result_View sc col em ex ty) = Result_Page em col (score_text sc) ex ty"
| "paint Feedback_View = Feedback_Page"

text \<open>The effect of lines 194--196 runs after a commit in which \<open>currentQuestionIndex\<close> or
  \<open>stage\<close> changed; \<open>chatEndRef.current\<close> is the last element of the question screen and
  \<open>null\<close> on every other screen, where \<open>?.\<close> skips the call.  \<open>scroll_effect prev s\<close>:
  the commit of \<open>s\<close> after \<open>prev\<close> scrolls the chat.\<close>

definition scroll_effect :: "crushbot \<Rightarrow> crushbot \<Rightarrow> bool" where
  "scroll_effect prev s \<longleftrightarrow>
     (currentQuestionIndex prev, stage prev) \<noteq> (currentQuestionIndex s, stage s) \<and>
     (case render s of Inr (Question_View n m inp l) \<Rightarrow> True | _ \<Rightarrow> False)"

declare js_div_def [num_eval] header_subtitle_def [model_eval] progress_width_def [model_eval]
  option_delay_def [model_eval] score_text_def [model_eval] scroll_effect_def [model_eval]

lemma render_question:
  "render s = Inr (Question_View n m inp l) \<Longrightarrow>
     stage s = Questions \<and> n = Suc (currentQuestionIndex s) \<and> m = 7 \<and> currentQuestionIndex s < 7"
  by (auto simp: render_def length_QUESTIONS split: stage.splits if_splits)

text \<open>The seven widths of the bar, in binary64.\<close>

lemma progress_width_values:
  assumes "1 \<le> n" "n \<le> 7"
  shows "progress_width n 7 = Some ([2010535547933257 / 140737488355328, 2010535547933257 / 70368744177664,
    6031606643799771 / 140737488355328, 2010535547933257 / 35184372088832,
    5026338869833143 / 70368744177664, 6031606643799771 / 70368744177664, 100] ! (n - 1))"
proof -
  have "n \<in> {1, 2, 3, 4, 5, 6, 7}" using assms by auto
  then show ?thesis by (elim insertE emptyE; hypsubst; code_simp)
qed


lemma progress_widths_sorted:
  "sorted_wrt (<) [2010535547933257 / 140737488355328, 2010535547933257 / 70368744177664,
    6031606643799771 / 140737488355328, 2010535547933257 / 35184372088832,
    5026338869833143 / 70368744177664, 6031606643799771 / 70368744177664, (100::rat)]"
  by simp

text \<open>C29: on every question screen the render shows, the progress bar's width is a
  number in \<open>(0, 100]\<close>, exactly 100 on the last question only, and smaller than the
  width of every later question.\<close>

theorem progress_width_bounds:
  assumes "render s = Inr (Question_View n m inp l)"
  shows "\<exists>w. progress_width n m = Some w \<and> 0 < w \<and> w \<le> 100 \<and> (w = 100 \<longleftrightarrow> n = m) \<and>
    (\<forall>n' \<in> {n<..m}. \<exists>w'. progress_width n' m = Some w' \<and> w < w')"
proof -
  define ws :: "rat list" where "ws = [2010535547933257 / 140737488355328, 2010535547933257 / 70368744177664,
    6031606643799771 / 140737488355328, 2010535547933257 / 35184372088832,
    5026338869833143 / 70368744177664, 6031606643799771 / 70368744177664, 100]"
  have r: "n = Suc (currentQuestionIndex s)" "m = 7" "currentQuestionIndex s < 7"
    using render_question[OF assms] by auto
  have v: "1 \<le> k \<Longrightarrow> k \<le> 7 \<Longrightarrow> progress_width k 7 = Some (ws ! (k - 1))" for k
    unfolding ws_def by (rule progress_width_values)
  have lt: "i < j \<Longrightarrow> j < 7 \<Longrightarrow> ws ! i < ws ! j" for i j
    using progress_widths_sorted unfolding ws_def[symmetric] by (simp add: sorted_wrt_iff_nth_less ws_def)
  have b: "i < 7 \<Longrightarrow> 0 < ws ! i \<and> ws ! i \<le> 100 \<and> (ws ! i = 100 \<longleftrightarrow> i = 6)" for i
    by (auto simp: ws_def less_Suc_eq numeral_eq_Suc)
  have p: "progress_width n m = Some (ws ! (n - 1))" using v[of n] r by simp
  have q: "0 < ws ! (n - 1)" "ws ! (n - 1) \<le> 100" "ws ! (n - 1) = 100 \<longleftrightarrow> n = m"
    using b[of "n - 1"] r by auto
  have "\<forall>n' \<in> {n<..m}. \<exists>w'. progress_width n' m = Some w' \<and> ws ! (n - 1) < w'"
    using v lt[of "n - 1"] r by fastforce
  then show ?thesis using p q by blast
qed

theorem progress_width_bounds_witness:
  "\<exists>w. progress_width 1 7 = Some w \<and> 0 < w \<and> w \<le> 100 \<and> (w = 100 \<longleftrightarrow> (1::nat) = 7) \<and>
    (\<forall>n' \<in> {1<..7}. \<exists>w'. progress_width n' 7 = Some w' \<and> w < w')"
  using progress_width_bounds[of "crushbot_init\<lparr>stage := Questions\<rparr>" 1 7
    "input (QUESTIONS ! 0)" "slider_label_of (fl (5/10))"]
  by (simp add: render_def crushbot_init_def length_QUESTIONS)

text \<open>\<open>3 * 0.1\<close> is one unit in the last place above the literal \<open>0.3\<close>.\<close>

lemma option_delay_fourth: "option_delay 3 = fl (3/10) + 1 / 2 ^ 54"
  by code_simp

text \<open>In a patient run the result page shows the score of the KPI object the component
  holds, followed by the percent sign: never a bare \<open>%\<close>.\<close>

lemma patient_result_page:
  assumes "patient w" "stage (ui w) = Result"
  shows "\<exists>em col ex ty. map_sum id paint (render (ui w)) =
    Inr (Result_Page em col (js_int_to_string (calculateFinalScore (kpis (ui w))) @ U ''%'') ex ty)"
  using patient_imp_inv[OF assms(1)] assms(2)
  by (simp add: patient_inv_def scored_def Let_def render_def score_text_def)

text \<open>The answer timer's callback scrolls the chat exactly when it moves to the next
  question; after the last one the loading screen has no chat to scroll.\<close>

lemma advance_scroll:
  assumes "mounted w" "stage (ui w) = Questions" "currentQuestionIndex (ui w) = idx" "idx < length QUESTIONS"
  shows "scroll_effect (ui w) (ui (advance idx k w)) \<longleftrightarrow> idx < length QUESTIONS - 1"
  using assms
  by (simp add: advance_def processResults_def schedule_def scroll_effect_def render_def length_QUESTIONS Let_def)

end
