(* ===== verification/Spec2Isabelle.thy ===== *)
theory Spec2Isabelle
  imports Session Runs Calendar Presentation
begin

text \<open>
  A verification development of CrushBot (src/src/App.jsx), a single-page React quiz that
  asks seven questions about a crush, turns the answers into seven KPIs in [0, 1], scores
  them with fixed weights, classifies the score, asks a text service for an explanation,
  shows the result and stores the user's feedback in a shared key-value store.

  \<^bold>\<open>Parts and theories.\<close>
  \<^item> Prelude: the shared vocabulary, Unicode strings as code-point lists (\<open>ustring\<close>,
    \<open>U\<close>), \<open>undefined\<close>-as-0 lookups (\<open>or_zero\<close>), and the collections \<open>model_eval\<close>
    and \<open>num_eval\<close> of definitions unfolded by evaluation.
  \<^item> Js_Number: JavaScript numbers.  A number is the rational it denotes; every
    arithmetic result is rounded by \<open>fl\<close> to the nearest binary64 value, ties to even,
    subnormals included (exponent floor -1074).  \<open>js_add\<close>, \<open>js_mul\<close>, \<open>math_round\<close>
    (Math.round) are built on it; \<open>fl_error\<close> bounds the rounding error, \<open>fl_mono\<close>
    shows that rounding never swaps two numbers, and an integer
    evaluator of \<open>fl\<close>, proved equal to it, makes concrete scores computable by
    \<open>code_simp\<close>.
  \<^item> Scoring (lines 8--30): \<open>WEIGHTS\<close>, \<open>calculateFinalScore\<close> as the left fold
    \<open>weighted_total\<close> of \<open>score_step\<close> over the weight table followed by
    \<open>Math.round(total * 100)\<close>, and \<open>getCategoryFromScore\<close>.  The lemmas give the score's
    range, its monotonicity in every answer (\<open>calculateFinalScore_mono\<close>, from
    \<open>fl_mono\<close>), the classifier's partition and monotonicity, missing keys as 0, and the
    concrete scores where the binary64 sum and the exact sum round differently.
  \<^item> Catalog (lines 36--120): \<open>QUESTIONS\<close>, with the option values and the slider's
    attributes; \<open>range_values\<close> is what the range input can report.  Every value a
    question accepts lies in [0, 1] and the KPI keys are the weight table's keys in order.
  \<^item> Explanation (lines 126--174): \<open>generateAIExplanation\<close>: the prompt text
    (\<open>build_prompt\<close>, with \<open>toFixed(0)\<close> and \<open>NaN\<close> for a missing KPI), the request
    record, the parsing of the response as JSON values with \<open>TypeError\<close> as an error
    value, and the fallback texts.  The service is a parameter: a function from the
    request to a \<open>fetch_outcome\<close>.  The template is also read as its fixed text and
    its nine interpolated values (\<open>prompt_head\<close>, \<open>prompt_fields\<close>,
    \<open>prompt_tails\<close>), and the prompt determines the score, the category and the
    printed percentages (\<open>build_prompt_inj\<close>).
  \<^item> Feedback (lines 235--255): the feedback key, \<open>JSON.stringify\<close> of the record,
    \<open>toISOString\<close> of the timestamp (with the civil-from-days algorithm), and the store
    write \<open>record_feedback\<close>.  The key determines the millisecond it was taken at, and a
    second submission in the same millisecond overwrites the first.
  \<^item> Calendar: the date of \<open>toISOString\<close> against ECMA-262.  ECMA's
    \<open>DayFromYear\<close>, \<open>InLeapYear\<close> and month table are written out as reference
    definitions, and \<open>civil_from_days_ecma\<close> shows that the era algorithm of theory
    Feedback computes ECMA's year, month and day for every day number, of either sign,
    and that they are the only date satisfying ECMA's conditions (\<open>DayFromYear\<close> and
    the month starts are strictly increasing).  \<open>iso_string_format\<close>: for every clock
    value from 1970 to the end of year 9999 the timestamp has the 24 characters and the
    separators of ECMA's Date Time String Format.  These lemmas, like the round trip of
    \<open>js_int_to_string\<close> and the evaluator lemma of Js_Number, check the model of the
    JavaScript runtime against its standard, so that the program's theorems rest on a
    faithful model of what the code calls.
  \<^item> App (lines 180--267 and the screens at 273, 450, 752, 840, 1129): the component's
    hooks as the record \<open>crushbot\<close>; the world \<open>world\<close> adds whether the component is
    mounted, the pending callbacks (\<open>task\<close>: the 300 ms answer timer with the index and
    KPI object it captured, the awaited explanation, the 2 s result timer, the awaited
    storage write, the 1.5 s feedback timer), the store and the requests sent.  Each
    handler is one definition (\<open>handleAnswer\<close>, \<open>advance\<close> for the timer's callback,
    \<open>processResults\<close>, \<open>handleFeedback\<close>, \<open>handleReset\<close>); \<open>render\<close> returns the screen
    or the \<open>TypeError\<close> of \<open>QUESTIONS[i].text\<close> past the catalog; \<open>app_step\<close> runs one
    event: a user event on the screen shown, or the delivery of the \<open>i\<close>-th pending
    callback, in any order the environment chooses.  A render that throws unmounts the
    component: its later state updates are dropped, its pending callbacks still run.
  \<^item> Session: handler effects as record updates; the invariant \<open>patient_inv\<close> of the
    worlds a patient user reaches (one who acts only when nothing is pending), proved by
    rule induction on \<open>patient\<close>; from it, no crash, a scored result, one request per
    questionnaire with complete KPIs.  Facts of every step, patient or not: what reset
    resets and leaves pending, what an unmounted component still does, where requests come
    from, that the question index never goes back, that the result screen follows the
    reply; and that a feedback click and its settled write refine the spec's
    \<open>recordFeedback\<close> (\<open>feedback_click_records\<close>).  Each pending callback has a
    weight larger than the callbacks it may start (\<open>task_weight\<close>), so without the user
    the event loop comes to rest (\<open>env_run_terminates\<close>).
  \<^item> Runs: the full questionnaire with symbolic answers; the double clicks the code lets
    through, from every world on the question concerned (the next question skipped, the
    crash past the catalog, two requests from the last question); the callbacks a reset
    does not cancel, from every world on a screen with the reset button.
  \<^item> Presentation (lines 194--196, 459--487, 861): what the screens compute for
    display.  \<open>paint\<close> maps the view \<open>render\<close> returns to a page: the header
    \<open>Intrebarea n din 7\<close>, the progress bar's width \<open>((i + 1) / 7) * 100\<close> with binary64
    division (\<open>js_div\<close>), each option button's animation delay \<open>idx * 0.1\<close> and the value
    it answers, the range input, and the score text \<open>{finalScore}%\<close>; \<open>scroll_effect\<close>
    is the \<open>useEffect\<close> that scrolls the chat.  \<open>progress_width_bounds\<close>: on every
    question screen the bar's width lies in (0, 100], is 100 on the last question only
    and grows with the question; in a patient run the result page shows the score's
    decimal and \<open>%\<close>; the chat scrolls exactly when an answer moves to the next question.

  \<^bold>\<open>Bounds and evaluation.\<close>  There is no fuel: every model function is structurally
  recursive or a fold over a fixed list, and the event loop's termination is the
  decreasing callback weight.  Runs are evaluated by \<open>simp\<close> with
  \<open>step_defs\<close>, leaving the score symbolic; concrete scores are evaluated with the
  integer evaluator of \<open>fl\<close>.  Overflow to infinity is not modelled: the magnitudes
  here stay below 200.

  \<^bold>\<open>Not modelled.\<close>  Styling, layout, icons and the fixed display texts of the
  screens (the CSS of the \<open>style jsx\<close> blocks is most of lines 296--1128): they
  compute nothing the program's behaviour depends on; the unused \<open>messagesRef\<close>;
  \<open>console.error\<close>; the smooth scrolling itself (the model records that
  \<open>scrollIntoView\<close> is called).  The network
  and the store are external: the service's answer is an input of the model
  (\<open>fetch_outcome\<close>) and the store is a map the writes update when they settle.
  React's scheduling is abstracted to one render after each event.
\<close>

end
